(* ===== verification/Prelude.thy ===== *)
theory Prelude
  imports Complex_Main "HOL-Library.Sublist"
begin

text \<open>
  Shared vocabulary of the development: results of fallible Go functions, 64-bit
  wrap-around and saturation, Go's truncating integer division, association lists that
  stand for Go maps, and generic list lemmas.  The collections below gather the facts that
  the component proofs pass to the simplifier.
\<close>

section \<open>Collections\<close>

named_theorems trim_simps "facts on strings.TrimSpace and the case conversions"
named_theorems step_frame "fields that an operation leaves unchanged"
named_theorems valid_intros "preservation rules of component invariants"

section \<open>Results of fallible functions\<close>

text \<open>A Go function with result type \<open>(T, error)\<close> returns \<open>'e + 'a\<close>: \<open>Inl\<close> is the error.\<close>

fun rbind :: "'e + 'a \<Rightarrow> ('a \<Rightarrow> 'e + 'b) \<Rightarrow> 'e + 'b" where
  "rbind (Inl e) f = Inl e"
| "rbind (Inr v) f = f v"

lemma rbind_Inr_iff: "rbind r f = Inr b \<longleftrightarrow> (\<exists>a. r = Inr a \<and> f a = Inr b)"
  by (cases r) auto

lemma rbind_Inl_iff: "rbind r f = Inl e \<longleftrightarrow> r = Inl e \<or> (\<exists>a. r = Inr a \<and> f a = Inl e)"
  by (cases r) auto

lemma rbind_InrE:
  assumes "rbind r f = Inr b"
  obtains a where "r = Inr a" and "f a = Inr b"
  using assms by (auto simp: rbind_Inr_iff)

text \<open>A straight-line Go function body: a list of steps that each may return early.\<close>

fun run_steps :: "('s \<Rightarrow> 'e + 's) list \<Rightarrow> 's \<Rightarrow> 'e + 's" where
  "run_steps [] s = Inr s"
| "run_steps (f # fs) s = rbind (f s) (run_steps fs)"

lemma run_steps_append: "run_steps (fs @ gs) s = rbind (run_steps fs s) (run_steps gs)"
  by (induction fs arbitrary: s) (auto, case_tac "a s", auto)

text \<open>An invariant that every step keeps holds of the result of the whole body.\<close>

lemma run_steps_invariant:
  assumes "\<And>f s s'. f \<in> set fs \<Longrightarrow> P s \<Longrightarrow> f s = Inr s' \<Longrightarrow> P s'"
    and "P s" and "run_steps fs s = Inr s'"
  shows "P s'"
  using assms
proof (induction fs arbitrary: s)
  case Nil
  then show ?case by simp
next
  case (Cons f fs)
  then obtain t where t: "f s = Inr t" "run_steps fs t = Inr s'"
    by (auto simp: rbind_Inr_iff)
  with Cons.prems have "P t" by (metis list.set_intros(1))
  then show ?case
    using Cons.IH [of t] Cons.prems(1) t(2) by (metis list.set_intros(2))
qed

section \<open>Machine integers\<close>

text \<open>Go's \<open>int\<close>, \<open>int64\<close> and \<open>time.Duration\<close> are 64-bit two's complement.\<close>

definition max_int64 :: int where
  "max_int64 = 9223372036854775807"

definition min_int64 :: int where
  "min_int64 = - 9223372036854775808"

definition wrap64 :: "int \<Rightarrow> int" where
  "wrap64 x = (x + 9223372036854775808) mod 18446744073709551616 - 9223372036854775808"

definition sat64 :: "int \<Rightarrow> int" where
  "sat64 x = max min_int64 (min max_int64 x)"

definition is_int64 :: "int \<Rightarrow> bool" where
  "is_int64 x \<longleftrightarrow> min_int64 \<le> x \<and> x \<le> max_int64"

lemma wrap64_id: "is_int64 x \<Longrightarrow> wrap64 x = x"
  by (simp add: is_int64_def wrap64_def min_int64_def max_int64_def)

lemma wrap64_range: "is_int64 (wrap64 x)"
  unfolding is_int64_def wrap64_def min_int64_def max_int64_def
  using pos_mod_bound [of 18446744073709551616 "x + 9223372036854775808"]
    pos_mod_sign [of 18446744073709551616 "x + 9223372036854775808"]
  by linarith

lemma mod_one_wrap: "M \<le> x \<Longrightarrow> x < 2 * M \<Longrightarrow> x mod M = x - (M :: int)"
  using mod_pos_pos_trivial [of "x - M" M] by simp

lemma sat64_mono: "x \<le> y \<Longrightarrow> sat64 x \<le> sat64 y"
  by (auto simp: sat64_def)

lemma sat64_ge_iff: "is_int64 d \<Longrightarrow> 0 < d \<Longrightarrow> d \<le> sat64 x \<longleftrightarrow> d \<le> x"
  by (auto simp: sat64_def is_int64_def min_int64_def)

lemma sat64_gt_iff: "0 \<le> d \<Longrightarrow> d < max_int64 \<Longrightarrow> d < sat64 x \<longleftrightarrow> d < x"
  by (auto simp: sat64_def min_int64_def)

text \<open>Go's \<open>/\<close> and \<open>%\<close> on integers truncate towards zero.\<close>

definition quot64 :: "int \<Rightarrow> int \<Rightarrow> int" where
  "quot64 a b = sgn a * sgn b * (\<bar>a\<bar> div \<bar>b\<bar>)"

lemma quot64_nonneg: "0 \<le> a \<Longrightarrow> 0 < b \<Longrightarrow> quot64 a b = a div b"
  by (cases "a = 0") (simp_all add: quot64_def)

section \<open>Floating point values\<close>

text \<open>
  A float64 is a rational, an infinity or NaN.  Only comparisons are used by the program;
  every comparison with NaN is false.
\<close>

datatype float64 = NaN | PosInf | NegInf | Fin rat

fun flt :: "float64 \<Rightarrow> float64 \<Rightarrow> bool" where
  "flt NaN y = False"
| "flt x NaN = False"
| "flt NegInf y = (y \<noteq> NegInf)"
| "flt x PosInf = (x \<noteq> PosInf)"
| "flt PosInf y = False"
| "flt x NegInf = False"
| "flt (Fin a) (Fin b) = (a < b)"

fun fle :: "float64 \<Rightarrow> float64 \<Rightarrow> bool" where
  "fle NaN y = False"
| "fle x NaN = False"
| "fle NegInf y = True"
| "fle x PosInf = True"
| "fle PosInf y = False"
| "fle x NegInf = False"
| "fle (Fin a) (Fin b) = (a \<le> b)"

lemma flt_asym: "flt x y \<Longrightarrow> \<not> flt y x"
  by (cases x; cases y) auto

lemma flt_fle_not: "x \<noteq> NaN \<Longrightarrow> y \<noteq> NaN \<Longrightarrow> fle y x \<longleftrightarrow> \<not> flt x y"
  by (cases x; cases y) auto

section \<open>Go maps as association lists\<close>

text \<open>
  Where the iteration over a Go map matters, the map is an association list with distinct
  keys; its order stands for the (unspecified) iteration order.
\<close>

fun alookup :: "('k \<times> 'v) list \<Rightarrow> 'k \<Rightarrow> 'v option" where
  "alookup [] k = None"
| "alookup ((a, v) # m) k = (if a = k then Some v else alookup m k)"

fun aupdate :: "'k \<Rightarrow> 'v \<Rightarrow> ('k \<times> 'v) list \<Rightarrow> ('k \<times> 'v) list" where
  "aupdate k v [] = [(k, v)]"
| "aupdate k v ((a, w) # m) = (if a = k then (k, v) # m else (a, w) # aupdate k v m)"

lemma alookup_aupdate: "alookup (aupdate k v m) j = (if j = k then Some v else alookup m j)"
  by (induction m) auto

lemma fst_aupdate: "fst ` set (aupdate k v m) = insert k (fst ` set m)"
  by (induction k v m rule: aupdate.induct) (simp_all add: insert_commute)

lemma distinct_aupdate: "distinct (map fst m) \<Longrightarrow> distinct (map fst (aupdate k v m))"
proof (induction m)
  case (Cons p m)
  obtain a w where p: "p = (a, w)" by (cases p)
  show ?case
  proof (cases "a = k")
    case False
    from Cons.prems p have "a \<notin> fst ` set m" by simp
    with False have "a \<notin> fst ` set (aupdate k v m)" by (simp add: fst_aupdate)
    with Cons p False show ?thesis by simp
  qed (use Cons p in simp)
qed simp

lemma alookup_None: "alookup m k = None \<longleftrightarrow> k \<notin> fst ` set m"
  by (induction m k rule: alookup.induct) simp_all

lemma alookup_Some_mem: "alookup m k = Some v \<Longrightarrow> (k, v) \<in> set m"
  by (induction m k rule: alookup.induct) (auto split: if_splits)

section \<open>Lists\<close>

lemma sum_list_map_add:
  "sum_list (map (\<lambda>x. f x + g x) xs) = sum_list (map f xs) + (sum_list (map g xs) :: int)"
  by (induction xs) auto

lemma filter_sum_split:
  "(\<Sum>x\<leftarrow>filter P xs. f x) + (\<Sum>x\<leftarrow>filter (\<lambda>x. \<not> P x) xs. f x) = (\<Sum>x\<leftarrow>xs. f x :: int)"
  by (induction xs) auto

end
