(* ===== verification/GoStrings.thy ===== *)
theory GoStrings
  imports Prelude
begin

text \<open>
  The operations of Go's \<open>strings\<close> and \<open>strconv\<close> packages that the program calls.  A Go
  string is a sequence of bytes and so is the type \<open>string\<close> here.  \<open>TrimSpace\<close> is exact: it
  strips the UTF-8 encodings of every Unicode \<open>White_Space\<close> rune.  The case conversions are
  exact on ASCII text; bytes above 0x7F are left as they are, where Go would consult the
  Unicode case tables.
\<close>

section \<open>Prefixes, suffixes, substrings\<close>

definition has_prefix :: "string \<Rightarrow> string \<Rightarrow> bool" where
  "has_prefix s p \<longleftrightarrow> take (length p) s = p"

definition has_suffix :: "string \<Rightarrow> string \<Rightarrow> bool" where
  "has_suffix s p \<longleftrightarrow> has_prefix (rev s) (rev p)"

definition trim_prefix :: "string \<Rightarrow> string \<Rightarrow> string" where
  "trim_prefix s p = (if has_prefix s p then drop (length p) s else s)"

definition trim_suffix :: "string \<Rightarrow> string \<Rightarrow> string" where
  "trim_suffix s p = (if has_suffix s p then take (length s - length p) s else s)"

text \<open>\<open>strings.CutSuffix\<close>: the string before the suffix, if it is there.\<close>

definition cut_suffix :: "string \<Rightarrow> string \<Rightarrow> string option" where
  "cut_suffix s p = (if has_suffix s p then Some (take (length s - length p) s) else None)"

fun contains :: "string \<Rightarrow> string \<Rightarrow> bool" where
  "contains [] sub = (sub = [])"
| "contains (c # cs) sub = (has_prefix (c # cs) sub \<or> contains cs sub)"

text \<open>\<open>strings.TrimRight(s, c)\<close> and \<open>strings.TrimLeft(s, c)\<close> for a cutset of one byte.\<close>

definition trim_left_char :: "char \<Rightarrow> string \<Rightarrow> string" where
  "trim_left_char c s = dropWhile (\<lambda>x. x = c) s"

definition trim_right_char :: "char \<Rightarrow> string \<Rightarrow> string" where
  "trim_right_char c s = rev (dropWhile (\<lambda>x. x = c) (rev s))"

lemma has_prefix_iff: "has_prefix s p \<longleftrightarrow> (\<exists>t. s = p @ t)"
  unfolding has_prefix_def by (metis append_eq_conv_conj append_take_drop_id)

lemma has_prefix_append [simp]: "has_prefix (p @ t) p"
  by (simp add: has_prefix_def)

lemma has_suffix_iff: "has_suffix s p \<longleftrightarrow> (\<exists>t. s = t @ p)"
  unfolding has_suffix_def has_prefix_iff by (metis rev_append rev_rev_ident)

lemma contains_iff: "contains s sub \<longleftrightarrow> (\<exists>a b. s = a @ sub @ b)"
proof (induction s)
  case Nil
  show ?case by auto
next
  case (Cons c cs)
  show ?case
  proof
    assume "contains (c # cs) sub"
    then consider "has_prefix (c # cs) sub" | "contains cs sub" by auto
    then show "\<exists>a b. c # cs = a @ sub @ b"
    proof cases
      case 1
      then obtain t where "c # cs = [] @ sub @ t" by (auto simp: has_prefix_iff)
      then show ?thesis by blast
    next
      case 2
      then obtain a b where "c # cs = (c # a) @ sub @ b" using Cons.IH by auto
      then show ?thesis by blast
    qed
  next
    assume "\<exists>a b. c # cs = a @ sub @ b"
    then obtain a b where ab: "c # cs = a @ sub @ b" by blast
    show "contains (c # cs) sub"
    proof (cases a)
      case Nil
      with ab show ?thesis by (metis append_Nil contains.simps(2) has_prefix_append)
    next
      case (Cons x a')
      with ab have "cs = a' @ sub @ b" by simp
      with Cons.IH show ?thesis by auto
    qed
  qed
qed

section \<open>Splitting and joining\<close>

text \<open>\<open>strings.Split(s, sep)\<close> for a separator of one byte; never empty.\<close>

fun split_on :: "char \<Rightarrow> string \<Rightarrow> string list" where
  "split_on c [] = [[]]"
| "split_on c (x # xs) =
     (if x = c then [] # split_on c xs
      else (case split_on c xs of [] \<Rightarrow> [[x]] | y # ys \<Rightarrow> (x # y) # ys))"

text \<open>\<open>strings.Cut(s, sep)\<close> and \<open>strings.SplitN(s, sep, 2)\<close>: at the first separator.\<close>

fun cut :: "char \<Rightarrow> string \<Rightarrow> (string \<times> string) option" where
  "cut c [] = None"
| "cut c (x # xs) =
     (if x = c then Some ([], xs) else map_option (\<lambda>(a, b). (x # a, b)) (cut c xs))"

fun join :: "string \<Rightarrow> string list \<Rightarrow> string" where
  "join sep [] = []"
| "join sep [s] = s"
| "join sep (s # t # ss) = s @ sep @ join sep (t # ss)"

lemma split_on_nonempty [simp]: "split_on c s \<noteq> []"
  by (cases s) (auto split: list.splits)

lemma split_on_no_sep: "p \<in> set (split_on c s) \<Longrightarrow> c \<notin> set p"
proof (induction s arbitrary: p)
  case (Cons x xs)
  then show ?case by (cases "split_on c xs") (auto split: if_splits)
qed simp

lemma join_Cons_char: "join sep ((x # y) # ys) = x # join sep (y # ys)"
  by (cases ys) simp_all

lemma join_Nil_Cons: "ps \<noteq> [] \<Longrightarrow> join sep ([] # ps) = sep @ join sep ps"
  by (cases ps) simp_all

lemma join_split_on: "join [c] (split_on c s) = s"
proof (induction s)
  case (Cons x xs)
  then show ?case
    by (cases "split_on c xs") (auto simp: join_Cons_char join_Nil_Cons)
qed simp

lemma split_on_id: "c \<notin> set s \<Longrightarrow> split_on c s = [s]"
  by (induction s) auto

lemma split_on_append: "c \<notin> set a \<Longrightarrow> split_on c (a @ c # b) = a # split_on c b"
  by (induction a) auto

lemma cut_Some_iff: "cut c s = Some (a, b) \<longleftrightarrow> s = a @ c # b \<and> c \<notin> set a"
proof (induction s arbitrary: a)
  case (Cons x xs)
  show ?case
  proof (cases "x = c")
    case True
    then show ?thesis by (cases a) auto
  next
    case False
    with Cons.IH show ?thesis by (cases a) auto
  qed
qed simp

lemma cut_None_iff: "cut c s = None \<longleftrightarrow> c \<notin> set s"
  by (induction s) auto

section \<open>TrimSpace\<close>

text \<open>
  \<open>strings.TrimSpace\<close> strips the runes with the Unicode property \<open>White_Space\<close> from both
  ends: the six ASCII ones, and U+0085, U+00A0, U+1680, U+2000 to U+200A, U+2028, U+2029,
  U+202F, U+205F and U+3000, listed by their UTF-8 encodings.
\<close>

definition byte :: "char \<Rightarrow> nat" where
  "byte c = of_char c"

definition ascii_space :: "char \<Rightarrow> bool" where
  "ascii_space c \<longleftrightarrow> byte c = 32 \<or> (9 \<le> byte c \<and> byte c \<le> 13)"

definition space_runes :: "string list" where
  "space_runes =
     [[CHR 0xC2, CHR 0x85], [CHR 0xC2, CHR 0xA0], [CHR 0xE1, CHR 0x9A, CHR 0x80],
      [CHR 0xE2, CHR 0x80, CHR 0x80], [CHR 0xE2, CHR 0x80, CHR 0x81],
      [CHR 0xE2, CHR 0x80, CHR 0x82], [CHR 0xE2, CHR 0x80, CHR 0x83],
      [CHR 0xE2, CHR 0x80, CHR 0x84], [CHR 0xE2, CHR 0x80, CHR 0x85],
      [CHR 0xE2, CHR 0x80, CHR 0x86], [CHR 0xE2, CHR 0x80, CHR 0x87],
      [CHR 0xE2, CHR 0x80, CHR 0x88], [CHR 0xE2, CHR 0x80, CHR 0x89],
      [CHR 0xE2, CHR 0x80, CHR 0x8A], [CHR 0xE2, CHR 0x80, CHR 0xA8],
      [CHR 0xE2, CHR 0x80, CHR 0xA9], [CHR 0xE2, CHR 0x80, CHR 0xAF],
      [CHR 0xE2, CHR 0x81, CHR 0x9F], [CHR 0xE3, CHR 0x80, CHR 0x80]]"

text \<open>
  \<open>strip_rune rs s\<close> is what follows the first of the byte sequences \<open>rs\<close> that starts \<open>s\<close>.
  \<open>trim_runes\<close> strips ASCII spaces and those sequences from the front; an ASCII byte that is
  no space stops it.
\<close>

fun strip_rune :: "string list \<Rightarrow> string \<Rightarrow> string option" where
  "strip_rune [] s = None"
| "strip_rune (r # rs) s =
     (if r \<noteq> [] \<and> has_prefix s r then Some (drop (length r) s) else strip_rune rs s)"

lemma strip_rune_shorter: "strip_rune rs s = Some s' \<Longrightarrow> length s' < length s"
proof (induction rs)
  case (Cons r rs)
  show ?case
  proof (cases "r \<noteq> [] \<and> has_prefix s r")
    case True
    then obtain t where "s = r @ t" by (auto simp: has_prefix_iff)
    with True Cons.prems show ?thesis by auto
  next
    case False
    then have "strip_rune (r # rs) s = strip_rune rs s" by auto
    with Cons show ?thesis by simp
  qed
qed simp

function trim_runes :: "string list \<Rightarrow> string \<Rightarrow> string" where
  "trim_runes rs [] = []"
| "trim_runes rs (c # cs) =
     (if ascii_space c then trim_runes rs cs
      else if byte c < 128 then c # cs
      else (case strip_rune rs (c # cs) of
              None \<Rightarrow> c # cs
            | Some s' \<Rightarrow> trim_runes rs s'))"
  by pat_completeness auto
termination
  by (relation "measure (\<lambda>(rs, s). length s)") (auto dest: strip_rune_shorter)

definition trim_space :: "string \<Rightarrow> string" where
  "trim_space s = rev (trim_runes (map rev space_runes) (rev (trim_runes space_runes s)))"

lemma trim_runes_suffix: "\<exists>p. s = p @ trim_runes rs s"
proof (induction rs s rule: trim_runes.induct)
  case (2 rs c cs)
  have strip: "\<exists>q. s = q @ s'" if "strip_rune us s = Some s'" for us s s'
    using that by (induction us) (auto split: if_splits, metis append_take_drop_id)
  show ?case
  proof (cases "ascii_space c")
    case True
    with 2(1) obtain p where "cs = p @ trim_runes rs cs" by blast
    with True show ?thesis by (metis append_Cons trim_runes.simps(2))
  next
    case sp: False
    show ?thesis
    proof (cases "byte c < 128 \<or> strip_rune rs (c # cs) = None")
      case True
      with sp show ?thesis by (auto intro: exI [of _ "[]"])
    next
      case False
      then obtain s' where s': "strip_rune rs (c # cs) = Some s'" "\<not> byte c < 128" by auto
      from 2(2) [OF sp s'(2,1)] obtain p where "s' = p @ trim_runes rs s'" by blast
      moreover from strip [OF s'(1)] obtain q where "c # cs = q @ s'" by blast
      ultimately have "c # cs = (q @ p) @ trim_runes rs s'" by simp
      moreover from s' sp have "trim_runes rs (c # cs) = trim_runes rs s'" by simp
      ultimately show ?thesis by metis
    qed
  qed
qed simp

text \<open>Nothing is left to strip at the front of a stripped string, nor of any prefix of it.\<close>

definition no_lead :: "string list \<Rightarrow> string \<Rightarrow> bool" where
  "no_lead rs s \<longleftrightarrow> trim_runes rs s = s"

lemma trim_runes_length: "length (trim_runes rs s) \<le> length s"
  using trim_runes_suffix [of s rs] by (metis le_add2 length_append)

lemma no_lead_Cons:
  "no_lead rs (c # cs) \<longleftrightarrow> \<not> ascii_space c \<and> (byte c < 128 \<or> strip_rune rs (c # cs) = None)"
proof -
  have "trim_runes rs cs \<noteq> c # cs"
    using trim_runes_length [of rs cs] by (metis length_Cons not_less_eq_eq order_refl)
  moreover have "trim_runes rs s' \<noteq> c # cs" if "strip_rune rs (c # cs) = Some s'" for s'
    using strip_rune_shorter [OF that] trim_runes_length [of rs s'] by (metis leD)
  ultimately show ?thesis
    by (auto simp: no_lead_def split: option.splits)
qed

lemma no_lead_trim_runes: "no_lead rs (trim_runes rs s)"
proof (induction rs s rule: trim_runes.induct)
  case (2 rs c cs)
  then show ?case
    by (auto simp: no_lead_Cons split: option.splits)
qed (simp add: no_lead_def)

lemma strip_rune_None_take: "strip_rune rs s = None \<Longrightarrow> strip_rune rs (take n s) = None"
  by (induction rs) (auto simp: has_prefix_def min_def split: if_splits)

lemma no_lead_take: "no_lead rs s \<Longrightarrow> no_lead rs (take n s)"
proof (cases s)
  case (Cons c cs)
  assume a: "no_lead rs s"
  show ?thesis
  proof (cases n)
    case (Suc m)
    with a Cons strip_rune_None_take [of rs "c # cs" n] show ?thesis
      by (auto simp: no_lead_Cons)
  qed (simp add: no_lead_def)
qed (simp add: no_lead_def)

theorem trim_space_idem [simp, trim_simps]: "trim_space (trim_space s) = trim_space s"
proof -
  let ?R = "map rev space_runes"
  define l where "l = trim_runes space_runes s"
  define r where "r = trim_runes ?R (rev l)"
  have ts: "trim_space s = rev r" by (simp add: trim_space_def l_def r_def)
  obtain p where "rev l = p @ r" using trim_runes_suffix [of "rev l" ?R] r_def by metis
  then have "rev r = take (length r) l"
    by (metis append_eq_conv_conj length_rev rev_append rev_rev_ident)
  with no_lead_take [of space_runes l] no_lead_trim_runes [of space_runes s]
  have "no_lead space_runes (rev r)" by (simp add: l_def)
  moreover have "no_lead ?R r" by (simp add: r_def no_lead_trim_runes)
  ultimately show ?thesis
    by (simp add: ts) (simp add: trim_space_def no_lead_def)
qed

lemma trim_space_Nil [simp, trim_simps]: "trim_space [] = []"
  by (simp add: trim_space_def)

lemma length_trim_space: "length (trim_space s) \<le> length s"
  unfolding trim_space_def
  by (metis length_rev order_trans trim_runes_length)

lemma trim_space_infix: "\<exists>a b. s = a @ trim_space s @ b"
proof -
  obtain p where p: "s = p @ trim_runes space_runes s" using trim_runes_suffix by blast
  obtain q where "rev (trim_runes space_runes s) =
      q @ trim_runes (map rev space_runes) (rev (trim_runes space_runes s))"
    using trim_runes_suffix by blast
  then have "trim_runes space_runes s = trim_space s @ rev q"
    by (metis rev_append rev_rev_ident trim_space_def)
  with p show ?thesis by metis
qed

lemma set_trim_space: "set (trim_space s) \<subseteq> set s"
  using trim_space_infix [of s] by (metis Un_iff set_append subsetI)

section \<open>Case conversion\<close>

definition lower_char :: "char \<Rightarrow> char" where
  "lower_char c = (if 65 \<le> byte c \<and> byte c \<le> 90 then char_of (byte c + 32) else c)"

definition upper_char :: "char \<Rightarrow> char" where
  "upper_char c = (if 97 \<le> byte c \<and> byte c \<le> 122 then char_of (byte c - 32) else c)"

definition to_lower :: "string \<Rightarrow> string" where
  "to_lower s = map lower_char s"

definition to_upper :: "string \<Rightarrow> string" where
  "to_upper s = map upper_char s"

definition equal_fold :: "string \<Rightarrow> string \<Rightarrow> bool" where
  "equal_fold s t \<longleftrightarrow> to_lower s = to_lower t"

lemma byte_char_of: "n < 256 \<Longrightarrow> byte (char_of n) = n"
  by (simp add: byte_def)

lemma lower_char_idem [simp]: "lower_char (lower_char c) = lower_char c"
  by (simp add: lower_char_def byte_char_of)

lemma upper_char_idem [simp]: "upper_char (upper_char c) = upper_char c"
proof (cases "97 \<le> byte c \<and> byte c \<le> 122")
  case True
  then have "upper_char c = char_of (byte c - 32)" by (simp add: upper_char_def)
  moreover from True byte_char_of [of "byte c - 32"] have "byte (char_of (byte c - 32)) \<le> 90"
    by linarith
  ultimately show ?thesis by (simp add: upper_char_def)
next
  case False
  then have "upper_char c = c" by (auto simp: upper_char_def)
  then show ?thesis by simp
qed

lemma to_lower_idem [simp, trim_simps]: "to_lower (to_lower s) = to_lower s"
  by (simp add: to_lower_def)

lemma to_upper_idem [simp, trim_simps]: "to_upper (to_upper s) = to_upper s"
  by (simp add: to_upper_def)

lemma to_lower_Nil_iff [simp]: "to_lower s = [] \<longleftrightarrow> s = []"
  by (simp add: to_lower_def)

lemma to_upper_Nil_iff [simp]: "to_upper s = [] \<longleftrightarrow> s = []"
  by (simp add: to_upper_def)

text \<open>
  The case conversions move ASCII letters only, so they commute with \<open>TrimSpace\<close>.
\<close>

definition case_map :: "(char \<Rightarrow> char) \<Rightarrow> bool" where
  "case_map f \<longleftrightarrow> (\<forall>c. f c = c \<or> (64 < byte c \<and> byte c < 128 \<and> 64 < byte (f c) \<and> byte (f c) < 128))"

lemma case_map_lower: "case_map lower_char"
  by (auto simp: case_map_def lower_char_def byte_char_of)

lemma case_map_upper: "case_map upper_char"
  unfolding case_map_def upper_char_def by (auto simp: byte_char_of)

lemma case_map_high: "case_map f \<Longrightarrow> 128 \<le> byte d \<Longrightarrow> f c = d \<longleftrightarrow> c = d"
  unfolding case_map_def by (metis leD)

lemma case_map_take:
  "case_map f \<Longrightarrow> \<forall>d \<in> set r. 128 \<le> byte d \<Longrightarrow> take (length r) (map f s) = r \<longleftrightarrow> take (length r) s = r"
proof (induction r arbitrary: s)
  case (Cons d r)
  then show ?case by (cases s) (simp_all add: case_map_high)
qed simp

lemma strip_rune_case_map:
  assumes "case_map f" and "\<forall>r \<in> set rs. \<forall>d \<in> set r. 128 \<le> byte d"
  shows "strip_rune rs (map f s) = map_option (map f) (strip_rune rs s)"
  using assms(2)
  by (induction rs) (auto simp: has_prefix_def case_map_take [OF assms(1)] drop_map)

lemma case_map_ascii:
  assumes "case_map f"
  shows "ascii_space (f c) = ascii_space c" and "byte (f c) < 128 \<longleftrightarrow> byte c < 128"
proof -
  from assms have "f c = c \<or> (64 < byte c \<and> byte c < 128 \<and> 64 < byte (f c) \<and> byte (f c) < 128)"
    by (simp add: case_map_def)
  then show "ascii_space (f c) = ascii_space c" and "byte (f c) < 128 \<longleftrightarrow> byte c < 128"
    by (auto simp: ascii_space_def)
qed

lemma trim_runes_case_map:
  assumes f: "case_map f" and rs: "\<forall>r \<in> set rs. \<forall>d \<in> set r. 128 \<le> byte d"
  shows "trim_runes rs (map f s) = map f (trim_runes rs s)"
  using rs
proof (induction rs s rule: trim_runes.induct)
  case (2 rs c cs)
  then show ?case
    using strip_rune_case_map [OF f 2(3), of "c # cs"]
    by (auto simp: case_map_ascii [OF f] split: option.splits)
qed simp

lemma space_runes_high: "\<forall>r \<in> set space_runes. \<forall>d \<in> set r. 128 \<le> byte d"
  by (simp add: space_runes_def byte_def)

lemma trim_space_map: "case_map f \<Longrightarrow> trim_space (map f s) = map f (trim_space s)"
  using space_runes_high
  by (simp add: trim_space_def trim_runes_case_map rev_map)

lemma trim_space_to_lower [simp, trim_simps]: "trim_space (to_lower s) = to_lower (trim_space s)"
  by (simp add: to_lower_def trim_space_map case_map_lower)

lemma trim_space_to_upper [simp, trim_simps]: "trim_space (to_upper s) = to_upper (trim_space s)"
  by (simp add: to_upper_def trim_space_map case_map_upper)

end
