(* ===== verification/GoTime.thy ===== *)
theory GoTime
  imports GoStrings
begin

text \<open>
  Go's \<open>time\<close> package as far as the program uses it.  An instant \<open>time.Time\<close> is the number of
  nanoseconds since the zero time (January 1, year 1, 00:00 UTC), so that the zero value is
  \<open>0\<close> and \<open>UTC()\<close>, which changes the presentation only, is the identity.  A \<open>Duration\<close> is a
  number of nanoseconds in the range of \<open>int64\<close>.  Clock readings are inputs of the model.
\<close>

type_synonym time = int
type_synonym duration = int

definition nanosecond :: duration where "nanosecond = 1"
definition millisecond :: duration where "millisecond = 1000000"
definition second :: duration where "second = 1000000000"
definition minute :: duration where "minute = 60 * second"
definition hour :: duration where "hour = 60 * minute"

lemmas duration_units = nanosecond_def millisecond_def second_def minute_def hour_def

definition zero_time :: time where
  "zero_time = 0"

definition is_zero :: "time \<Rightarrow> bool" where
  "is_zero t \<longleftrightarrow> t = zero_time"

text \<open>\<open>t.Sub(u)\<close> saturates at the bounds of \<open>Duration\<close>; \<open>t.Add(d)\<close> is exact.\<close>

definition time_sub :: "time \<Rightarrow> time \<Rightarrow> duration" where
  "time_sub t u = sat64 (t - u)"

definition time_add :: "time \<Rightarrow> duration \<Rightarrow> time" where
  "time_add t d = t + d"

text \<open>\<open>t.Truncate(d)\<close> rounds down to a multiple of \<open>d\<close> since the zero time.\<close>

definition time_truncate :: "time \<Rightarrow> duration \<Rightarrow> time" where
  "time_truncate t d = (if d \<le> 0 then t else t - t mod d)"

text \<open>\<open>t.AddDate(0, 0, n)\<close> in UTC, where every day has 24 hours.\<close>

definition add_days :: "time \<Rightarrow> int \<Rightarrow> time" where
  "add_days t n = t + n * (24 * hour)"

text \<open>Seconds from the zero time to January 1, 1970.\<close>

definition unix_epoch_seconds :: int where
  "unix_epoch_seconds = 62135596800"

definition time_unix :: "time \<Rightarrow> int" where
  "time_unix t = t div second - unix_epoch_seconds"

definition time_unix_milli :: "time \<Rightarrow> int" where
  "time_unix_milli t = t div millisecond - unix_epoch_seconds * 1000"

text \<open>\<open>time.Unix(sec, 0)\<close>.\<close>

definition unix_time :: "int \<Rightarrow> time" where
  "unix_time s = (s + unix_epoch_seconds) * second"

text \<open>\<open>d.Milliseconds()\<close>, and \<open>int64(d.Seconds())\<close>: both truncate towards zero.\<close>

definition duration_millis :: "duration \<Rightarrow> int" where
  "duration_millis d = quot64 d millisecond"

definition duration_seconds :: "duration \<Rightarrow> int" where
  "duration_seconds d = quot64 d second"

lemma time_sub_ge_iff: "is_int64 w \<Longrightarrow> 0 < w \<Longrightarrow> w \<le> time_sub t u \<longleftrightarrow> w \<le> t - u"
  by (simp add: time_sub_def sat64_ge_iff)

lemma time_sub_gt_iff: "0 \<le> w \<Longrightarrow> w < max_int64 \<Longrightarrow> w < time_sub t u \<longleftrightarrow> w < t - u"
  by (simp add: time_sub_def sat64_gt_iff)

lemma time_unix_unix_time [simp]: "time_unix (unix_time s) = s"
  by (simp add: time_unix_def unix_time_def second_def)

lemma time_truncate_le: "0 < d \<Longrightarrow> time_truncate t d \<le> t \<and> t < time_truncate t d + d"
  by (simp add: time_truncate_def)

lemma time_truncate_idem [simp]: "time_truncate (time_truncate t d) d = time_truncate t d"
  by (simp add: time_truncate_def minus_mod_eq_mult_div)

end
