(* ===== verification/GoStrconv.thy ===== *)
theory GoStrconv
  imports GoTime
begin

text \<open>
  Numbers, booleans and durations as text: the functions of Go's \<open>strconv\<close> and \<open>time\<close> that the
  configuration and the query parameters go through.  Results are \<open>None\<close> where Go returns an
  error.  \<open>parse_duration\<close> follows \<open>time.ParseDuration\<close>; the fractional part of a component,
  which Go scales in float64, is scaled exactly and rounded down.
\<close>

section \<open>Decimal numbers\<close>

definition is_digit :: "char \<Rightarrow> bool" where
  "is_digit c \<longleftrightarrow> 48 \<le> byte c \<and> byte c \<le> 57"

definition digit_val :: "char \<Rightarrow> nat" where
  "digit_val c = byte c - 48"

definition digit_char :: "nat \<Rightarrow> char" where
  "digit_char n = char_of (48 + n)"

fun show_nat :: "nat \<Rightarrow> string" where
  "show_nat n = (if n < 10 then [digit_char n] else show_nat (n div 10) @ [digit_char (n mod 10)])"

declare show_nat.simps [simp del]

definition show_int :: "int \<Rightarrow> string" where
  "show_int i = (if i < 0 then ''-'' @ show_nat (nat (- i)) else show_nat (nat i))"

definition dec_val :: "string \<Rightarrow> nat" where
  "dec_val s = foldl (\<lambda>x c. 10 * x + digit_val c) 0 s"

definition all_digits :: "string \<Rightarrow> bool" where
  "all_digits s \<longleftrightarrow> s \<noteq> [] \<and> list_all is_digit s"

text \<open>\<open>strconv.Atoi\<close>: an optional sign, digits, and the range of \<open>int64\<close>.\<close>

definition atoi :: "string \<Rightarrow> int option" where
  "atoi s =
     (let (neg, ds) = (case s of
          [] \<Rightarrow> (False, [])
        | c # cs \<Rightarrow> if c = CHR ''-'' then (True, cs) else if c = CHR ''+'' then (False, cs) else (False, s));
        v = int (dec_val ds);
        i = (if neg then - v else v)
      in if all_digits ds \<and> is_int64 i then Some i else None)"

text \<open>\<open>strconv.ParseBool\<close>.\<close>

definition parse_bool :: "string \<Rightarrow> bool option" where
  "parse_bool s =
     (if s \<in> set [''1'', ''t'', ''T'', ''true'', ''TRUE'', ''True''] then Some True
      else if s \<in> set [''0'', ''f'', ''F'', ''false'', ''FALSE'', ''False''] then Some False
      else None)"

lemma is_digit_digit_char: "n < 10 \<Longrightarrow> is_digit (digit_char n)"
  by (simp add: is_digit_def digit_char_def byte_char_of)

lemma digit_val_digit_char: "n < 10 \<Longrightarrow> digit_val (digit_char n) = n"
  by (simp add: digit_val_def digit_char_def byte_char_of)

lemma dec_val_snoc: "dec_val (s @ [c]) = 10 * dec_val s + digit_val c"
  by (simp add: dec_val_def)

lemma show_nat_digits: "all_digits (show_nat n)"
  by (induction n rule: show_nat.induct)
    (subst show_nat.simps, auto simp: all_digits_def is_digit_digit_char)

lemma dec_val_show_nat [simp]: "dec_val (show_nat n) = n"
proof (induction n rule: show_nat.induct)
  case (1 n)
  show ?case
  proof (cases "n < 10")
    case True
    then show ?thesis by (subst show_nat.simps) (simp add: dec_val_def digit_val_digit_char)
  next
    case False
    with 1 show ?thesis
      by (subst show_nat.simps) (simp add: dec_val_snoc digit_val_digit_char)
  qed
qed

lemma hd_show_nat: "is_digit (hd (show_nat n))"
  using show_nat_digits [of n] by (cases "show_nat n") (auto simp: all_digits_def)

lemma sign_not_digit: "\<not> is_digit (CHR ''-'')" "\<not> is_digit (CHR ''+'')"
  by (simp_all add: is_digit_def byte_def)

lemma atoi_show_int: "is_int64 i \<Longrightarrow> atoi (show_int i) = Some i"
proof (cases "i < 0")
  case True
  assume "is_int64 i"
  with True show_nat_digits [of "nat (- i)"] show ?thesis
    by (simp add: atoi_def show_int_def)
next
  case False
  assume "is_int64 i"
  obtain c cs where c: "show_nat (nat i) = c # cs"
    using show_nat_digits [of "nat i"] by (cases "show_nat (nat i)") (auto simp: all_digits_def)
  with hd_show_nat [of "nat i"] have "c \<noteq> CHR ''-''" "c \<noteq> CHR ''+''"
    using sign_not_digit by auto
  moreover have "dec_val (c # cs) = nat i" "all_digits (c # cs)"
    using dec_val_show_nat [of "nat i"] show_nat_digits [of "nat i"] by (simp_all add: c)
  ultimately show ?thesis using False \<open>is_int64 i\<close> by (simp add: atoi_def show_int_def c)
qed

lemma atoi_range: "atoi s = Some i \<Longrightarrow> is_int64 i"
  by (auto simp: atoi_def Let_def split: list.splits if_splits)

section \<open>Durations\<close>

text \<open>\<open>leadingInt\<close>: the digits in front, an error above 2^63.\<close>

fun leading_int :: "nat \<Rightarrow> string \<Rightarrow> (nat \<times> string) option" where
  "leading_int x [] = Some (x, [])"
| "leading_int x (c # cs) =
     (if \<not> is_digit c then Some (x, c # cs)
      else if 2 ^ 63 div 10 < x then None
      else let y = 10 * x + digit_val c in if 2 ^ 63 < y then None else leading_int y cs)"

text \<open>\<open>leadingFraction\<close>: value, scale and rest; digits beyond the capacity are dropped.\<close>

fun leading_fraction :: "nat \<Rightarrow> nat \<Rightarrow> bool \<Rightarrow> string \<Rightarrow> nat \<times> nat \<times> string" where
  "leading_fraction x sc over [] = (x, sc, [])"
| "leading_fraction x sc over (c # cs) =
     (if \<not> is_digit c then (x, sc, c # cs)
      else if over then leading_fraction x sc True cs
      else if (2 ^ 63 - 1) div 10 < x then leading_fraction x sc True cs
      else let y = 10 * x + digit_val c
           in if 2 ^ 63 < y then leading_fraction x sc True cs
              else leading_fraction y (10 * sc) False cs)"

definition unit_map :: "string \<Rightarrow> nat option" where
  "unit_map u =
     (if u = ''ns'' then Some 1
      else if u = ''us'' \<or> u = [CHR 0xC2, CHR 0xB5, CHR ''s''] \<or> u = [CHR 0xCE, CHR 0xBC, CHR ''s'']
        then Some 1000
      else if u = ''ms'' then Some 1000000
      else if u = ''s'' then Some 1000000000
      else if u = ''m'' then Some 60000000000
      else if u = ''h'' then Some 3600000000000
      else None)"

definition unit_char :: "char \<Rightarrow> bool" where
  "unit_char c \<longleftrightarrow> c \<noteq> CHR ''.'' \<and> \<not> is_digit c"

text \<open>One component: digits, optional fraction, unit; yields nanoseconds and the rest.\<close>

definition duration_component :: "string \<Rightarrow> (nat \<times> string) option" where
  "duration_component s =
     (if s = [] \<or> \<not> (hd s = CHR ''.'' \<or> is_digit (hd s)) then None
      else case leading_int 0 s of
        None \<Rightarrow> None
      | Some (v, s1) \<Rightarrow>
          let pre = (length s1 \<noteq> length s);
              (f, sc, s2, post) =
                (if s1 \<noteq> [] \<and> hd s1 = CHR ''.''
                 then let (f, sc, s2) = leading_fraction 0 1 False (tl s1)
                      in (f, sc, s2, length s2 \<noteq> length (tl s1))
                 else (0, 1, s1, False));
              u = takeWhile unit_char s2
          in if (\<not> pre \<and> \<not> post) \<or> u = [] then None
             else case unit_map u of
               None \<Rightarrow> None
             | Some unit \<Rightarrow>
                 if 2 ^ 63 div unit < v then None
                 else let w = v * unit + f * unit div sc
                      in if 2 ^ 63 < w then None else Some (w, dropWhile unit_char s2))"

lemma leading_int_length: "leading_int x s = Some (v, s') \<Longrightarrow> length s' \<le> length s"
  by (induction x s rule: leading_int.induct) (auto simp: Let_def split: if_splits)

lemma leading_fraction_length:
  "leading_fraction x sc over s = (f, sc', s') \<Longrightarrow> length s' \<le> length s"
  by (induction x sc over s rule: leading_fraction.induct) (auto simp: Let_def split: if_splits)

lemma length_dropWhile_less: "takeWhile P s \<noteq> [] \<Longrightarrow> length (dropWhile P s) < length s"
  by (cases s) (auto intro: le_imp_less_Suc length_dropWhile_le split: if_splits)

lemma duration_component_shorter:
  assumes "duration_component s = Some (w, s')"
  shows "length s' < length s"
proof -
  from assms obtain v s1 where s1: "leading_int 0 s = Some (v, s1)"
    by (auto simp: duration_component_def split: if_splits option.splits)
  show ?thesis
  proof (cases "s1 \<noteq> [] \<and> hd s1 = CHR ''.''")
    case True
    obtain f sc s2 where s2: "leading_fraction 0 1 False (tl s1) = (f, sc, s2)"
      by (cases "leading_fraction 0 1 False (tl s1)")
    have "length s2 < length s1"
      using leading_fraction_length [OF s2] True by (cases s1) auto
    moreover have "length (dropWhile unit_char s2) \<le> length s2" by (rule length_dropWhile_le)
    ultimately show ?thesis
      using assms s1 s2 True leading_int_length [OF s1]
      by (auto simp: duration_component_def Let_def split: if_splits option.splits)
  next
    case False
    then show ?thesis
      using assms s1 leading_int_length [OF s1] length_dropWhile_less [of unit_char s1]
      by (auto simp: duration_component_def Let_def split: if_splits option.splits)
  qed
qed

function duration_sum :: "nat \<Rightarrow> string \<Rightarrow> nat option" where
  "duration_sum d s =
     (if s = [] then Some d
      else case duration_component s of
        None \<Rightarrow> None
      | Some (w, s') \<Rightarrow> if 2 ^ 63 < d + w then None else duration_sum (d + w) s')"
  by pat_completeness auto
termination
  by (relation "measure (\<lambda>(d, s). length s)") (auto dest: duration_component_shorter)

declare duration_sum.simps [simp del]

definition parse_duration :: "string \<Rightarrow> duration option" where
  "parse_duration s0 =
     (let (neg, s) = (case s0 of
          [] \<Rightarrow> (False, [])
        | c # cs \<Rightarrow> if c = CHR ''-'' \<or> c = CHR ''+'' then (c = CHR ''-'', cs) else (False, s0))
      in if s = ''0'' then Some 0
         else if s = [] then None
         else case duration_sum 0 s of
           None \<Rightarrow> None
         | Some d \<Rightarrow>
             if neg then Some (- int d)
             else if 2 ^ 63 - 1 < d then None else Some (int d))"

lemma duration_sum_bound: "duration_sum d s = Some r \<Longrightarrow> d \<le> 2 ^ 63 \<Longrightarrow> r \<le> 2 ^ 63"
proof (induction d s rule: duration_sum.induct)
  case (1 d s)
  show ?case
  proof (cases "s = []")
    case True
    with 1 show ?thesis by (simp add: duration_sum.simps)
  next
    case False
    with 1 show ?thesis
      by (subst (asm) (2) duration_sum.simps) (force split: option.splits if_splits)
  qed
qed

lemma parse_duration_range: "parse_duration s = Some d \<Longrightarrow> is_int64 d"
  by (auto simp: parse_duration_def is_int64_def min_int64_def max_int64_def Let_def
      split: list.splits if_splits option.splits dest: duration_sum_bound)

end
