(* ===== verification/AuditEvent.thy ===== *)
theory AuditEvent
  imports GoStrconv
begin

text \<open>
  The data of the audit log (\<open>internal/audit/event.go\<close>): events, their normalisation in
  \<open>PrepareEvent\<close> with the redaction of metadata, and the per-minute metric rollups.  A metadata
  map is an association list with distinct keys; its order stands for Go's iteration order.
  The clock and the random identifier that \<open>PrepareEvent\<close> may read are inputs.
\<close>

section \<open>Events\<close>

definition ResultSuccess :: string where "ResultSuccess = ''success''"
definition ResultFailure :: string where "ResultFailure = ''failure''"
definition ResultDenied :: string where "ResultDenied = ''denied''"

definition PublicGatewayActionFilter :: string where
  "PublicGatewayActionFilter = ''__public_gateway__''"

lemmas result_defs = ResultSuccess_def ResultFailure_def ResultDenied_def

definition knownActions :: "string list" where
  "knownActions =
     [''gateway.request'', ''exchange.request'', ''verify.request'', ''turnstile.verify'',
      ''appcheck.exchange'', ''appcheck.verify'', ''forwardauth.denied'', ''rate_limit.denied'',
      ''admin.dashboard.view'', ''admin.access.denied'', ''admin.metrics.view'', ''audit.view'',
      ''audit.detail.view'', ''audit.reset'', ''system.startup'']"

text \<open>The dynamic values that a \<open>map[string]any\<close> of the program can hold.\<close>

datatype meta_value =
    MString string
  | MStringer string      \<comment> \<open>a \<open>fmt.Stringer\<close>, by the result of its \<open>String\<close> method\<close>
  | MInt int
  | MInt64 int
  | MFloat64 float64
  | MBool bool
  | MNil
  | MStrings "string list" \<comment> \<open>a \<open>[]string\<close>\<close>

type_synonym metadata = "(string \<times> meta_value) list"

record event =
  ev_Seq :: int
  ev_ID :: string
  ev_Timestamp :: time
  ev_Actor :: string
  ev_ActorSource :: string
  ev_Action :: string
  ev_Method :: string
  ev_Path :: string
  ev_Endpoint :: string
  ev_StatusCode :: int
  ev_Result :: string
  ev_RemoteAddr :: string
  ev_UserAgent :: string
  ev_RequestID :: string
  ev_DurationMS :: int
  ev_ErrorCode :: string
  ev_Message :: string
  ev_Metadata :: metadata

text \<open>The zero value \<open>Event{}\<close>, to which composite literals add their fields.\<close>

definition zero_event :: event where
  "zero_event = \<lparr>ev_Seq = 0, ev_ID = [], ev_Timestamp = zero_time, ev_Actor = [],
     ev_ActorSource = [], ev_Action = [], ev_Method = [], ev_Path = [], ev_Endpoint = [],
     ev_StatusCode = 0, ev_Result = [], ev_RemoteAddr = [], ev_UserAgent = [], ev_RequestID = [],
     ev_DurationMS = 0, ev_ErrorCode = [], ev_Message = [], ev_Metadata = []\<rparr>"

section \<open>Redaction and truncation\<close>

definition Truncate :: "string \<Rightarrow> int \<Rightarrow> string" where
  "Truncate value mx = (if mx \<le> 0 \<or> int (length value) \<le> mx then value else take (nat mx) value)"

definition sensitiveParts :: "string list" where
  "sensitiveParts =
     [''password'', ''passwd'', ''secret'', ''token'', ''authorization'', ''cookie'', ''set-cookie'',
      ''body'', ''payload'', ''credential'', ''service_account'', ''apikey'', ''api_key'']"

definition isSensitiveKey :: "string \<Rightarrow> bool" where
  "isSensitiveKey key = list_ex (contains (to_lower (trim_space key))) sensitiveParts"

text \<open>\<open>fmt.Sprint\<close> of a \<open>[]string\<close>.\<close>

definition sprint_strings :: "string list \<Rightarrow> string" where
  "sprint_strings ss = ''['' @ join '' '' ss @ '']''"

fun safe_value :: "meta_value \<Rightarrow> meta_value" where
  "safe_value (MString v) = MString (Truncate v 256)"
| "safe_value (MStringer v) = MString (Truncate v 256)"
| "safe_value (MStrings vs) = MString (Truncate (sprint_strings vs) 256)"
| "safe_value v = v"

definition SafeMetadata :: "metadata \<Rightarrow> metadata" where
  "SafeMetadata m = map (\<lambda>(k, v). (k, safe_value v)) (filter (\<lambda>(k, v). \<not> isSensitiveKey k) m)"

section \<open>PrepareEvent\<close>

definition audit_id :: "string \<Rightarrow> string" where
  "audit_id hex = ''audit_'' @ hex"

definition PrepareEvent :: "string \<Rightarrow> time \<Rightarrow> event \<Rightarrow> event" where
  "PrepareEvent hex now e0 =
     (let e1 = (if ev_ID e0 = [] then e0\<lparr>ev_ID := audit_id hex\<rparr> else e0);
          e2 = (if is_zero (ev_Timestamp e1) then e1\<lparr>ev_Timestamp := now\<rparr> else e1);
          e3 = (if ev_Actor e2 = [] then e2\<lparr>ev_Actor := ''anonymous''\<rparr> else e2);
          e4 = (if ev_Result e3 = [] then e3\<lparr>ev_Result := ResultSuccess\<rparr> else e3)
      in e4\<lparr>ev_Method := to_upper (trim_space (ev_Method e4)),
            ev_Result := to_lower (trim_space (ev_Result e4)),
            ev_UserAgent := Truncate (ev_UserAgent e4) 512,
            ev_Message := Truncate (ev_Message e4) 512,
            ev_Metadata := SafeMetadata (ev_Metadata e4)\<rparr>)"

section \<open>Metric rollups\<close>

record metric_rollup =
  mr_BucketStart :: time
  mr_BucketSize :: duration
  mr_Endpoint :: string
  mr_Method :: string
  mr_Action :: string
  mr_Result :: string
  mr_StatusClass :: string
  mr_StatusCode :: int
  mr_Count :: int

definition statusClass :: "int \<Rightarrow> string" where
  "statusClass status = (if status \<le> 0 then [] else show_int (quot64 status 100) @ ''xx'')"

definition NewMetricRollup :: "event \<Rightarrow> metric_rollup" where
  "NewMetricRollup e =
     \<lparr>mr_BucketStart = time_truncate (ev_Timestamp e) minute,
      mr_BucketSize = minute,
      mr_Endpoint = ev_Endpoint e,
      mr_Method = ev_Method e,
      mr_Action = ev_Action e,
      mr_Result = ev_Result e,
      mr_StatusClass = statusClass (ev_StatusCode e),
      mr_StatusCode = ev_StatusCode e,
      mr_Count = 1\<rparr>"

section \<open>Facts\<close>

lemma Truncate_length: "0 < mx \<Longrightarrow> int (length (Truncate v mx)) \<le> mx"
  by (auto simp: Truncate_def)

lemma Truncate_idem [simp]: "Truncate (Truncate v mx) mx = Truncate v mx"
  by (auto simp: Truncate_def)

lemma Truncate_Nil [simp]: "Truncate [] mx = []"
  by (simp add: Truncate_def)

lemma safe_value_idem [simp]: "safe_value (safe_value v) = safe_value v"
  by (cases v) simp_all

lemma SafeMetadata_Nil [simp]: "SafeMetadata [] = []"
  by (simp add: SafeMetadata_def)

lemma SafeMetadata_idem [simp]: "SafeMetadata (SafeMetadata m) = SafeMetadata m"
  by (induction m) (auto simp: SafeMetadata_def)

lemma SafeMetadata_keys: "(k, v) \<in> set (SafeMetadata m) \<Longrightarrow> \<not> isSensitiveKey k"
  by (auto simp: SafeMetadata_def)

lemma SafeMetadata_strings: "(k, MString v) \<in> set (SafeMetadata m) \<Longrightarrow> length v \<le> 256"
proof -
  assume "(k, MString v) \<in> set (SafeMetadata m)"
  then obtain w where "safe_value w = MString v" by (auto simp: SafeMetadata_def)
  then obtain u where "v = Truncate u 256" by (cases w) auto
  then show ?thesis using Truncate_length [of 256 u] by simp
qed

lemma SafeMetadata_lookup:
  "\<not> isSensitiveKey k \<Longrightarrow> alookup (SafeMetadata m) k = map_option safe_value (alookup m k)"
  by (induction m k rule: alookup.induct) (auto simp: SafeMetadata_def)

lemma PrepareEvent_simps [simp]:
  "ev_Seq (PrepareEvent h n e) = ev_Seq e"
  "ev_ID (PrepareEvent h n e) = (if ev_ID e = [] then audit_id h else ev_ID e)"
  "ev_Timestamp (PrepareEvent h n e) = (if is_zero (ev_Timestamp e) then n else ev_Timestamp e)"
  "ev_Actor (PrepareEvent h n e) = (if ev_Actor e = [] then ''anonymous'' else ev_Actor e)"
  "ev_ActorSource (PrepareEvent h n e) = ev_ActorSource e"
  "ev_Action (PrepareEvent h n e) = ev_Action e"
  "ev_Method (PrepareEvent h n e) = to_upper (trim_space (ev_Method e))"
  "ev_Path (PrepareEvent h n e) = ev_Path e"
  "ev_Endpoint (PrepareEvent h n e) = ev_Endpoint e"
  "ev_StatusCode (PrepareEvent h n e) = ev_StatusCode e"
  "ev_Result (PrepareEvent h n e) =
     to_lower (trim_space (if ev_Result e = [] then ResultSuccess else ev_Result e))"
  "ev_RemoteAddr (PrepareEvent h n e) = ev_RemoteAddr e"
  "ev_UserAgent (PrepareEvent h n e) = Truncate (ev_UserAgent e) 512"
  "ev_RequestID (PrepareEvent h n e) = ev_RequestID e"
  "ev_DurationMS (PrepareEvent h n e) = ev_DurationMS e"
  "ev_ErrorCode (PrepareEvent h n e) = ev_ErrorCode e"
  "ev_Message (PrepareEvent h n e) = Truncate (ev_Message e) 512"
  "ev_Metadata (PrepareEvent h n e) = SafeMetadata (ev_Metadata e)"
  by (simp_all add: PrepareEvent_def Let_def)

lemma audit_id_nonempty [simp]: "audit_id h \<noteq> []"
  by (simp add: audit_id_def)

text \<open>What every prepared event satisfies.\<close>

definition prepared :: "event \<Rightarrow> bool" where
  "prepared e \<longleftrightarrow>
     ev_ID e \<noteq> [] \<and> \<not> is_zero (ev_Timestamp e) \<and> ev_Actor e \<noteq> [] \<and>
     ev_Method e = to_upper (trim_space (ev_Method e)) \<and>
     ev_Result e = to_lower (trim_space (ev_Result e)) \<and>
     length (ev_UserAgent e) \<le> 512 \<and> length (ev_Message e) \<le> 512 \<and>
     SafeMetadata (ev_Metadata e) = ev_Metadata e"

lemma PrepareEvent_prepared:
  assumes "now \<noteq> zero_time"
  shows "prepared (PrepareEvent hex now e)"
  using assms Truncate_length [of 512 "ev_UserAgent e"] Truncate_length [of 512 "ev_Message e"]
  by (simp add: prepared_def is_zero_def)

lemma PrepareEvent_id: "prepared e \<Longrightarrow> ev_Result e \<noteq> [] \<Longrightarrow> PrepareEvent hex now e = e"
  by (rule event.equality) (auto simp: prepared_def Truncate_def)

section \<open>Properties\<close>

text \<open>
  C30. No secret reaches the log through the metadata: after \<open>PrepareEvent\<close> no key names a
  password, token, cookie, body or credential, and every text value has at most 256 bytes.
\<close>

theorem prepare_redacts_metadata:
  assumes "(k, v) \<in> set (ev_Metadata (PrepareEvent hex now e))"
  shows "\<not> isSensitiveKey k \<and>
    (case v of MString t \<Rightarrow> length t \<le> 256 | MStringer t \<Rightarrow> False | MStrings ts \<Rightarrow> False | _ \<Rightarrow> True)"
proof -
  from assms have m: "(k, v) \<in> set (SafeMetadata (ev_Metadata e))" by simp
  then obtain w where w: "v = safe_value w" by (auto simp: SafeMetadata_def)
  have "length t \<le> 256" if "v = MString t" for t using m that SafeMetadata_strings by blast
  then show ?thesis using SafeMetadata_keys [OF m] w by (cases w) auto
qed

theorem prepare_redacts_metadata_witness:
  "\<not> isSensitiveKey ''reason'' \<and> length ''cleanup'' \<le> 256"
proof -
  have "\<not> isSensitiveKey ''reason''" by code_simp
  then have "(''reason'', MString ''cleanup'') \<in> set (ev_Metadata (PrepareEvent ''ab'' 5
      (zero_event\<lparr>ev_Metadata := [(''X-Api-Token'', MString ''t''), (''reason'', MString ''cleanup'')]\<rparr>)))"
    by (simp add: SafeMetadata_def Truncate_def)
  from prepare_redacts_metadata [OF this] show ?thesis by simp
qed

text \<open>
  Preparing an event twice is preparing it once: the repository prepares again what the
  recorder has prepared, and neither the identifier nor the timestamp nor any other field
  changes, whatever clock reading and random bytes the second call sees.
\<close>

lemma prepare_idempotent:
  assumes "now \<noteq> zero_time" and "ev_Result e \<noteq> [] \<Longrightarrow> trim_space (ev_Result e) \<noteq> []"
  shows "PrepareEvent hex' now' (PrepareEvent hex now e) = PrepareEvent hex now e"
proof (rule PrepareEvent_id)
  show "prepared (PrepareEvent hex now e)" by (rule PrepareEvent_prepared [OF assms(1)])
  have "trim_space ResultSuccess \<noteq> []" by code_simp
  with assms(2) show "ev_Result (PrepareEvent hex now e) \<noteq> []" by simp
qed

end
