(* ===== verification/AuditPolicy.thy ===== *)
theory AuditPolicy
  imports AuditEvent
begin

text \<open>
  The audit policy (\<open>internal/audit/policy.go\<close>): which events are persisted, counted and with
  what priority.  The random generator is its sequence of \<open>Float64()\<close> values in \<open>[0, 1)\<close> and
  the position reached in it; at most one value is consumed by a decision.
\<close>

section \<open>Configuration\<close>

definition PublicModeSummary :: string where "PublicModeSummary = ''summary''"
definition PublicModeStep :: string where "PublicModeStep = ''step''"
definition PublicModeFailureStep :: string where "PublicModeFailureStep = ''failure_step''"

lemmas mode_defs = PublicModeSummary_def PublicModeStep_def PublicModeFailureStep_def

datatype EventPriority = EventPriorityCritical | EventPriorityNormal | EventPriorityBestEffort

record EventDecision =
  dec_Persist :: bool
  dec_CountMetric :: bool
  dec_Priority :: EventPriority
  dec_Reason :: string
  dec_SampledOut :: bool
  dec_PublicAction :: bool

record PolicyConfig =
  pc_PublicMode :: string
  pc_VerifySuccessSampleRate :: float64
  pc_VerifyFailureSampleRate :: float64
  pc_ExchangeSuccessSampleRate :: float64
  pc_ExchangeFailureSampleRate :: float64

type_synonym rng = "(nat \<Rightarrow> rat) \<times> nat"

record Policy =
  pol_cfg :: PolicyConfig
  pol_rng :: rng

definition zero_policy_config :: PolicyConfig where
  "zero_policy_config = \<lparr>pc_PublicMode = [], pc_VerifySuccessSampleRate = Fin 0,
     pc_VerifyFailureSampleRate = Fin 0, pc_ExchangeSuccessSampleRate = Fin 0,
     pc_ExchangeFailureSampleRate = Fin 0\<rparr>"

definition defaultRate :: "float64 \<Rightarrow> float64 \<Rightarrow> float64" where
  "defaultRate value fallback = (if flt value (Fin 0) then fallback else value)"

definition clampRate :: "float64 \<Rightarrow> float64" where
  "clampRate value =
     (if flt value (Fin 0) then Fin 0 else if flt (Fin 1) value then Fin 1 else value)"

definition NormalizePolicyConfig :: "PolicyConfig \<Rightarrow> PolicyConfig" where
  "NormalizePolicyConfig cfg0 =
     (let cfg1 = (if pc_PublicMode cfg0 = [] \<and>
                     pc_VerifySuccessSampleRate cfg0 = Fin 0 \<and>
                     pc_VerifyFailureSampleRate cfg0 = Fin 0 \<and>
                     pc_ExchangeSuccessSampleRate cfg0 = Fin 0 \<and>
                     pc_ExchangeFailureSampleRate cfg0 = Fin 0
                  then cfg0\<lparr>pc_VerifyFailureSampleRate := Fin 1,
                            pc_ExchangeSuccessSampleRate := Fin 1,
                            pc_ExchangeFailureSampleRate := Fin 1\<rparr>
                  else cfg0);
          cfg2 = (if pc_PublicMode cfg1 \<in> set [PublicModeSummary, PublicModeStep, PublicModeFailureStep]
                  then cfg1 else cfg1\<lparr>pc_PublicMode := PublicModeFailureStep\<rparr>)
      in cfg2\<lparr>pc_VerifySuccessSampleRate := clampRate (pc_VerifySuccessSampleRate cfg2),
              pc_VerifyFailureSampleRate := clampRate (defaultRate (pc_VerifyFailureSampleRate cfg2) (Fin 1)),
              pc_ExchangeSuccessSampleRate := clampRate (defaultRate (pc_ExchangeSuccessSampleRate cfg2) (Fin 1)),
              pc_ExchangeFailureSampleRate := clampRate (defaultRate (pc_ExchangeFailureSampleRate cfg2) (Fin 1))\<rparr>)"

definition NewPolicy :: "PolicyConfig \<Rightarrow> rng \<Rightarrow> Policy" where
  "NewPolicy cfg g = \<lparr>pol_cfg = NormalizePolicyConfig cfg, pol_rng = g\<rparr>"

section \<open>Sampling and classification\<close>

definition rng_float64 :: "rng \<Rightarrow> rat \<times> rng" where
  "rng_float64 g = (fst g (snd g), (fst g, Suc (snd g)))"

definition sample :: "float64 \<Rightarrow> Policy \<Rightarrow> bool \<times> Policy" where
  "sample rate p =
     (if fle (Fin 1) rate then (True, p)
      else if fle rate (Fin 0) then (False, p)
      else let (u, g) = rng_float64 (pol_rng p) in (flt (Fin u) rate, p\<lparr>pol_rng := g\<rparr>))"

definition isAdminAction :: "string \<Rightarrow> bool" where
  "isAdminAction action \<longleftrightarrow> has_prefix action ''admin.'' \<or> has_prefix action ''audit.''"

definition isPublicSummaryAction :: "string \<Rightarrow> bool" where
  "isPublicSummaryAction action \<longleftrightarrow>
     action = ''gateway.request'' \<or> action = ''exchange.request'' \<or> action = ''verify.request''"

definition isPublicStepAction :: "string \<Rightarrow> bool" where
  "isPublicStepAction action \<longleftrightarrow>
     action = ''turnstile.verify'' \<or> action = ''appcheck.exchange'' \<or> action = ''appcheck.verify''"

definition isVerifyEvent :: "event \<Rightarrow> bool" where
  "isVerifyEvent e \<longleftrightarrow>
     (if ev_Action e = ''verify.request'' \<or> ev_Action e = ''appcheck.verify'' \<or>
         ev_Action e = ''forwardauth.denied'' then True
      else contains (to_lower (ev_Endpoint e)) ''verify'' \<or> contains (to_lower (ev_Path e)) ''/verify'')"

section \<open>Decisions\<close>

definition zero_decision :: EventDecision where
  "zero_decision = \<lparr>dec_Persist = False, dec_CountMetric = False, dec_Priority = EventPriorityNormal,
     dec_Reason = [], dec_SampledOut = False, dec_PublicAction = False\<rparr>"

definition decideSummary :: "event \<Rightarrow> bool \<Rightarrow> Policy \<Rightarrow> EventDecision \<times> Policy" where
  "decideSummary e failed p =
     (let cfg = pol_cfg p;
          (rate, priority) =
            (if isVerifyEvent e then (pc_VerifySuccessSampleRate cfg, EventPriorityBestEffort)
             else (pc_ExchangeSuccessSampleRate cfg, EventPriorityNormal));
          (rate, priority) =
            (if failed
             then (if isVerifyEvent e then pc_VerifyFailureSampleRate cfg
                   else pc_ExchangeFailureSampleRate cfg, EventPriorityCritical)
             else (rate, priority));
          (persist, p') = sample rate p
      in (\<lparr>dec_Persist = persist, dec_CountMetric = True, dec_Priority = priority,
           dec_Reason = ''public_summary'', dec_SampledOut = \<not> persist, dec_PublicAction = True\<rparr>, p'))"

definition decideStep :: "event \<Rightarrow> bool \<Rightarrow> Policy \<Rightarrow> EventDecision \<times> Policy" where
  "decideStep e failed p =
     (let cfg = pol_cfg p
      in if failed then
           (if pc_PublicMode cfg = PublicModeSummary
            then (zero_decision\<lparr>dec_Priority := EventPriorityNormal, dec_Reason := ''summary_mode_step_skip'',
                    dec_SampledOut := True, dec_PublicAction := True\<rparr>, p)
            else (zero_decision\<lparr>dec_Persist := True, dec_Priority := EventPriorityCritical,
                    dec_Reason := ''public_failed_step'', dec_PublicAction := True\<rparr>, p))
         else if pc_PublicMode cfg \<noteq> PublicModeStep
         then (zero_decision\<lparr>dec_Priority := EventPriorityBestEffort, dec_Reason := ''step_skipped_by_mode'',
                 dec_SampledOut := True, dec_PublicAction := True\<rparr>, p)
         else let rate = (if isVerifyEvent e then pc_VerifySuccessSampleRate cfg
                          else pc_ExchangeSuccessSampleRate cfg);
                  (persist, p') = sample rate p
              in (zero_decision\<lparr>dec_Persist := persist, dec_Priority := EventPriorityBestEffort,
                    dec_Reason := ''public_success_step'', dec_SampledOut := \<not> persist,
                    dec_PublicAction := True\<rparr>, p'))"

definition event_failed :: "event \<Rightarrow> bool" where
  "event_failed e \<longleftrightarrow>
     (if 400 \<le> ev_StatusCode e then True else ev_Result e \<noteq> [] \<and> ev_Result e \<noteq> ResultSuccess)"

definition Decide :: "event \<Rightarrow> Policy \<Rightarrow> EventDecision \<times> Policy" where
  "Decide e p =
     (let action = trim_space (ev_Action e);
          failed = event_failed e
      in if isAdminAction action
         then (zero_decision\<lparr>dec_Persist := True, dec_Priority := EventPriorityCritical,
                 dec_Reason := ''admin_event''\<rparr>, p)
         else if action = ''system.startup''
         then (zero_decision\<lparr>dec_Persist := True, dec_Priority := EventPriorityNormal,
                 dec_Reason := ''system_event''\<rparr>, p)
         else if action = ''rate_limit.denied''
         then (zero_decision\<lparr>dec_Persist := True, dec_CountMetric := True,
                 dec_Priority := EventPriorityCritical, dec_Reason := ''rate_limit_denied'',
                 dec_PublicAction := True\<rparr>, p)
         else if action = ''forwardauth.denied''
         then (zero_decision\<lparr>dec_Persist := True, dec_Priority := EventPriorityCritical,
                 dec_Reason := ''forwardauth_denied'', dec_PublicAction := True\<rparr>, p)
         else if isPublicSummaryAction action then decideSummary e failed p
         else if isPublicStepAction action then decideStep e failed p
         else (zero_decision\<lparr>dec_Persist := True,
                 dec_Priority := (if failed then EventPriorityCritical else EventPriorityNormal),
                 dec_Reason := ''default_persist''\<rparr>, p))"

text \<open>A nil policy decides as a fresh policy of the zero configuration.\<close>

definition DecideOpt :: "event \<Rightarrow> Policy option \<Rightarrow> rng \<Rightarrow> EventDecision \<times> Policy option" where
  "DecideOpt e po g = (case po of
     Some p \<Rightarrow> (let (d, p') = Decide e p in (d, Some p'))
   | None \<Rightarrow> (fst (Decide e (NewPolicy zero_policy_config g)), None))"

section \<open>Facts\<close>

lemma sample_True: "fle (Fin 1) rate \<Longrightarrow> sample rate p = (True, p)"
  by (simp add: sample_def)

lemma sample_cfg [simp]: "pol_cfg (snd (sample rate p)) = pol_cfg p"
  by (simp add: sample_def rng_float64_def)

lemma sample_NaN: "fst (sample NaN p) = False"
  by (simp add: sample_def rng_float64_def)

lemma flt_NaN_right [simp]: "\<not> flt x NaN" "\<not> fle x NaN"
  by (cases x; simp)+

lemma clampRate_range: "clampRate r = NaN \<or> (\<exists>q. clampRate r = Fin q \<and> 0 \<le> q \<and> q \<le> 1)"
  by (cases r) (auto simp: clampRate_def)

lemma clampRate_idem [simp]: "clampRate (clampRate r) = clampRate r"
  by (cases r) (auto simp: clampRate_def)

lemma defaultRate_clampRate [simp]: "defaultRate (clampRate r) d = clampRate r"
  by (cases r) (auto simp: clampRate_def defaultRate_def)

text \<open>Actions that keep their dispatch branch when the earlier branches are ruled out.\<close>

lemma not_admin_actions:
  "\<not> isAdminAction ''system.startup''" "\<not> isAdminAction ''rate_limit.denied''"
  "\<not> isAdminAction ''forwardauth.denied''" "\<not> isAdminAction ''gateway.request''"
  "\<not> isAdminAction ''exchange.request''" "\<not> isAdminAction ''verify.request''"
  "\<not> isAdminAction ''turnstile.verify''" "\<not> isAdminAction ''appcheck.exchange''"
  "\<not> isAdminAction ''appcheck.verify''"
  by (simp_all add: isAdminAction_def has_prefix_def)

lemma public_not_admin:
  "isPublicSummaryAction a \<Longrightarrow> \<not> isAdminAction a" "isPublicStepAction a \<Longrightarrow> \<not> isAdminAction a"
  by (auto simp: isPublicSummaryAction_def isPublicStepAction_def not_admin_actions)

lemma decideSummary_simps [simp]:
  "dec_CountMetric (fst (decideSummary e f p))"
  "dec_SampledOut (fst (decideSummary e f p)) = (\<not> dec_Persist (fst (decideSummary e f p)))"
  "pol_cfg (snd (decideSummary e f p)) = pol_cfg p"
  by (simp_all add: decideSummary_def Let_def split_beta)

lemma decideStep_simps [simp]:
  "\<not> dec_CountMetric (fst (decideStep e f p))"
  "dec_SampledOut (fst (decideStep e f p)) = (\<not> dec_Persist (fst (decideStep e f p)))"
  "pol_cfg (snd (decideStep e f p)) = pol_cfg p"
  by (auto simp add: decideStep_def zero_decision_def Let_def split_beta)

lemma Decide_cfg [simp, step_frame]: "pol_cfg (snd (Decide e p)) = pol_cfg p"
  by (simp add: Decide_def Let_def)

section \<open>Properties\<close>

text \<open>
  C17. Security events always reach the log: admin and audit actions, rate-limit denials and
  forwardAuth denials are persisted with critical priority, whatever the mode, the sample rates
  and the random numbers, and no random number is consumed.
\<close>

theorem security_events_persisted:
  assumes "isAdminAction (trim_space (ev_Action e)) \<or>
    trim_space (ev_Action e) \<in> {''rate_limit.denied'', ''forwardauth.denied''}"
  shows "dec_Persist (fst (Decide e p)) \<and> dec_Priority (fst (Decide e p)) = EventPriorityCritical \<and>
    \<not> dec_SampledOut (fst (Decide e p)) \<and> snd (Decide e p) = p"
  using assms by (auto simp: Decide_def zero_decision_def not_admin_actions Let_def)

theorem security_events_persisted_witness:
  "dec_Persist (fst (Decide (zero_event\<lparr>ev_Action := ''admin.access.denied''\<rparr>)
     (NewPolicy zero_policy_config (\<lambda>_. 0, 0))))"
proof -
  have "isAdminAction (trim_space (ev_Action (zero_event\<lparr>ev_Action := ''admin.access.denied''\<rparr>)))"
    by code_simp
  then show ?thesis using security_events_persisted by blast
qed

text \<open>
  The decision table of metrics: an event is counted exactly when its action is a public
  request summary or a rate-limit denial, whether or not its row is sampled out; and an event
  is reported as sampled out exactly when it is not persisted.
\<close>

lemma counted_actions:
  "dec_CountMetric (fst (Decide e p)) =
     (trim_space (ev_Action e) \<in>
        {''gateway.request'', ''exchange.request'', ''verify.request'', ''rate_limit.denied''}) \<and>
   dec_SampledOut (fst (Decide e p)) = (\<not> dec_Persist (fst (Decide e p)))"
proof -
  define a where "a = trim_space (ev_Action e)"
  note not_admin = public_not_admin [of a] not_admin_actions
  have sum: "isPublicSummaryAction a = (a \<in> {''gateway.request'', ''exchange.request'', ''verify.request''})"
    by (auto simp: isPublicSummaryAction_def)
  show ?thesis
    unfolding Decide_def Let_def a_def [symmetric]
    using not_admin sum by (auto simp: zero_decision_def)
qed

text \<open>
  Failures are not lost to sampling: with failure sample rates of 1 (the default) every
  failed public request is persisted with critical priority; a failed upstream step is
  persisted with critical priority unless the policy is in summary mode.
\<close>

lemma failures_persisted:
  assumes "event_failed e"
    and "isPublicSummaryAction (trim_space (ev_Action e)) \<Longrightarrow>
      fle (Fin 1) (pc_VerifyFailureSampleRate (pol_cfg p)) \<and>
      fle (Fin 1) (pc_ExchangeFailureSampleRate (pol_cfg p))"
    and "isPublicStepAction (trim_space (ev_Action e)) \<Longrightarrow> pc_PublicMode (pol_cfg p) \<noteq> PublicModeSummary"
    and "trim_space (ev_Action e) \<noteq> ''system.startup''"
  shows "dec_Persist (fst (Decide e p)) \<and> dec_Priority (fst (Decide e p)) = EventPriorityCritical"
  using assms
  by (auto simp: Decide_def zero_decision_def decideSummary_def decideStep_def sample_True Let_def
      split_beta)

lemma normalize_mode:
  "pc_PublicMode (NormalizePolicyConfig c) \<in> {PublicModeSummary, PublicModeStep, PublicModeFailureStep}"
  by (auto simp: NormalizePolicyConfig_def Let_def)

lemma normalize_clamped:
  "clampRate (pc_VerifySuccessSampleRate (NormalizePolicyConfig c)) = pc_VerifySuccessSampleRate (NormalizePolicyConfig c)"
  "clampRate (pc_VerifyFailureSampleRate (NormalizePolicyConfig c)) = pc_VerifyFailureSampleRate (NormalizePolicyConfig c)"
  "clampRate (pc_ExchangeSuccessSampleRate (NormalizePolicyConfig c)) = pc_ExchangeSuccessSampleRate (NormalizePolicyConfig c)"
  "clampRate (pc_ExchangeFailureSampleRate (NormalizePolicyConfig c)) = pc_ExchangeFailureSampleRate (NormalizePolicyConfig c)"
  by (simp_all add: NormalizePolicyConfig_def Let_def)

lemma normalize_fixpoint:
  assumes "pc_PublicMode c \<in> {PublicModeSummary, PublicModeStep, PublicModeFailureStep}"
    and "clampRate (pc_VerifySuccessSampleRate c) = pc_VerifySuccessSampleRate c"
    and "clampRate (pc_VerifyFailureSampleRate c) = pc_VerifyFailureSampleRate c"
    and "clampRate (pc_ExchangeSuccessSampleRate c) = pc_ExchangeSuccessSampleRate c"
    and "clampRate (pc_ExchangeFailureSampleRate c) = pc_ExchangeFailureSampleRate c"
  shows "NormalizePolicyConfig c = c"
proof -
  have default: "clampRate (defaultRate r (Fin 1)) = r" if "clampRate r = r" for r
    using that defaultRate_clampRate [of r "Fin 1"] by simp
  have "pc_PublicMode c \<noteq> []" using assms(1) by (auto simp: mode_defs)
  with assms show ?thesis by (simp add: NormalizePolicyConfig_def Let_def default)
qed

text \<open>
  \<open>NormalizePolicyConfig\<close> yields a known mode and sample rates that are between 0 and 1 or
  NaN, and normalising again changes nothing.
\<close>

lemma normalize_policy_config:
  "pc_PublicMode (NormalizePolicyConfig c) \<in> {PublicModeSummary, PublicModeStep, PublicModeFailureStep} \<and>
   list_all (\<lambda>r. r = NaN \<or> fle (Fin 0) r \<and> fle r (Fin 1))
     [pc_VerifySuccessSampleRate (NormalizePolicyConfig c),
      pc_VerifyFailureSampleRate (NormalizePolicyConfig c),
      pc_ExchangeSuccessSampleRate (NormalizePolicyConfig c),
      pc_ExchangeFailureSampleRate (NormalizePolicyConfig c)] \<and>
   NormalizePolicyConfig (NormalizePolicyConfig c) = NormalizePolicyConfig c"
proof -
  have range: "r = NaN \<or> fle (Fin 0) r \<and> fle r (Fin 1)" if "clampRate r = r" for r
    using clampRate_range [of r] that by auto
  show ?thesis
    using normalize_mode [of c] normalize_clamped [of c, THEN range]
      normalize_fixpoint [OF normalize_mode normalize_clamped]
    by simp
qed

end
