(* ===== verification/GoNet.thy ===== *)
theory GoNet
  imports GoStrconv
begin

text \<open>
  The parts of Go's \<open>net\<close> and \<open>net/http\<close> that the handlers use: \<open>net.ParseIP\<close>,
  \<open>net.SplitHostPort\<close>, canonical header keys and the header map.  Header names in a header map
  are canonical keys, each with its values in order.
\<close>

section \<open>IP literals\<close>

text \<open>An octet of an IPv4 literal: no leading zero, at most 255.\<close>

definition ipv4_octet :: "string \<Rightarrow> bool" where
  "ipv4_octet s \<longleftrightarrow> all_digits s \<and> (length s = 1 \<or> hd s \<noteq> CHR ''0'') \<and> length s \<le> 3 \<and> dec_val s \<le> 255"

definition parse_ipv4 :: "string \<Rightarrow> bool" where
  "parse_ipv4 s \<longleftrightarrow> (let ps = split_on CHR ''.'' s in length ps = 4 \<and> list_all ipv4_octet ps)"

definition is_hex :: "char \<Rightarrow> bool" where
  "is_hex c \<longleftrightarrow> is_digit c \<or> (65 \<le> byte c \<and> byte c \<le> 70) \<or> (97 \<le> byte c \<and> byte c \<le> 102)"

text \<open>
  The loop of \<open>netip.parseIPv6\<close>: \<open>left\<close> is the number of 16-bit groups that are still to be
  filled, \<open>ell\<close> whether an ellipsis was seen.  An embedded IPv4 literal fills two groups; without
  an ellipsis it must fill the last two.
\<close>

fun ipv6_groups :: "nat \<Rightarrow> bool \<Rightarrow> string \<Rightarrow> bool" where
  "ipv6_groups 0 ell s = (s = [] \<and> \<not> ell)"
| "ipv6_groups (Suc left) ell s =
     (let g = takeWhile is_hex s; r = dropWhile is_hex s
      in if g = [] \<or> 4 < length g then False
         else if r = [] then (left = 0) \<noteq> ell
         else if hd r = CHR ''.''
         then parse_ipv4 s \<and> (if ell then 2 \<le> left else left = 1)
         else if hd r \<noteq> CHR '':'' \<or> tl r = [] then False
         else if hd (tl r) = CHR '':''
         then \<not> ell \<and> (if tl (tl r) = [] then left \<noteq> 0 else ipv6_groups left True (tl (tl r)))
         else ipv6_groups left ell (tl r))"

definition parse_ipv6 :: "string \<Rightarrow> bool" where
  "parse_ipv6 s \<longleftrightarrow>
     (if CHR ''%'' \<in> set s then False
      else if has_prefix s ''::'' then (s = ''::'' \<or> ipv6_groups 8 True (drop 2 s))
      else ipv6_groups 8 False s)"

text \<open>\<open>net.ParseIP\<close>: the first of dot, colon and percent decides; a literal with a zone is refused.\<close>

definition parse_ip :: "string \<Rightarrow> bool" where
  "parse_ip s \<longleftrightarrow>
     (case find (\<lambda>c. c \<in> {CHR ''.'', CHR '':'', CHR ''%''}) s of
        Some c \<Rightarrow> if c = CHR ''.'' then parse_ipv4 s else if c = CHR '':'' then parse_ipv6 s else False
      | None \<Rightarrow> False)"

section \<open>Host and port\<close>

text \<open>The text before and after the last occurrence of a byte.\<close>

definition cut_last :: "char \<Rightarrow> string \<Rightarrow> (string \<times> string) option" where
  "cut_last c s = map_option (\<lambda>(a, b). (rev b, rev a)) (cut c (rev s))"

definition split_host_port :: "string \<Rightarrow> (string \<times> string) option" where
  "split_host_port hp =
     (case cut_last CHR '':'' hp of
        None \<Rightarrow> None
      | Some (pre, port) \<Rightarrow>
          if has_prefix hp ''[''
          then (case cut CHR '']'' hp of
                  None \<Rightarrow> None
                | Some (front, after) \<Rightarrow>
                    if after = CHR '':'' # port
                    then let host = tl front
                         in if CHR ''['' \<in> set (tl hp) \<or> CHR '']'' \<in> set after then None else Some (host, port)
                    else None)
          else if CHR '':'' \<in> set pre \<or> CHR ''['' \<in> set hp \<or> CHR '']'' \<in> set hp then None
          else Some (pre, port))"

section \<open>Headers\<close>

text \<open>The bytes of a header field name (RFC 7230 token).\<close>

definition token_char :: "char \<Rightarrow> bool" where
  "token_char c \<longleftrightarrow> is_digit c \<or> (65 \<le> byte c \<and> byte c \<le> 90) \<or> (97 \<le> byte c \<and> byte c \<le> 122) \<or>
     c \<in> set ''!#$%&*+-.^_`|~'' \<or> byte c = 39"

fun canonical_chars :: "bool \<Rightarrow> string \<Rightarrow> string" where
  "canonical_chars up [] = []"
| "canonical_chars up (c # cs) =
     (if up then upper_char c else lower_char c) # canonical_chars (c = CHR ''-'') cs"

text \<open>\<open>textproto.CanonicalMIMEHeaderKey\<close>.\<close>

definition canonical_key :: "string \<Rightarrow> string" where
  "canonical_key s = (if list_all token_char s then canonical_chars True s else s)"

type_synonym headers = "(string \<times> string list) list"

definition header_values :: "headers \<Rightarrow> string \<Rightarrow> string list" where
  "header_values h k = (case alookup h (canonical_key k) of None \<Rightarrow> [] | Some vs \<Rightarrow> vs)"

definition header_get :: "headers \<Rightarrow> string \<Rightarrow> string" where
  "header_get h k = (case header_values h k of [] \<Rightarrow> [] | v # vs \<Rightarrow> v)"

definition header_set :: "string \<Rightarrow> string \<Rightarrow> headers \<Rightarrow> headers" where
  "header_set k v h = aupdate (canonical_key k) [v] h"

definition header_add :: "string \<Rightarrow> string \<Rightarrow> headers \<Rightarrow> headers" where
  "header_add k v h = aupdate (canonical_key k) (header_values h k @ [v]) h"

section \<open>Facts\<close>

lemma header_values_set: "header_values (header_set k v h) j =
    (if canonical_key j = canonical_key k then [v] else header_values h j)"
  by (simp add: header_values_def header_set_def alookup_aupdate)

lemma header_values_add: "header_values (header_add k v h) j =
    (if canonical_key j = canonical_key k then header_values h k @ [v] else header_values h j)"
  by (simp add: header_values_def header_add_def alookup_aupdate)

lemma header_get_set: "header_get (header_set k v h) j =
    (if canonical_key j = canonical_key k then v else header_get h j)"
  by (simp add: header_get_def header_values_set)

lemma parse_ip_chars: "parse_ip s \<Longrightarrow> s \<noteq> [] \<and> CHR ''%'' \<notin> set s"
proof -
  assume ip: "parse_ip s"
  have "CHR ''%'' \<notin> set s" if "parse_ipv4 s"
  proof
    assume "CHR ''%'' \<in> set s"
    moreover have "set s \<subseteq> insert CHR ''.'' (\<Union> (set ` set (split_on CHR ''.'' s)))"
    proof (induction s)
      case (Cons x xs)
      then show ?case by (cases "split_on CHR ''.'' xs") auto
    qed simp
    ultimately obtain p where "p \<in> set (split_on CHR ''.'' s)" "CHR ''%'' \<in> set p" by auto
    with that have "is_digit CHR ''%''"
      by (auto simp: parse_ipv4_def Let_def list_all_iff ipv4_octet_def all_digits_def)
    then show False by (simp add: is_digit_def byte_def)
  qed
  with ip show ?thesis by (auto simp: parse_ip_def parse_ipv6_def split: option.splits if_splits)
qed

end
