(* ===== verification/GoUrl.thy ===== *)
theory GoUrl
  imports GoStrconv GoNet
begin

text \<open>
  The functions of Go's \<open>path\<close>, \<open>net/url\<close>, \<open>encoding/base64\<close> and \<open>strconv\<close> packages that the
  configuration uses.  \<open>url_parse\<close> follows \<open>url.Parse\<close> with the strict colon rule of Go 1.26;
  a host in square brackets is an IPv6 literal without a zone, other texts in brackets are
  refused.  \<open>parse_float\<close> reads decimal and hexadecimal literals with underscores and the names of the
  special values, and rounds to the nearest float64.
\<close>

section \<open>path.Clean\<close>

text \<open>The elements of the cleaned path, last one first.\<close>

fun clean_elems :: "bool \<Rightarrow> string list \<Rightarrow> string list \<Rightarrow> string list" where
  "clean_elems rooted out [] = out"
| "clean_elems rooted out (e # es) =
     clean_elems rooted
       (if e = [] \<or> e = ''.'' then out
        else if e = ''..''
        then (case out of
                [] \<Rightarrow> if rooted then [] else [e]
              | x # xs \<Rightarrow> if x = ''..'' then e # out else xs)
        else e # out) es"

definition path_clean :: "string \<Rightarrow> string" where
  "path_clean p =
     (if p = [] then ''.''
      else let rooted = (hd p = CHR ''/'');
               out = join ''/'' (rev (clean_elems rooted [] (split_on CHR ''/'' p)))
           in if rooted then CHR ''/'' # out else if out = [] then ''.'' else out)"

definition path_join :: "string list \<Rightarrow> string" where
  "path_join es = (case [e. e \<leftarrow> es, e \<noteq> []] of [] \<Rightarrow> [] | fs \<Rightarrow> path_clean (join ''/'' fs))"

text \<open>The elements of a cleaned rooted path.\<close>

definition clean_elem :: "string \<Rightarrow> bool" where
  "clean_elem e \<longleftrightarrow> e \<noteq> [] \<and> e \<noteq> ''.'' \<and> e \<noteq> ''..'' \<and> CHR ''/'' \<notin> set e"

lemma clean_elems_rooted:
  "list_all clean_elem out \<Longrightarrow> list_all (\<lambda>e. CHR ''/'' \<notin> set e) es \<Longrightarrow> list_all clean_elem (clean_elems True out es)"
  by (induction True out es rule: clean_elems.induct) (auto simp: clean_elem_def split: list.splits)

lemma clean_elems_id:
  "list_all clean_elem es \<Longrightarrow> clean_elems r out es = rev es @ out"
  by (induction es arbitrary: out) (auto simp: clean_elem_def)

lemma split_on_join:
  "es \<noteq> [] \<Longrightarrow> list_all (\<lambda>e. c \<notin> set e) es \<Longrightarrow> split_on c (join [c] es) = es"
proof (induction es rule: induct_list012)
  case (3 x y zs)
  then show ?case by (simp add: split_on_append)
qed (auto simp: split_on_id)

definition clean_path :: "string \<Rightarrow> bool" where
  "clean_path p \<longleftrightarrow> (\<exists>es. p = CHR ''/'' # join ''/'' es \<and> list_all clean_elem es)"

lemma path_clean_rooted:
  assumes "has_prefix p ''/''"
  shows "clean_path (path_clean p)"
proof -
  obtain q where p: "p = CHR ''/'' # q" using assms by (auto simp: has_prefix_iff)
  have "list_all clean_elem (clean_elems True [] (split_on CHR ''/'' p))"
    by (rule clean_elems_rooted) (auto simp: list_all_iff dest: split_on_no_sep)
  then show ?thesis
    by (auto simp: clean_path_def path_clean_def p intro!: exI [of _ "rev (clean_elems True [] (split_on CHR ''/'' p))"])
qed

lemma path_clean_id:
  assumes "clean_path p"
  shows "path_clean p = p"
proof -
  obtain es where p: "p = CHR ''/'' # join ''/'' es" and es: "list_all clean_elem es"
    using assms by (auto simp: clean_path_def)
  show ?thesis
  proof (cases es)
    case Nil
    then show ?thesis by (simp add: path_clean_def p)
  next
    case (Cons x xs)
    have "list_all (\<lambda>e. CHR ''/'' \<notin> set e) es"
      using es by (auto simp: list_all_iff clean_elem_def)
    then have "split_on CHR ''/'' (join ''/'' es) = es"
      using Cons by (intro split_on_join) auto
    then have "clean_elems True [] (split_on CHR ''/'' p) = rev es"
      using es by (simp add: p clean_elems_id)
    then show ?thesis by (simp add: path_clean_def p)
  qed
qed

lemma clean_path_prefix: "clean_path p \<Longrightarrow> has_prefix p ''/''"
  by (auto simp: clean_path_def has_prefix_iff)

lemma join_last: "es \<noteq> [] \<Longrightarrow> last es \<noteq> [] \<Longrightarrow> join sep es \<noteq> [] \<and> last (join sep es) = last (last es)"
  by (induction sep es rule: join.induct) auto

text \<open>Only the root ends in a slash.\<close>

lemma clean_path_last:
  assumes "clean_path p" and "p \<noteq> ''/''"
  shows "last p \<noteq> CHR ''/''"
proof -
  obtain es where p: "p = CHR ''/'' # join ''/'' es" and es: "list_all clean_elem es"
    using assms(1) by (auto simp: clean_path_def)
  have ne: "es \<noteq> []" using assms(2) p by auto
  then have l: "clean_elem (last es)" using es by (simp add: list_all_iff)
  then have le: "last es \<noteq> []" by (simp add: clean_elem_def)
  from l le have "last (last es) \<noteq> CHR ''/''" by (metis clean_elem_def last_in_set)
  with join_last [OF ne le, of "''/''"] show ?thesis by (simp add: p)
qed

section \<open>url.Parse\<close>

record url =
  u_Scheme :: string
  u_Opaque :: string
  u_User :: bool
  u_Host :: string
  u_Path :: string
  u_RawQuery :: string
  u_Fragment :: string

definition is_letter :: "char \<Rightarrow> bool" where
  "is_letter c \<longleftrightarrow> (97 \<le> byte c \<and> byte c \<le> 122) \<or> (65 \<le> byte c \<and> byte c \<le> 90)"

definition is_alnum :: "char \<Rightarrow> bool" where
  "is_alnum c \<longleftrightarrow> is_letter c \<or> is_digit c"

definition ctl_byte :: "char \<Rightarrow> bool" where
  "ctl_byte c \<longleftrightarrow> byte c < 32 \<or> byte c = 127"

text \<open>\<open>getScheme\<close>; the flag tells whether a byte has been read.\<close>

fun scheme_end :: "bool \<Rightarrow> string \<Rightarrow> (string \<times> string) option option" where
  "scheme_end started [] = Some None"
| "scheme_end started (c # cs) =
     (if is_letter c \<or> (started \<and> (is_digit c \<or> c \<in> set ''+-.''))
      then (case scheme_end True cs of
              None \<Rightarrow> None | Some None \<Rightarrow> Some None | Some (Some (a, b)) \<Rightarrow> Some (Some (c # a, b)))
      else if c = CHR '':'' then (if started then Some (Some ([], cs)) else None)
      else Some None)"

text \<open>The hexadecimal value of a byte.\<close>

definition unhex :: "char \<Rightarrow> nat" where
  "unhex c = (if is_digit c then byte c - 48 else if 97 \<le> byte c then byte c - 87 else byte c - 55)"

text \<open>\<open>unescape\<close> in the mode for paths, fragments and userinfo, and in the mode for hosts.\<close>

definition host_byte :: "char \<Rightarrow> bool" where
  "host_byte c \<longleftrightarrow> 128 \<le> byte c \<or> is_alnum c \<or> c \<in> set ''-_.~!$&()*+,;=:[]<>'' \<or> byte c = 39 \<or> byte c = 34"

fun unescape :: "bool \<Rightarrow> string \<Rightarrow> string option" where
  "unescape host [] = Some []"
| "unescape host (c # s) =
     (if c = CHR ''%'' then
        (case s of
           a # b # r \<Rightarrow>
             if is_hex a \<and> is_hex b \<and> \<not> (host \<and> unhex a < 8 \<and> (a, b) \<noteq> (CHR ''2'', CHR ''5''))
             then map_option (\<lambda>t. char_of (16 * unhex a + unhex b) # t) (unescape host r)
             else None
         | _ \<Rightarrow> None)
      else if host \<and> \<not> host_byte c then None
      else map_option (\<lambda>t. c # t) (unescape host s))"

definition valid_optional_port :: "string \<Rightarrow> bool" where
  "valid_optional_port s \<longleftrightarrow> (case s of [] \<Rightarrow> True | c # cs \<Rightarrow> c = CHR '':'' \<and> list_all is_digit cs)"

definition parse_host :: "string \<Rightarrow> string option" where
  "parse_host h =
     (if CHR ''['' \<in> set h then
        (case cut_last CHR '']'' h of
           None \<Rightarrow> None
         | Some (a, port) \<Rightarrow>
             if hd h = CHR ''['' \<and> parse_ipv6 (tl a) \<and> valid_optional_port port then Some h else None)
      else (case cut CHR '':'' h of
              None \<Rightarrow> unescape True h
            | Some (_, port) \<Rightarrow> if list_all is_digit port then unescape True h else None))"

definition userinfo_byte :: "char \<Rightarrow> bool" where
  "userinfo_byte c \<longleftrightarrow> is_alnum c \<or> c \<in> set ''-._:~!$&()*+,;=%@'' \<or> byte c = 39"

text \<open>The host, and whether there is userinfo.\<close>

definition parse_authority :: "string \<Rightarrow> (bool \<times> string) option" where
  "parse_authority a =
     (case cut_last CHR ''@'' a of
        None \<Rightarrow> map_option (Pair False) (parse_host a)
      | Some (user, h) \<Rightarrow>
          if list_all userinfo_byte user \<and> unescape False user \<noteq> None
          then map_option (Pair True) (parse_host h) else None)"

definition cut_or_all :: "char \<Rightarrow> string \<Rightarrow> string \<times> string" where
  "cut_or_all c s = (case cut c s of None \<Rightarrow> (s, []) | Some p \<Rightarrow> p)"

text \<open>\<open>parse\<close> for a text whose fragment has been cut off.\<close>

definition parse_nofrag :: "string \<Rightarrow> url option" where
  "parse_nofrag s =
     (if list_ex ctl_byte s then None
      else if s = ''*''
      then Some \<lparr>u_Scheme = [], u_Opaque = [], u_User = False, u_Host = [], u_Path = ''*'', u_RawQuery = [], u_Fragment = []\<rparr>
      else case scheme_end False s of
        None \<Rightarrow> None
      | Some sp \<Rightarrow>
          let (scheme, rest0) = (case sp of None \<Rightarrow> ([], s) | Some (a, b) \<Rightarrow> (to_lower a, b));
              (rest, query) = cut_or_all CHR ''?'' rest0
          in if \<not> has_prefix rest ''/'' \<and> scheme \<noteq> []
             then Some \<lparr>u_Scheme = scheme, u_Opaque = rest, u_User = False, u_Host = [], u_Path = [], u_RawQuery = query, u_Fragment = []\<rparr>
             else if \<not> has_prefix rest ''/'' \<and> CHR '':'' \<in> set (fst (cut_or_all CHR ''/'' rest)) then None
             else if has_prefix rest ''//'' \<and> (scheme \<noteq> [] \<or> \<not> has_prefix rest ''///'')
             then (let authority = takeWhile (\<lambda>c. c \<noteq> CHR ''/'') (drop 2 rest);
                       p = dropWhile (\<lambda>c. c \<noteq> CHR ''/'') (drop 2 rest)
                   in case (parse_authority authority, unescape False p) of
                        (Some (user, h), Some path) \<Rightarrow>
                          Some \<lparr>u_Scheme = scheme, u_Opaque = [], u_User = user, u_Host = h, u_Path = path, u_RawQuery = query, u_Fragment = []\<rparr>
                      | _ \<Rightarrow> None)
             else map_option (\<lambda>path. \<lparr>u_Scheme = scheme, u_Opaque = [], u_User = False, u_Host = [], u_Path = path, u_RawQuery = query, u_Fragment = []\<rparr>)
                    (unescape False rest))"

definition url_parse :: "string \<Rightarrow> url option" where
  "url_parse s =
     (let (u, frag) = cut_or_all CHR ''#'' s
      in case parse_nofrag u of
           None \<Rightarrow> None
         | Some r \<Rightarrow> map_option (\<lambda>f. r\<lparr>u_Fragment := f\<rparr>) (unescape False frag))"

section \<open>base64.StdEncoding\<close>

definition b64_val :: "char \<Rightarrow> nat option" where
  "b64_val c =
     (if 65 \<le> byte c \<and> byte c \<le> 90 then Some (byte c - 65)
      else if 97 \<le> byte c \<and> byte c \<le> 122 then Some (byte c - 71)
      else if is_digit c then Some (byte c + 4)
      else if c = CHR ''+'' then Some 62
      else if c = CHR ''/'' then Some 63
      else None)"

definition b64_char :: "nat \<Rightarrow> char" where
  "b64_char n =
     (if n < 26 then char_of (n + 65) else if n < 52 then char_of (n + 71)
      else if n < 62 then char_of (n - 4) else if n = 62 then CHR ''+'' else CHR ''/'')"

fun b64_quads :: "string \<Rightarrow> string option" where
  "b64_quads [] = Some []"
| "b64_quads (a # b # c # d # r) =
     (case (b64_val a, b64_val b) of
        (Some w, Some x) \<Rightarrow>
          (if c = CHR ''='' then
             (if d = CHR ''='' \<and> r = [] then Some [char_of (4 * w + x div 16)] else None)
           else case b64_val c of
             None \<Rightarrow> None
           | Some y \<Rightarrow>
               if d = CHR ''='' then
                 (if r = [] then Some [char_of (4 * w + x div 16), char_of (16 * (x mod 16) + y div 4)] else None)
               else case b64_val d of
                 None \<Rightarrow> None
               | Some z \<Rightarrow>
                   map_option (\<lambda>t. [char_of (4 * w + x div 16), char_of (16 * (x mod 16) + y div 4),
                                   char_of (64 * (y mod 4) + z)] @ t) (b64_quads r))
      | _ \<Rightarrow> None)"
| "b64_quads _ = None"

text \<open>Line ends are ignored everywhere.\<close>

definition b64_decode :: "string \<Rightarrow> string option" where
  "b64_decode s = b64_quads [c. c \<leftarrow> s, byte c \<noteq> 10 \<and> byte c \<noteq> 13]"

section \<open>strconv.ParseFloat\<close>

text \<open>The nearest float64 to a non-negative rational, ties to even; \<open>None\<close> beyond the range.\<close>

fun bit_length :: "nat \<Rightarrow> nat" where
  "bit_length n = (if n = 0 then 0 else Suc (bit_length (n div 2)))"

declare bit_length.simps [simp del]

definition round_even :: "nat \<Rightarrow> nat \<Rightarrow> nat" where
  "round_even n d =
     (let q = n div d; r = n mod d
      in if d < 2 * r \<or> (2 * r = d \<and> odd q) then Suc q else q)"

definition pow2 :: "int \<Rightarrow> rat" where
  "pow2 e = (if 0 \<le> e then 2 ^ nat e else 1 / 2 ^ nat (- e))"

text \<open>The quantum of a value \<open>n / d\<close> is two to the power \<open>e\<close>.\<close>

definition quantum_exp :: "nat \<Rightarrow> nat \<Rightarrow> int" where
  "quantum_exp n d =
     (let k = int (bit_length n) - int (bit_length d);
          below = (if 0 \<le> k then n < d * 2 ^ nat k else n * 2 ^ nat (- k) < d)
      in max (- 1074) ((if below then k - 1 else k) - 52))"

definition to_float64 :: "nat \<Rightarrow> nat \<Rightarrow> rat option" where
  "to_float64 n d =
     (let e = quantum_exp n d;
          m = (if 0 \<le> e then round_even n (d * 2 ^ nat e) else round_even (n * 2 ^ nat (- e)) d)
      in if 0 \<le> e \<and> 2 ^ 1024 \<le> m * 2 ^ nat e then None else Some (of_nat m * pow2 e))"

text \<open>Integers below 2^53 are float64 values.\<close>

lemma bit_length_bounds: "0 < n \<Longrightarrow> 2 ^ (bit_length n - 1) \<le> n \<and> n < 2 ^ bit_length n \<and> 0 < bit_length n"
proof (induction n rule: bit_length.induct)
  case (1 n)
  show ?case
  proof (cases "n = 1")
    case True
    then show ?thesis by (simp add: bit_length.simps)
  next
    case False
    with 1 have IH: "2 ^ (bit_length (n div 2) - 1) \<le> n div 2" "n div 2 < 2 ^ bit_length (n div 2)"
        "0 < bit_length (n div 2)" by auto
    have b: "bit_length n = Suc (bit_length (n div 2))" using 1 by (simp add: bit_length.simps [of n])
    have "(2 :: nat) ^ bit_length (n div 2) = 2 * 2 ^ (bit_length (n div 2) - 1)"
      using IH(3) by (cases "bit_length (n div 2)") simp_all
    with IH b show ?thesis by (simp add: less_mult_imp_div_less) linarith
  qed
qed

lemma round_even_1 [simp]: "round_even n (Suc 0) = n"
  by (simp add: round_even_def Let_def)

lemma to_float64_nat:
  assumes "n < 2 ^ 53"
  shows "to_float64 n 1 = Some (of_nat n)"
proof (cases "n = 0")
  case True
  then show ?thesis by (simp add: to_float64_def quantum_exp_def round_even_def bit_length.simps Let_def)
next
  case False
  define k where "k = bit_length n - 1"
  have b: "bit_length n = Suc k" "2 ^ k \<le> n" using bit_length_bounds [of n] False by (auto simp: k_def)
  have "(2 :: nat) ^ k < 2 ^ 53" using b(2) assms by (rule le_less_trans)
  then have "k < 53" by (simp only: power_strict_increasing_iff [of "2 :: nat"])
  then have k: "k \<le> 52" by simp
  have "quantum_exp n 1 = int k - 52"
    using b k by (simp add: quantum_exp_def bit_length.simps [of "Suc 0"] bit_length.simps [of 0] Let_def)
  then show ?thesis
  proof (cases "k = 52")
    case True
    have "\<not> (2 :: nat) ^ 1024 \<le> n"
      using assms power_increasing [of 53 1024 "2 :: nat"] by linarith
    with True \<open>quantum_exp n 1 = int k - 52\<close> show ?thesis by (simp add: to_float64_def pow2_def Let_def)
  next
    case False
    with k have "int k - 52 < 0" by simp
    with \<open>quantum_exp n 1 = int k - 52\<close> show ?thesis by (simp add: to_float64_def pow2_def Let_def)
  qed
qed

text \<open>
  \<open>readFloat\<close>: digits with at most one point and with underscores, after \<open>0x\<close> hexadecimal ones,
  then the exponent, which a hexadecimal literal must have.  The digits of the exponent stop
  counting at 10000.
\<close>

definition float_digit :: "bool \<Rightarrow> char \<Rightarrow> bool" where
  "float_digit hex c \<longleftrightarrow> (if hex then is_hex c else is_digit c)"

fun scan_mantissa :: "bool \<Rightarrow> bool \<Rightarrow> string \<Rightarrow> string \<times> string \<times> string" where
  "scan_mantissa hex sawdot [] = ([], [], [])"
| "scan_mantissa hex sawdot (c # cs) =
     (if c = CHR ''_'' then scan_mantissa hex sawdot cs
      else if c = CHR ''.'' then (if sawdot then ([], [], c # cs) else scan_mantissa hex True cs)
      else if float_digit hex c
      then (let (ip, fp, r) = scan_mantissa hex sawdot cs in if sawdot then (ip, c # fp, r) else (c # ip, fp, r))
      else ([], [], c # cs))"

fun scan_exponent :: "nat \<Rightarrow> string \<Rightarrow> nat \<times> string" where
  "scan_exponent e [] = (e, [])"
| "scan_exponent e (c # cs) =
     (if c = CHR ''_'' then scan_exponent e cs
      else if is_digit c then scan_exponent (if e < 10000 then 10 * e + digit_val c else e) cs
      else (e, c # cs))"

definition split_sign :: "string \<Rightarrow> bool \<times> string" where
  "split_sign s = (case s of
     [] \<Rightarrow> (False, [])
   | c # cs \<Rightarrow> if c = CHR ''-'' then (True, cs) else if c = CHR ''+'' then (False, cs) else (False, s))"

text \<open>\<open>underscoreOK\<close>: an underscore stands between digits, or between a base prefix and a digit.\<close>

datatype underscore_saw = SawStart | SawDigit | SawUnderscore | SawOther

fun underscore_scan :: "bool \<Rightarrow> underscore_saw \<Rightarrow> string \<Rightarrow> bool" where
  "underscore_scan hex saw [] \<longleftrightarrow> saw \<noteq> SawUnderscore"
| "underscore_scan hex saw (c # cs) \<longleftrightarrow>
     (if float_digit hex c then underscore_scan hex SawDigit cs
      else if c = CHR ''_'' then saw = SawDigit \<and> underscore_scan hex SawUnderscore cs
      else saw \<noteq> SawUnderscore \<and> underscore_scan hex SawOther cs)"

definition underscore_ok :: "string \<Rightarrow> bool" where
  "underscore_ok s =
     (let t = snd (split_sign s)
      in case t of
           z # x # r \<Rightarrow>
             if z = CHR ''0'' \<and> lower_char x \<in> set ''box''
             then underscore_scan (lower_char x = CHR ''x'') SawDigit r else underscore_scan False SawStart t
         | _ \<Rightarrow> underscore_scan False SawStart t)"

text \<open>Sign, base, mantissa and the exponent of ten or two.\<close>

definition read_float :: "string \<Rightarrow> (bool \<times> bool \<times> nat \<times> int) option" where
  "read_float s =
     (let (neg, t) = split_sign s;
          hex = (2 < length t \<and> hd t = CHR ''0'' \<and> lower_char (t ! 1) = CHR ''x'');
          (ip, fp, r) = scan_mantissa hex False (if hex then drop 2 t else t);
          ex = (case r of
                  [] \<Rightarrow> if hex then None else Some 0
                | c # cs \<Rightarrow>
                    if lower_char c \<noteq> (if hex then CHR ''p'' else CHR ''e'') then None
                    else (let (eneg, ds) = split_sign cs
                          in if ds = [] \<or> \<not> is_digit (hd ds) then None
                             else (case scan_exponent 0 ds of
                                     (e, []) \<Rightarrow> Some (if eneg then - int e else int e)
                                   | _ \<Rightarrow> None)));
          m = foldl (\<lambda>x c. (if hex then 16 else 10) * x + unhex c) 0 (ip @ fp)
      in if (ip = [] \<and> fp = []) \<or> (CHR ''_'' \<in> set s \<and> \<not> underscore_ok s) then None
         else map_option (\<lambda>e. (neg, hex, m, e - int (if hex then 4 * length fp else length fp))) ex)"

definition parse_float :: "string \<Rightarrow> float64 option" where
  "parse_float s =
     (let (neg, t) = split_sign s; l = to_lower t
      in if l = ''inf'' \<or> l = ''infinity'' then Some (if neg then NegInf else PosInf)
         else if to_lower s = ''nan'' then Some NaN
         else case read_float s of
           None \<Rightarrow> None
         | Some (_, hex, m, e) \<Rightarrow>
             let b = (if hex then 2 else 10)
             in map_option (\<lambda>q. Fin (if neg then - q else q))
                  (if m = 0 then Some 0
                   else if 0 \<le> e then to_float64 (m * b ^ nat e) 1 else to_float64 m (b ^ nat (- e))))"

end
