(* ===== verification/GoJson.thy ===== *)
theory GoJson
  imports GoStrconv
begin

text \<open>
  Decoding JSON texts as Go's \<open>encoding/json\<close> does: bytes to tokens, tokens to a value by a
  machine with a parse stack (the scanner of the package has the same states), strings with their
  escapes, surrogate pairs and replacement of invalid UTF-8.  A nesting deeper than 10000 is
  refused.
\<close>

section \<open>UTF-8\<close>

definition in_range :: "nat \<Rightarrow> nat \<Rightarrow> char \<Rightarrow> bool" where
  "in_range a b c \<longleftrightarrow> a \<le> byte c \<and> byte c \<le> b"

text \<open>The length of the well-formed encoding at the front of a byte sequence.\<close>

definition rune_len :: "string \<Rightarrow> nat option" where
  "rune_len s =
     (let cont = in_range 0x80 0xBF
      in case s of
           [] \<Rightarrow> None
         | a # r \<Rightarrow>
             if byte a < 0x80 then Some 1
             else (case r of
                 [] \<Rightarrow> None
               | b # r2 \<Rightarrow>
                   if in_range 0xC2 0xDF a then (if cont b then Some 2 else None)
                   else (case r2 of
                       [] \<Rightarrow> None
                     | c # r3 \<Rightarrow>
                         if in_range 0xE0 0xEF a
                         then (if (if byte a = 0xE0 then in_range 0xA0 0xBF b
                                   else if byte a = 0xED then in_range 0x80 0x9F b else cont b) \<and> cont c
                               then Some 3 else None)
                         else (case r3 of
                             [] \<Rightarrow> None
                           | d # r4 \<Rightarrow>
                               if in_range 0xF0 0xF4 a \<and>
                                  (if byte a = 0xF0 then in_range 0x90 0xBF b
                                   else if byte a = 0xF4 then in_range 0x80 0x8F b else cont b) \<and>
                                  cont c \<and> cont d
                               then Some 4 else None))))"

definition utf8_encode :: "nat \<Rightarrow> string" where
  "utf8_encode n =
     (if n < 0x80 then [char_of n]
      else if n < 0x800 then [char_of (0xC0 + n div 64), char_of (0x80 + n mod 64)]
      else if n < 0x10000
        then [char_of (0xE0 + n div 4096), char_of (0x80 + n div 64 mod 64), char_of (0x80 + n mod 64)]
      else [char_of (0xF0 + n div 262144), char_of (0x80 + n div 4096 mod 64),
            char_of (0x80 + n div 64 mod 64), char_of (0x80 + n mod 64)])"

definition replacement :: string where
  "replacement = utf8_encode 0xFFFD"

section \<open>Strings\<close>

datatype str_item = SByte char | SUnit nat

definition hex_digit :: "char \<Rightarrow> nat option" where
  "hex_digit c =
     (if in_range 48 57 c then Some (byte c - 48)
      else if in_range 97 102 c then Some (byte c - 87)
      else if in_range 65 70 c then Some (byte c - 55) else None)"

definition escape_char :: "char \<Rightarrow> char option" where
  "escape_char c =
     (if byte c = 34 \<or> byte c = 92 \<or> byte c = 47 then Some c
      else if c = CHR ''b'' then Some (char_of (8 :: nat))
      else if c = CHR ''f'' then Some (char_of (12 :: nat))
      else if c = CHR ''n'' then Some (char_of (10 :: nat))
      else if c = CHR ''r'' then Some (char_of (13 :: nat))
      else if c = CHR ''t'' then Some (char_of (9 :: nat)) else None)"

text \<open>The rest of a string literal after its opening quote, up to the closing one.\<close>

fun scan_items :: "string \<Rightarrow> (str_item list \<times> string) option" where
  "scan_items [] = None"
| "scan_items (c # r) =
     (if byte c = 34 then Some ([], r)
      else if byte c = 92 then
        (case r of
           [] \<Rightarrow> None
         | e # r2 \<Rightarrow>
             if e = CHR ''u'' then
               (case r2 of
                  h1 # h2 # h3 # h4 # r3 \<Rightarrow>
                    (case (hex_digit h1, hex_digit h2, hex_digit h3, hex_digit h4) of
                       (Some a, Some b, Some c', Some d) \<Rightarrow>
                         map_option (\<lambda>(is, rest). (SUnit (((a * 16 + b) * 16 + c') * 16 + d) # is, rest))
                           (scan_items r3)
                     | _ \<Rightarrow> None)
                | _ \<Rightarrow> None)
             else (case escape_char e of
                     None \<Rightarrow> None
                   | Some x \<Rightarrow> map_option (\<lambda>(is, rest). (SByte x # is, rest)) (scan_items r2)))
      else if byte c < 32 then None
      else map_option (\<lambda>(is, rest). (SByte c # is, rest)) (scan_items r))"

fun raw_bytes :: "str_item list \<Rightarrow> string" where
  "raw_bytes (SByte c # is) = c # raw_bytes is"
| "raw_bytes _ = []"

definition is_high :: "nat \<Rightarrow> bool" where "is_high n \<longleftrightarrow> 0xD800 \<le> n \<and> n < 0xDC00"
definition is_low :: "nat \<Rightarrow> bool" where "is_low n \<longleftrightarrow> 0xDC00 \<le> n \<and> n < 0xE000"

function unquote_items :: "str_item list \<Rightarrow> string" where
  "unquote_items [] = []"
| "unquote_items (SUnit n # is) =
     (case is of
        SUnit m # is2 \<Rightarrow>
          if is_high n \<and> is_low m
          then utf8_encode (0x10000 + (n - 0xD800) * 1024 + (m - 0xDC00)) @ unquote_items is2
          else (if is_high n \<or> is_low n then replacement else utf8_encode n) @ unquote_items is
      | _ \<Rightarrow> (if is_high n \<or> is_low n then replacement else utf8_encode n) @ unquote_items is)"
| "unquote_items (SByte c # is) =
     (case rune_len (take 4 (raw_bytes (SByte c # is))) of
        None \<Rightarrow> replacement @ unquote_items is
      | Some n \<Rightarrow> take n (raw_bytes (SByte c # is)) @ unquote_items (drop (n - 1) is))"
  by pat_completeness auto
termination by (relation "measure length") auto

section \<open>Tokens\<close>

datatype token =
    TLBrace | TRBrace | TLBrack | TRBrack | TColon | TComma
  | TString string | TNumber string | TTrue | TFalse | TNull

definition json_space :: "char \<Rightarrow> bool" where
  "json_space c \<longleftrightarrow> byte c = 32 \<or> byte c = 9 \<or> byte c = 10 \<or> byte c = 13"

text \<open>The longest number literal at the front.\<close>

definition span_digits :: "string \<Rightarrow> string \<times> string" where
  "span_digits s = (takeWhile is_digit s, dropWhile is_digit s)"

definition scan_int :: "string \<Rightarrow> (string \<times> string) option" where
  "scan_int s =
     (case s of
        [] \<Rightarrow> None
      | c # r \<Rightarrow> if c = CHR ''0'' then Some ([c], r)
                else if is_digit c then Some (span_digits s) else None)"

definition scan_frac :: "string \<Rightarrow> (string \<times> string) option" where
  "scan_frac s =
     (if has_prefix s ''.''
      then (let (ds, r) = span_digits (tl s) in if ds = [] then None else Some (CHR ''.'' # ds, r))
      else Some ([], s))"

definition scan_exp :: "string \<Rightarrow> (string \<times> string) option" where
  "scan_exp s =
     (if has_prefix s ''e'' \<or> has_prefix s ''E''
      then (let r = tl s;
                sg = (if has_prefix r ''+'' \<or> has_prefix r ''-'' then [hd r] else []);
                (ds, r2) = span_digits (drop (length sg) r)
            in if ds = [] then None else Some (hd s # sg @ ds, r2))
      else Some ([], s))"

definition scan_number :: "string \<Rightarrow> (string \<times> string) option" where
  "scan_number s =
     (let sg = (if has_prefix s ''-'' then ''-'' else [])
      in Option.bind (scan_int (drop (length sg) s)) (\<lambda>(i, r1).
         Option.bind (scan_frac r1) (\<lambda>(f, r2).
         Option.bind (scan_exp r2) (\<lambda>(e, r3). Some (sg @ i @ f @ e, r3)))))"

definition scan_token :: "string \<Rightarrow> (token \<times> string) option" where
  "scan_token s =
     (case s of
        [] \<Rightarrow> None
      | c # r \<Rightarrow>
          if c = CHR ''{'' then Some (TLBrace, r)
          else if c = CHR ''}'' then Some (TRBrace, r)
          else if c = CHR ''['' then Some (TLBrack, r)
          else if c = CHR '']'' then Some (TRBrack, r)
          else if c = CHR '':'' then Some (TColon, r)
          else if c = CHR '','' then Some (TComma, r)
          else if byte c = 34 then map_option (\<lambda>(is, rest). (TString (unquote_items is), rest)) (scan_items r)
          else if has_prefix s ''true'' then Some (TTrue, drop 4 s)
          else if has_prefix s ''false'' then Some (TFalse, drop 5 s)
          else if has_prefix s ''null'' then Some (TNull, drop 4 s)
          else map_option (\<lambda>(n, rest). (TNumber n, rest)) (scan_number s))"

lemma scan_items_shorter: "scan_items s = Some (is, r) \<Longrightarrow> length r < length s"
  by (induction s arbitrary: "is" r rule: scan_items.induct)
    (auto split: if_splits list.splits option.splits prod.splits, fastforce+)

lemma span_digits_length: "span_digits s = (d, r) \<Longrightarrow> length r \<le> length s"
  by (auto simp: span_digits_def length_dropWhile_le)

lemma scan_int_shorter: "scan_int s = Some (i, r) \<Longrightarrow> length r < length s"
  using length_dropWhile_le [of is_digit "tl s"]
  by (auto simp: scan_int_def span_digits_def split: list.splits if_splits)

lemma scan_number_shorter:
  assumes "scan_number s = Some (n, r)"
  shows "length r < length s"
proof -
  define sg where "sg = (if has_prefix s ''-'' then ''-'' else [] :: string)"
  from assms obtain i r1 f r2 e where
    i: "scan_int (drop (length sg) s) = Some (i, r1)" and f: "scan_frac r1 = Some (f, r2)"
    and e: "scan_exp r2 = Some (e, r)"
    by (auto simp: scan_number_def Let_def sg_def [symmetric] split: bind_splits)
  have "length r1 < length (drop (length sg) s)" by (rule scan_int_shorter [OF i])
  moreover have "length r2 \<le> length r1"
    using f length_dropWhile_le [of is_digit "tl r1"]
    by (auto simp: scan_frac_def span_digits_def Let_def split: if_splits)
  moreover have "length r \<le> length r2"
    using e length_dropWhile_le [of is_digit "tl r2"] length_dropWhile_le [of is_digit "drop 1 (tl r2)"]
    by (auto simp: scan_exp_def span_digits_def Let_def split: if_splits)
  ultimately show ?thesis by simp
qed

lemma scan_token_shorter: "scan_token s = Some (t, r) \<Longrightarrow> length r < length s"
  by (auto simp: scan_token_def split: list.splits if_splits dest!: scan_items_shorter scan_number_shorter)

function tokens :: "string \<Rightarrow> token list option" where
  "tokens s =
     (case dropWhile json_space s of
        [] \<Rightarrow> Some []
      | c # r \<Rightarrow>
          (case scan_token (c # r) of
             None \<Rightarrow> None
           | Some (t, rest) \<Rightarrow> map_option (\<lambda>ts. t # ts) (tokens rest)))"
  by pat_completeness auto
termination
proof (relation "measure length", goal_cases)
  case (2 s c r a t rest)
  then have "length rest < length (c # r)" using scan_token_shorter by (metis option.inject)
  moreover have "length (c # r) \<le> length s" using 2(1) length_dropWhile_le [of json_space s] by metis
  ultimately show ?case by simp
qed simp

declare tokens.simps [simp del]

section \<open>Values\<close>

datatype json =
    JNull
  | JBool bool
  | JNumber string
  | JString string
  | JArray "json list"
  | JObject "(string \<times> json) list"

text \<open>What the parser expects next, and the open arrays and objects, innermost first.\<close>

datatype parse_state = PValue | PFirstElement | PFirstKey | PKey | PColon | PAfter | PDone json

datatype frame = FArray "json list" | FObject "(string \<times> json) list" string

fun push_value :: "json \<Rightarrow> frame list \<Rightarrow> parse_state \<times> frame list" where
  "push_value v [] = (PDone v, [])"
| "push_value v (FArray vs # st) = (PAfter, FArray (vs @ [v]) # st)"
| "push_value v (FObject kvs k # st) = (PAfter, FObject (kvs @ [(k, v)]) k # st)"

definition open_frame :: "parse_state \<Rightarrow> frame \<Rightarrow> frame list \<Rightarrow> (parse_state \<times> frame list) option" where
  "open_frame p f st = (if 10000 \<le> int (length st) then None else Some (p, f # st))"

definition value_step :: "token \<Rightarrow> frame list \<Rightarrow> (parse_state \<times> frame list) option" where
  "value_step t st =
     (case t of
        TNull \<Rightarrow> Some (push_value JNull st)
      | TTrue \<Rightarrow> Some (push_value (JBool True) st)
      | TFalse \<Rightarrow> Some (push_value (JBool False) st)
      | TNumber n \<Rightarrow> Some (push_value (JNumber n) st)
      | TString s \<Rightarrow> Some (push_value (JString s) st)
      | TLBrack \<Rightarrow> open_frame PFirstElement (FArray []) st
      | TLBrace \<Rightarrow> open_frame PFirstKey (FObject [] []) st
      | _ \<Rightarrow> None)"

definition key_step :: "token \<Rightarrow> frame list \<Rightarrow> (parse_state \<times> frame list) option" where
  "key_step t st =
     (case (t, st) of
        (TString k, FObject kvs _ # st') \<Rightarrow> Some (PColon, FObject kvs k # st')
      | _ \<Rightarrow> None)"

definition parse_step :: "token \<Rightarrow> parse_state \<times> frame list \<Rightarrow> (parse_state \<times> frame list) option" where
  "parse_step t = (\<lambda>(p, st).
     case p of
       PValue \<Rightarrow> value_step t st
     | PFirstElement \<Rightarrow>
         (case (t, st) of
            (TRBrack, FArray vs # st') \<Rightarrow> Some (push_value (JArray vs) st')
          | _ \<Rightarrow> value_step t st)
     | PFirstKey \<Rightarrow>
         (case (t, st) of
            (TRBrace, FObject kvs _ # st') \<Rightarrow> Some (push_value (JObject kvs) st')
          | _ \<Rightarrow> key_step t st)
     | PKey \<Rightarrow> key_step t st
     | PColon \<Rightarrow> if t = TColon then Some (PValue, st) else None
     | PAfter \<Rightarrow>
         (case (t, st) of
            (TComma, FArray vs # st') \<Rightarrow> Some (PValue, st)
          | (TComma, FObject kvs k # st') \<Rightarrow> Some (PKey, st)
          | (TRBrack, FArray vs # st') \<Rightarrow> Some (push_value (JArray vs) st')
          | (TRBrace, FObject kvs k # st') \<Rightarrow> Some (push_value (JObject kvs) st')
          | _ \<Rightarrow> None)
     | PDone v \<Rightarrow> None)"

fun parse_tokens :: "token list \<Rightarrow> parse_state \<times> frame list \<Rightarrow> json option" where
  "parse_tokens [] (p, st) = (case p of PDone v \<Rightarrow> Some v | _ \<Rightarrow> None)"
| "parse_tokens (t # ts) s = Option.bind (parse_step t s) (parse_tokens ts)"

text \<open>A text that is one value, with white space around it.\<close>

definition parse_json :: "string \<Rightarrow> json option" where
  "parse_json s = Option.bind (tokens s) (\<lambda>ts. parse_tokens ts (PValue, []))"

section \<open>Field names\<close>

text \<open>
  The folding under which an object key selects a struct field with an ASCII name: ASCII letters
  by case, and the two other runes that fold to ASCII letters, U+017F (long s) and U+212A (Kelvin).
\<close>

fun fold_name :: "string \<Rightarrow> string" where
  "fold_name (a # b # c # r) =
     (if byte a = 0xE2 \<and> byte b = 0x84 \<and> byte c = 0xAA then CHR ''k'' # fold_name r
      else if byte a = 0xC5 \<and> byte b = 0xBF then CHR ''s'' # fold_name (c # r)
      else lower_char a # fold_name (b # c # r))"
| "fold_name [a, b] =
     (if byte a = 0xC5 \<and> byte b = 0xBF then ''s'' else [lower_char a, lower_char b])"
| "fold_name [a] = [lower_char a]"
| "fold_name [] = []"

section \<open>Facts\<close>

text \<open>Printable ASCII without quote and backslash stands for itself in a string literal.\<close>

definition plain_char :: "char \<Rightarrow> bool" where
  "plain_char c \<longleftrightarrow> 32 \<le> byte c \<and> byte c < 127 \<and> byte c \<noteq> 34 \<and> byte c \<noteq> 92"

lemma scan_items_plain:
  "list_all plain_char s \<Longrightarrow> scan_items (s @ CHR 0x22 # r) = Some (map SByte s, r)"
  by (induction s) (auto simp: plain_char_def byte_def)

lemma unquote_plain: "list_all plain_char s \<Longrightarrow> unquote_items (map SByte s) = s"
  by (induction s) (auto simp: plain_char_def rune_len_def)

lemma tokens_space: "json_space c \<Longrightarrow> tokens (c # s) = tokens s"
  by (subst (1 2) tokens.simps) simp

lemma tokens_step:
  "\<not> json_space c \<Longrightarrow> scan_token (c # s) = Some (t, r) \<Longrightarrow>
     tokens (c # s) = map_option (\<lambda>ts. t # ts) (tokens r)"
  by (subst tokens.simps) simp

lemma tokens_Nil [simp]: "tokens [] = Some []"
  by (simp add: tokens.simps)

lemma tokens_string:
  "list_all plain_char s \<Longrightarrow>
     tokens (CHR 0x22 # s @ CHR 0x22 # r) = map_option (\<lambda>ts. TString s # ts) (tokens r)"
  by (rule tokens_step)
    (simp_all add: json_space_def byte_def scan_token_def scan_items_plain [unfolded byte_def] unquote_plain)

end
