(* ===== verification/GoBind.thy ===== *)
theory GoBind
  imports GoJson GoStrconv
begin

text \<open>
  What \<open>encoding/json\<close> and \<open>time\<close> do with request parameters and bodies: a decoder that reads the
  first JSON value of a stream, the members of an object that a struct field takes its value from,
  and \<open>time.Parse\<close> for RFC 3339 instants and for plain dates.
\<close>

section \<open>The first JSON value of a stream\<close>

text \<open>\<open>json.Decoder.Decode\<close> reads as far as the end of one value and leaves the rest.\<close>

fun finished :: "parse_state \<Rightarrow> json option" where
  "finished (PDone v) = Some v"
| "finished _ = None"

function parse_first :: "string \<Rightarrow> parse_state \<times> frame list \<Rightarrow> json option" where
  "parse_first s st =
     (case finished (fst st) of
        Some v \<Rightarrow> Some v
      | None \<Rightarrow>
         (case dropWhile json_space s of
            [] \<Rightarrow> None
          | c # r \<Rightarrow>
              (case scan_token (c # r) of
                 None \<Rightarrow> None
               | Some (t, rest) \<Rightarrow>
                   (case parse_step t st of
                      None \<Rightarrow> None
                    | Some st' \<Rightarrow> parse_first rest st'))))"
  by pat_completeness auto
termination
proof (relation "measure (\<lambda>(s, st). length s)", goal_cases)
  case (2 s st c r a t rest st')
  then have "length rest < length (c # r)" using scan_token_shorter by (metis option.inject)
  moreover have "length (c # r) \<le> length s" using 2(2) length_dropWhile_le [of json_space s] by metis
  ultimately show ?case by simp
qed simp

declare parse_first.simps [simp del]

definition decode_first :: "string \<Rightarrow> json option" where
  "decode_first s = parse_first s (PValue, [])"

text \<open>
  The value that a string field of a struct has after decoding an object into the zero struct:
  every member whose name folds to the field's name is stored in turn; null leaves the field.
\<close>

fun string_member :: "string \<Rightarrow> (string \<times> json) list \<Rightarrow> string \<Rightarrow> string option" where
  "string_member name [] v = Some v"
| "string_member name ((k, j) # kvs) v =
     (if fold_name k \<noteq> name then string_member name kvs v
      else case j of
        JString s \<Rightarrow> string_member name kvs s
      | JNull \<Rightarrow> string_member name kvs v
      | _ \<Rightarrow> None)"

section \<open>Dates\<close>

definition leap_year :: "int \<Rightarrow> bool" where
  "leap_year y \<longleftrightarrow> y mod 4 = 0 \<and> (y mod 100 \<noteq> 0 \<or> y mod 400 = 0)"

definition month_lengths :: "int \<Rightarrow> int list" where
  "month_lengths y = [31, if leap_year y then 29 else 28, 31, 30, 31, 30, 31, 31, 30, 31, 30, 31]"

text \<open>Days from January 1, year 1 to the first day of a year, and to a date.\<close>

definition days_before_year :: "int \<Rightarrow> int" where
  "days_before_year y = 365 * (y - 1) + (y - 1) div 4 - (y - 1) div 100 + (y - 1) div 400"

definition date_days :: "int \<Rightarrow> int \<Rightarrow> int \<Rightarrow> int" where
  "date_days y m d = days_before_year y + sum_list (take (nat (m - 1)) (month_lengths y)) + (d - 1)"

definition valid_date :: "int \<Rightarrow> int \<Rightarrow> int \<Rightarrow> bool" where
  "valid_date y m d \<longleftrightarrow> 1 \<le> m \<and> m \<le> 12 \<and> 1 \<le> d \<and> d \<le> month_lengths y ! nat (m - 1)"

text \<open>\<open>n\<close> digits, and one or two digits, at the front.\<close>

definition dec_int :: "string \<Rightarrow> int" where
  "dec_int s = foldl (\<lambda>x c. 10 * x + int (digit_val c)) 0 s"

definition digits_n :: "nat \<Rightarrow> string \<Rightarrow> (int \<times> string) option" where
  "digits_n n s = (if length s < n \<or> \<not> list_all is_digit (take n s) then None
                   else Some (dec_int (take n s), drop n s))"

definition digits_1_2 :: "string \<Rightarrow> (int \<times> string) option" where
  "digits_1_2 s = (case digits_n 2 s of Some r \<Rightarrow> Some r | None \<Rightarrow> digits_n 1 s)"

definition expect :: "char \<Rightarrow> string \<Rightarrow> string option" where
  "expect c s = (case s of [] \<Rightarrow> None | x # xs \<Rightarrow> if x = c then Some xs else None)"

definition parse_day :: "string \<Rightarrow> ((int \<times> int \<times> int) \<times> string) option" where
  "parse_day s =
     Option.bind (digits_n 4 s) (\<lambda>(y, s1). Option.bind (expect CHR ''-'' s1) (\<lambda>s2.
     Option.bind (digits_n 2 s2) (\<lambda>(m, s3). Option.bind (expect CHR ''-'' s3) (\<lambda>s4.
     Option.bind (digits_n 2 s4) (\<lambda>(d, s5). Some ((y, m, d), s5))))))"

text \<open>A fraction of a second, cut off after nine digits.\<close>

definition parse_fraction :: "string \<Rightarrow> int \<times> string" where
  "parse_fraction s =
     (case s of
        c # d # r \<Rightarrow>
          if (c = CHR ''.'' \<or> c = CHR '','') \<and> is_digit d
          then (let ds = take 9 (takeWhile is_digit (d # r))
                in (dec_int ds * 10 ^ (9 - length ds), dropWhile is_digit (d # r)))
          else (0, s)
      | _ \<Rightarrow> (0, s))"

text \<open>The offset of the time zone in seconds.\<close>

definition parse_zone :: "string \<Rightarrow> int option" where
  "parse_zone s =
     (if s = ''Z'' then Some 0
      else case s of
        c # r \<Rightarrow>
          Option.bind (digits_n 2 r) (\<lambda>(h, r1). Option.bind (expect CHR '':'' r1) (\<lambda>r2.
          Option.bind (digits_n 2 r2) (\<lambda>(m, r3).
            if r3 \<noteq> [] \<or> 24 < h \<or> 60 < m then None
            else if c = CHR ''+'' then Some (3600 * h + 60 * m)
            else if c = CHR ''-'' then Some (- (3600 * h + 60 * m))
            else None)))
      | [] \<Rightarrow> None)"

definition date_time :: "int \<Rightarrow> int \<Rightarrow> int \<Rightarrow> time" where
  "date_time y m d = date_days y m d * (24 * hour)"

definition parse_rfc3339 :: "string \<Rightarrow> time option" where
  "parse_rfc3339 s =
     Option.bind (parse_day s) (\<lambda>((y, mo, d), s1). Option.bind (expect CHR ''T'' s1) (\<lambda>s2.
     Option.bind (digits_1_2 s2) (\<lambda>(h, s3). Option.bind (expect CHR '':'' s3) (\<lambda>s4.
     Option.bind (digits_n 2 s4) (\<lambda>(mi, s5). Option.bind (expect CHR '':'' s5) (\<lambda>s6.
     Option.bind (digits_n 2 s6) (\<lambda>(sec, s7).
       (let (ns, s8) = parse_fraction s7
        in Option.bind (parse_zone s8) (\<lambda>off.
             if valid_date y mo d \<and> h < 24 \<and> mi < 60 \<and> sec < 60
             then Some (date_time y mo d + h * hour + mi * minute + (sec - off) * second + ns)
             else None)))))))))"

definition parse_date :: "string \<Rightarrow> time option" where
  "parse_date s =
     (case parse_day s of
        Some ((y, m, d), []) \<Rightarrow> if valid_date y m d then Some (date_time y m d) else None
      | _ \<Rightarrow> None)"

text \<open>The calendar agrees with the epoch constant.\<close>

lemma unix_epoch_date: "parse_date ''1970-01-01'' = Some (unix_time 0)"
  by code_simp

end
