(* ===== verification/GoMarshal.thy ===== *)
theory GoMarshal
  imports GoUrl GoBind
begin

text \<open>
  Writing texts for other parties: JSON strings as \<open>encoding/json\<close> quotes them, form bodies as
  \<open>url.Values.Encode\<close> writes them, and the readers of both (\<open>GoJson\<close>, and \<open>url.ParseQuery\<close>
  here).  The facts are the round trips: what the other party reads is what was written.
\<close>

section \<open>Codecs\<close>

text \<open>An encoding with its reader, exact on the admissible values.\<close>

locale codec =
  fixes enc :: "'a \<Rightarrow> 'b" and dec :: "'b \<Rightarrow> 'a option" and ok :: "'a \<Rightarrow> bool"
  assumes dec_enc: "ok x \<Longrightarrow> dec (enc x) = Some x"
begin

lemma enc_inject: "ok x \<Longrightarrow> ok y \<Longrightarrow> enc x = enc y \<longleftrightarrow> x = y"
  by (metis dec_enc option.inject)

end

section \<open>Valid UTF-8\<close>

definition two_bytes :: "char \<Rightarrow> char \<Rightarrow> bool" where
  "two_bytes a b \<longleftrightarrow> in_range 0xC2 0xDF a \<and> in_range 0x80 0xBF b"

definition three_bytes :: "char \<Rightarrow> char \<Rightarrow> char \<Rightarrow> bool" where
  "three_bytes a b c \<longleftrightarrow> in_range 0xE0 0xEF a \<and>
     (if byte a = 0xE0 then in_range 0xA0 0xBF b
      else if byte a = 0xED then in_range 0x80 0x9F b else in_range 0x80 0xBF b) \<and> in_range 0x80 0xBF c"

definition four_bytes :: "char \<Rightarrow> char \<Rightarrow> char \<Rightarrow> char \<Rightarrow> bool" where
  "four_bytes a b c d \<longleftrightarrow> in_range 0xF0 0xF4 a \<and>
     (if byte a = 0xF0 then in_range 0x90 0xBF b
      else if byte a = 0xF4 then in_range 0x80 0x8F b else in_range 0x80 0xBF b) \<and>
     in_range 0x80 0xBF c \<and> in_range 0x80 0xBF d"

lemma rune_len_simps:
  "rune_len [] = None"
  "byte a < 128 \<Longrightarrow> rune_len (a # s) = Some 1"
  "two_bytes a b \<Longrightarrow> rune_len (a # b # s) = Some 2"
  "three_bytes a b c \<Longrightarrow> rune_len (a # b # c # s) = Some 3"
  "four_bytes a b c d \<Longrightarrow> rune_len (a # b # c # d # s) = Some 4"
  by (auto simp: rune_len_def two_bytes_def three_bytes_def four_bytes_def in_range_def split: if_splits)

lemma rune_len_cases:
  assumes "rune_len s = Some n"
  obtains (one) a r where "s = a # r" "byte a < 128" "n = 1"
  | (two) a b r where "s = a # b # r" "two_bytes a b" "n = 2"
  | (three) a b c r where "s = a # b # c # r" "three_bytes a b c" "n = 3"
  | (four) a b c d r where "s = a # b # c # d # r" "four_bytes a b c d" "n = 4"
proof -
  from assms obtain a s1 where s1: "s = a # s1" by (cases s) (auto simp: rune_len_simps)
  show ?thesis
  proof (cases "byte a < 128")
    case True
    then show ?thesis using assms one [OF s1] by (simp add: s1 rune_len_simps)
  next
    case hi: False
    with assms obtain b s2 where s2: "s1 = b # s2" by (cases s1) (auto simp: rune_len_def s1)
    show ?thesis
    proof (cases "in_range 0xC2 0xDF a")
      case True
      with hi assms have "two_bytes a b" by (simp add: rune_len_def s1 s2 two_bytes_def split: if_splits)
      then show ?thesis using assms two [of a b s2] by (simp add: s1 s2 rune_len_simps)
    next
      case no2: False
      with hi assms obtain c s3 where s3: "s2 = c # s3" by (cases s2) (auto simp: rune_len_def s1 s2)
      show ?thesis
      proof (cases "in_range 0xE0 0xEF a")
        case True
        with hi no2 assms have "three_bytes a b c"
          by (auto simp: rune_len_def s1 s2 s3 three_bytes_def Let_def split: if_splits)
        then show ?thesis using assms three [of a b c s3] by (simp add: s1 s2 s3 rune_len_simps)
      next
        case no3: False
        with hi no2 assms obtain d s4 where s4: "s3 = d # s4" by (cases s3) (auto simp: rune_len_def s1 s2 s3)
        with hi no2 no3 assms have "four_bytes a b c d"
          by (auto simp: rune_len_def s1 s2 s3 four_bytes_def Let_def split: if_splits)
        then show ?thesis using assms four [of a b c d s4] by (simp add: s1 s2 s3 s4 rune_len_simps)
      qed
    qed
  qed
qed

lemma rune_len_bounds: "rune_len s = Some n \<Longrightarrow> 1 \<le> n \<and> n \<le> 4 \<and> n \<le> length s"
  by (elim rune_len_cases) simp_all

lemma rune_len_cut: "rune_len s = Some n \<Longrightarrow> rune_len (take n s @ t) = Some n"
  by (elim rune_len_cases) (simp_all add: rune_len_simps)

lemma rune_len_one: "rune_len (c # s) = Some (Suc 0) \<longleftrightarrow> byte c < 128"
  by (auto simp: rune_len_simps elim: rune_len_cases)

function valid_utf8 :: "string \<Rightarrow> bool" where
  "valid_utf8 s =
     (s = [] \<or> (case rune_len s of None \<Rightarrow> False | Some n \<Rightarrow> valid_utf8 (drop n s)))"
  by pat_completeness auto
termination
  by (relation "measure length") (auto dest: rune_len_bounds)

declare valid_utf8.simps [simp del]

lemma valid_utf8_Nil [simp]: "valid_utf8 []"
  by (simp add: valid_utf8.simps)

lemma valid_utf8_append: "valid_utf8 s \<Longrightarrow> valid_utf8 t \<Longrightarrow> valid_utf8 (s @ t)"
proof (induction s rule: valid_utf8.induct)
  case (1 s)
  show ?case
  proof (cases "s = []")
    case False
    with "1.prems"(1) obtain n where n: "rune_len s = Some n" "valid_utf8 (drop n s)"
      by (subst (asm) valid_utf8.simps) (auto split: option.splits)
    have le: "n \<le> length s" using rune_len_bounds [OF n(1)] by simp
    have "rune_len (s @ t) = Some n"
      using rune_len_cut [OF n(1), of "drop n s @ t"] by (simp flip: append_assoc)
    moreover have "valid_utf8 (drop n s @ t)" using "1.IH" [OF n(1)] n(2) "1.prems"(2) by simp
    ultimately show ?thesis using le by (subst valid_utf8.simps) simp
  qed (use 1 in simp)
qed

section \<open>JSON strings\<close>

definition hex_char :: "nat \<Rightarrow> char" where
  "hex_char n = (if n < 10 then char_of (48 + n) else char_of (87 + n))"

definition unicode_escape :: "nat \<Rightarrow> string" where
  "unicode_escape n =
     [CHR 0x5C, CHR ''u'', hex_char (n div 4096 mod 16), hex_char (n div 256 mod 16),
      hex_char (n div 16 mod 16), hex_char (n mod 16)]"

text \<open>The escape of an ASCII byte, \<open>None\<close> where the byte stands for itself.\<close>

definition ascii_escape :: "char \<Rightarrow> string option" where
  "ascii_escape c =
     (if byte c = 34 \<or> byte c = 92 then Some [CHR 0x5C, c]
      else if byte c = 8 then Some [CHR 0x5C, CHR ''b'']
      else if byte c = 12 then Some [CHR 0x5C, CHR ''f'']
      else if byte c = 10 then Some [CHR 0x5C, CHR ''n'']
      else if byte c = 13 then Some [CHR 0x5C, CHR ''r'']
      else if byte c = 9 then Some [CHR 0x5C, CHR ''t'']
      else if byte c < 32 \<or> c \<in> set ''<>&'' then Some (unicode_escape (byte c))
      else None)"

function quote_bytes :: "string \<Rightarrow> string" where
  "quote_bytes [] = []"
| "quote_bytes (c # s) =
     (if byte c < 128
      then (case ascii_escape c of None \<Rightarrow> [c] | Some e \<Rightarrow> e) @ quote_bytes s
      else (case rune_len (c # s) of
              None \<Rightarrow> unicode_escape 0xFFFD @ quote_bytes s
            | Some n \<Rightarrow>
                (let r = take n (c # s)
                 in if r = utf8_encode 0x2028 then unicode_escape 0x2028
                    else if r = utf8_encode 0x2029 then unicode_escape 0x2029 else r)
                @ quote_bytes (drop (n - 1) s)))"
  by pat_completeness auto
termination
  by (relation "measure length") auto

definition json_quote :: "string \<Rightarrow> string" where
  "json_quote s = CHR 0x22 # quote_bytes s @ [CHR 0x22]"

text \<open>One step of the scanner, with what the text then denotes.\<close>

definition reads_as :: "string \<Rightarrow> string \<Rightarrow> bool" where
  "reads_as t s \<longleftrightarrow>
     (\<forall>r. \<exists>is. scan_items (t @ CHR 0x22 # r) = Some (is, r) \<and> unquote_items is = s)"

lemma reads_as_Nil: "reads_as [] []"
  by (simp add: reads_as_def byte_def)

lemma reads_asI:
  assumes t: "reads_as t s"
    and step: "\<And>r is. scan_items (t @ CHR 0x22 # r) = Some (is, r) \<Longrightarrow> unquote_items is = s \<Longrightarrow>
      \<exists>is'. scan_items (t' @ CHR 0x22 # r) = Some (is', r) \<and> unquote_items is' = s'"
  shows "reads_as t' s'"
  using assms unfolding reads_as_def by blast

lemma unquote_ascii: "byte x < 128 \<Longrightarrow> unquote_items (SByte x # is) = x # unquote_items is"
  by (simp add: rune_len_def)

lemma reads_byte:
  assumes t: "reads_as t s" and c: "byte c < 128" "32 \<le> byte c" "byte c \<noteq> 34" "byte c \<noteq> 92"
  shows "reads_as (c # t) (c # s)"
  using t
proof (rule reads_asI)
  fix r "is"
  assume "scan_items (t @ CHR 0x22 # r) = Some (is, r)" "unquote_items is = s"
  with c show "\<exists>is'. scan_items ((c # t) @ CHR 0x22 # r) = Some (is', r) \<and> unquote_items is' = c # s"
    by (intro exI [of _ "SByte c # is"]) (simp add: unquote_ascii del: unquote_items.simps)
qed

lemma reads_short:
  assumes t: "reads_as t s" and e: "escape_char e = Some x" "e \<noteq> CHR ''u''" "byte x < 128"
  shows "reads_as ([CHR 0x5C, e] @ t) (x # s)"
  using t
proof (rule reads_asI)
  fix r "is"
  assume "scan_items (t @ CHR 0x22 # r) = Some (is, r)" "unquote_items is = s"
  with e show "\<exists>is'. scan_items (([CHR 0x5C, e] @ t) @ CHR 0x22 # r) = Some (is', r) \<and> unquote_items is' = x # s"
    by (intro exI [of _ "SByte x # is"]) (simp add: unquote_ascii byte_def del: unquote_items.simps)
qed

lemma hex_digit_hex_char: "n < 16 \<Longrightarrow> hex_digit (hex_char n) = Some n"
  by (auto simp: hex_digit_def hex_char_def in_range_def byte_char_of)

lemma hex_number: "n < 65536 \<Longrightarrow>
  ((n div 4096 mod 16 * 16 + n div 256 mod 16) * 16 + n div 16 mod 16) * 16 + n mod 16 = (n :: nat)"
proof -
  assume n: "n < 65536"
  have "n div 16 = (n div 256) * 16 + n div 16 mod 16"
    using div_mult_mod_eq [of "n div 16" 16] by (simp add: div_mult2_eq [symmetric])
  moreover have "n div 256 = (n div 4096) * 16 + n div 256 mod 16"
    using div_mult_mod_eq [of "n div 256" 16] by (simp add: div_mult2_eq [symmetric])
  moreover have "n div 4096 mod 16 = n div 4096" using n by simp
  moreover have "n div 16 * 16 + n mod 16 = n" by simp
  ultimately show ?thesis by metis
qed

lemma scan_unicode:
  assumes "n < 65536"
  shows "scan_items (unicode_escape n @ w) = map_option (\<lambda>(is, rest). (SUnit n # is, rest)) (scan_items w)"
proof -
  have "scan_items (unicode_escape n @ w) = map_option (\<lambda>(is, rest).
      (SUnit (((n div 4096 mod 16 * 16 + n div 256 mod 16) * 16 + n div 16 mod 16) * 16 + n mod 16) # is, rest))
      (scan_items w)"
    by (simp only: unicode_escape_def append.simps scan_items.simps hex_digit_hex_char) (simp add: byte_def hex_digit_hex_char)
  then show ?thesis unfolding hex_number [OF assms] .
qed

lemma unquote_unit:
  "\<not> is_high n \<Longrightarrow> \<not> is_low n \<Longrightarrow> unquote_items (SUnit n # is) = utf8_encode n @ unquote_items is"
  by (simp split: list.split str_item.split)

lemma reads_unicode:
  assumes t: "reads_as t s" and n: "n < 65536" "\<not> is_high n" "\<not> is_low n"
  shows "reads_as (unicode_escape n @ t) (utf8_encode n @ s)"
  using t
proof (rule reads_asI)
  fix r "is"
  assume "scan_items (t @ CHR 0x22 # r) = Some (is, r)" "unquote_items is = s"
  with n show "\<exists>is'. scan_items ((unicode_escape n @ t) @ CHR 0x22 # r) = Some (is', r) \<and>
      unquote_items is' = utf8_encode n @ s"
    by (intro exI [of _ "SUnit n # is"]) (simp add: scan_unicode unquote_unit del: unquote_items.simps)
qed

lemma raw_bytes_append: "raw_bytes (map SByte w @ is) = w @ raw_bytes is"
  by (induction w) simp_all

lemma rune_len_high: "rune_len s = Some n \<Longrightarrow> 2 \<le> n \<Longrightarrow> \<forall>c \<in> set (take n s). 128 \<le> byte c"
  by (elim rune_len_cases)
    (auto simp: two_bytes_def three_bytes_def four_bytes_def in_range_def split: if_splits)

lemma scan_high: "\<forall>c \<in> set w. 128 \<le> byte c \<Longrightarrow>
    scan_items (w @ v) = map_option (\<lambda>(is, rest). (map SByte w @ is, rest)) (scan_items v)"
proof (induction w)
  case Nil
  show ?case by (cases "scan_items v") simp_all
next
  case (Cons a w)
  then show ?case by (cases "scan_items v") auto
qed

lemma unquote_rune:
  assumes w: "rune_len w = Some (length w)"
  shows "unquote_items (map SByte w @ is) = w @ unquote_items is"
proof -
  from w obtain a w' where a: "w = a # w'" using rune_len_bounds [OF w] by (cases w) auto
  have "take 4 (raw_bytes (map SByte w @ is)) = w @ take (4 - length w) (raw_bytes is)"
    using rune_len_bounds [OF w] by (simp add: raw_bytes_append)
  moreover have "rune_len (w @ t) = Some (length w)" for t
    using rune_len_cut [OF w, of t] by simp
  ultimately have "rune_len (take 4 (raw_bytes (map SByte w @ is))) = Some (length w)" by simp
  then show ?thesis using raw_bytes_append [of w "is"] by (simp add: a)
qed

lemma reads_rune:
  assumes t: "reads_as t s" and w: "rune_len w = Some (length w)" "2 \<le> length w"
  shows "reads_as (w @ t) (w @ s)"
  using t
proof (rule reads_asI)
  fix r "is"
  assume *: "scan_items (t @ CHR 0x22 # r) = Some (is, r)" "unquote_items is = s"
  have "\<forall>c \<in> set w. 128 \<le> byte c" using rune_len_high [OF w] by simp
  with * show "\<exists>is'. scan_items ((w @ t) @ CHR 0x22 # r) = Some (is', r) \<and> unquote_items is' = w @ s"
    by (intro exI [of _ "map SByte w @ is"]) (simp add: scan_high unquote_rune [OF w(1)])
qed

text \<open>The escapes of single bytes.\<close>

lemma reads_ascii:
  assumes t: "reads_as t s" and c: "byte c < 128"
  shows "reads_as ((case ascii_escape c of None \<Rightarrow> [c] | Some e \<Rightarrow> e) @ t) (c # s)"
proof -
  have inj: "byte c = n \<Longrightarrow> c = char_of n" for n by (auto simp: byte_def)
  have esc: "\<lbrakk>escape_char e = Some x; e \<noteq> CHR ''u''; byte x < 128; c = x\<rbrakk> \<Longrightarrow> reads_as ([CHR 0x5C, e] @ t) (c # s)" for e x
    using reads_short [OF t] by blast
  have uni: "reads_as (unicode_escape (byte c) @ t) (c # s)"
  proof -
    have "utf8_encode (byte c) = [c]" using c by (simp add: utf8_encode_def byte_def)
    then show ?thesis using reads_unicode [OF t, of "byte c"] c by (simp add: is_high_def is_low_def)
  qed
  consider "byte c = 34 \<or> byte c = 92" | "byte c = 8" | "byte c = 12" | "byte c = 10" | "byte c = 13" | "byte c = 9"
    | "byte c \<notin> {8, 12, 10, 13, 9, 34, 92}" "byte c < 32 \<or> c \<in> set ''<>&''"
    | "byte c \<notin> {34, 92}" "\<not> (byte c < 32 \<or> c \<in> set ''<>&'')"
    by blast
  then show ?thesis
  proof cases
    case 1
    then have "escape_char c = Some c" "c \<noteq> CHR ''u''" by (auto simp: escape_char_def byte_def)
    then show ?thesis using esc [of c c] c 1 by (auto simp: ascii_escape_def)
  next
    case 2
    then show ?thesis using esc [of "CHR ''b''" c] inj [of 8]
      by (simp add: ascii_escape_def escape_char_def byte_char_of byte_def)
  next
    case 3
    then show ?thesis using esc [of "CHR ''f''" c] inj [of 12]
      by (simp add: ascii_escape_def escape_char_def byte_char_of byte_def)
  next
    case 4
    then show ?thesis using esc [of "CHR ''n''" c] inj [of 10]
      by (simp add: ascii_escape_def escape_char_def byte_char_of byte_def)
  next
    case 5
    then show ?thesis using esc [of "CHR ''r''" c] inj [of 13]
      by (simp add: ascii_escape_def escape_char_def byte_char_of byte_def)
  next
    case 6
    then show ?thesis using esc [of "CHR ''t''" c] inj [of 9]
      by (simp add: ascii_escape_def escape_char_def byte_char_of byte_def)
  next
    case 7
    then have "ascii_escape c = Some (unicode_escape (byte c))" by (auto simp: ascii_escape_def)
    then show ?thesis using uni by simp
  next
    case 8
    then have "ascii_escape c = None" by (auto simp: ascii_escape_def)
    with 8 show ?thesis using reads_byte [OF t c] by simp
  qed
qed

text \<open>
  What a quoted string denotes: the string itself when it is valid UTF-8, else with every invalid
  byte replaced by U+FFFD.
\<close>

function utf8_coerce :: "string \<Rightarrow> string" where
  "utf8_coerce [] = []"
| "utf8_coerce (c # s) =
     (case rune_len (c # s) of
        None \<Rightarrow> replacement @ utf8_coerce s
      | Some n \<Rightarrow> take n (c # s) @ utf8_coerce (drop (n - 1) s))"
  by pat_completeness auto
termination
  by (relation "measure length") auto

lemma drop_rune: "rune_len (c # s) = Some n \<Longrightarrow> drop (n - 1) s = drop n (c # s)"
  using rune_len_bounds [of "c # s" n] by (cases n) auto

lemma utf8_coerce_valid: "valid_utf8 s \<Longrightarrow> utf8_coerce s = s"
proof (induction s rule: utf8_coerce.induct)
  case (2 c s)
  from "2.prems" obtain n where n: "rune_len (c # s) = Some n" "valid_utf8 (drop n (c # s))"
    by (subst (asm) valid_utf8.simps) (auto split: option.splits)
  have d: "drop (n - 1) s = drop n (c # s)" by (rule drop_rune [OF n(1)])
  have "utf8_coerce (drop (n - 1) s) = drop (n - 1) s" using "2.IH"(2) [OF n(1)] n(2) d by simp
  then have "utf8_coerce (c # s) = take n (c # s) @ drop n (c # s)" using n(1) d by simp
  then show ?case by (simp only: append_take_drop_id)
qed simp

lemma quote_bytes_coerce: "reads_as (quote_bytes s) (utf8_coerce s)"
proof (induction s rule: quote_bytes.induct)
  case 1
  show ?case by (simp add: reads_as_Nil)
next
  case (2 c s)
  show ?case
  proof (cases "byte c < 128")
    case True
    then have "rune_len (c # s) = Some 1" by (simp add: rune_len_def)
    then show ?thesis using reads_ascii [OF "2.IH"(1) [OF True] True] True by simp
  next
    case False
    show ?thesis
    proof (cases "rune_len (c # s)")
      case None
      have "reads_as (unicode_escape 0xFFFD @ quote_bytes s) (replacement @ utf8_coerce s)"
        using reads_unicode [OF "2.IH"(2) [OF False None], of "0xFFFD"]
        by (simp add: is_high_def is_low_def replacement_def)
      then show ?thesis using False None by simp
    next
      case (Some n)
      define r where "r = take n (c # s)"
      have n2: "2 \<le> n" "n \<le> Suc (length s)"
        using rune_len_bounds [OF Some] rune_len_one [of c s] Some False
        by (auto simp: numeral_2_eq_2 le_Suc_eq)
      have r: "rune_len r = Some (length r)" "2 \<le> length r"
        using rune_len_cut [OF Some, of "[]"] n2 by (simp_all add: r_def)
      note IH = "2.IH"(3) [OF False Some]
      have "reads_as (quote_bytes (c # s)) (r @ utf8_coerce (drop (n - 1) s))"
        using reads_rune [OF IH r(1,2)] reads_unicode [OF IH, of "0x2028"] reads_unicode [OF IH, of "0x2029"] False Some
        by (simp add: r_def [symmetric] is_high_def is_low_def)
      then show ?thesis using Some by (simp add: r_def)
    qed
  qed
qed

lemma quote_bytes_reads: "valid_utf8 s \<Longrightarrow> reads_as (quote_bytes s) s"
  using quote_bytes_coerce [of s] by (simp add: utf8_coerce_valid)

subsection \<open>The strings of a parsed text\<close>

lemma div_mod_64: "n div (m * 64) = k \<Longrightarrow> n div m mod 64 = n div m - 64 * (k :: nat)"
  using minus_mult_div_eq_mod [of "n div m" 64] by (simp add: div_mult2_eq)

lemma utf8_encode_valid:
  assumes "n < 0x110000" and "\<not> is_high n" and "\<not> is_low n"
  shows "valid_utf8 (utf8_encode n)"
proof -
  have *: "valid_utf8 w" if "rune_len w = Some (length w)" for w
    using that rune_len_bounds [OF that] by (subst valid_utf8.simps) simp
  note simps = utf8_encode_def two_bytes_def three_bytes_def four_bytes_def in_range_def byte_char_of
  consider "n < 0x80" | "0x80 \<le> n" "n < 0x800" | "0x800 \<le> n" "n < 0x10000" | "0x10000 \<le> n" by linarith
  then show ?thesis
  proof cases
    case 1
    then show ?thesis by (intro *) (simp add: simps rune_len_simps)
  next
    case 2
    then have "0xC2 \<le> 0xC0 + n div 64" "0xC0 + n div 64 \<le> 0xDF" "n div 64 < 32" by linarith+
    with 2 show ?thesis by (intro *) (simp add: simps rune_len_simps)
  next
    case 3
    have b: "n div 4096 < 16" using 3 by linarith
    have "32 \<le> n div 64 mod 64" if "n div 4096 = 0"
    proof -
      have "n div 64 mod 64 = n div 64" using that div_mod_64 [of n 64 0] by simp
      then show ?thesis using 3 by linarith
    qed
    moreover have "n div 64 mod 64 < 32" if "n div 4096 = 13"
    proof -
      have "n < 55296" using that assms(2,3) unfolding is_high_def is_low_def by linarith
      moreover have "n div 64 mod 64 = n div 64 - 832" using that div_mod_64 [of n 64 13] by simp
      ultimately show ?thesis by linarith
    qed
    ultimately have "three_bytes (char_of (224 + n div 4096)) (char_of (128 + n div 64 mod 64)) (char_of (128 + n mod 64))"
      using 3 b by (auto simp: simps)
    then show ?thesis using 3 by (intro *) (simp add: utf8_encode_def rune_len_simps)
  next
    case 4
    have b: "n div 262144 \<le> 4" using assms(1) by linarith
    have "16 \<le> n div 4096 mod 64" if "n div 262144 = 0"
    proof -
      have "n div 4096 mod 64 = n div 4096" using that div_mod_64 [of n 4096 0] by simp
      then show ?thesis using 4 by linarith
    qed
    moreover have "n div 4096 mod 64 < 16" if "n div 262144 = 4"
    proof -
      have "n div 4096 mod 64 = n div 4096 - 256" using that div_mod_64 [of n 4096 4] by simp
      then show ?thesis using assms(1) by linarith
    qed
    ultimately have "four_bytes (char_of (240 + n div 262144)) (char_of (128 + n div 4096 mod 64))
        (char_of (128 + n div 64 mod 64)) (char_of (128 + n mod 64))"
      using 4 b by (auto simp: simps)
    then show ?thesis using 4 by (intro *) (simp add: utf8_encode_def rune_len_simps)
  qed
qed

lemma replacement_valid: "valid_utf8 replacement"
  unfolding replacement_def by (rule utf8_encode_valid) (simp_all add: is_high_def is_low_def)

definition unit_ok :: "str_item \<Rightarrow> bool" where
  "unit_ok i \<longleftrightarrow> (case i of SByte c \<Rightarrow> True | SUnit n \<Rightarrow> n < 65536)"

lemma list_all_drop: "list_all P xs \<Longrightarrow> list_all P (drop n xs)"
  by (auto simp: list_all_iff dest: in_set_dropD)

lemma unit_valid: "n < 65536 \<Longrightarrow> valid_utf8 (if is_high n \<or> is_low n then replacement else utf8_encode n)"
  by (auto intro!: replacement_valid utf8_encode_valid)

lemma pair_valid:
  "is_high n \<Longrightarrow> is_low m \<Longrightarrow> valid_utf8 (utf8_encode (0x10000 + (n - 0xD800) * 1024 + (m - 0xDC00)))"
  by (rule utf8_encode_valid) (auto simp: is_high_def is_low_def)

lemma unquote_valid: "list_all unit_ok is \<Longrightarrow> valid_utf8 (unquote_items is)"
proof (induction "is" rule: unquote_items.induct)
  case (2 n "is")
  have n: "n < 65536" and rest: "list_all unit_ok is" using "2.prems" by (auto simp: unit_ok_def [of "SUnit n"])
  note app = valid_utf8_append [OF unit_valid [OF n]]
  show ?case
  proof (cases "is")
    case Nil
    then show ?thesis using unit_valid [OF n] by simp
  next
    case (Cons i is2)
    show ?thesis
    proof (cases i)
      case (SByte c)
      then show ?thesis using app 2 rest Cons by simp
    next
      case (SUnit m)
      show ?thesis
      proof (cases "is_high n \<and> is_low m")
        case True
        then show ?thesis using 2 rest Cons SUnit pair_valid [of n m] by (auto intro!: valid_utf8_append)
      next
        case False
        then have "unquote_items (SUnit n # is) =
            (if is_high n \<or> is_low n then replacement else utf8_encode n) @ unquote_items is"
          using Cons SUnit by auto
        moreover have "valid_utf8 (unquote_items is)" using "2.IH" Cons SUnit False rest by blast
        ultimately show ?thesis using app by simp
      qed
    qed
  qed
next
  case (3 c "is")
  show ?case
  proof (cases "rune_len (take 4 (raw_bytes (SByte c # is)))")
    case None
    then show ?thesis using 3 replacement_valid by (simp add: valid_utf8_append)
  next
    case (Some n)
    define w where "w = take n (raw_bytes (SByte c # is))"
    have n: "1 \<le> n" "n \<le> 4" "n \<le> length (raw_bytes (SByte c # is))" using rune_len_bounds [OF Some] by auto
    then have w: "rune_len w = Some (length w)"
      using rune_len_cut [OF Some, of "[]"] by (simp only: take_take w_def append_Nil2) (simp add: min_absorb1)
    then have "valid_utf8 w" using rune_len_bounds [OF w] by (subst valid_utf8.simps) simp
    moreover have "valid_utf8 (unquote_items (drop (n - 1) is))"
      using "3.IH"(2) [OF Some] "3.prems" by (simp add: list_all_drop unit_ok_def)
    ultimately show ?thesis using Some by (simp add: w_def valid_utf8_append)
  qed
qed simp

lemma hex_digit_bound: "hex_digit c = Some n \<Longrightarrow> n < 16"
  by (auto simp: hex_digit_def in_range_def split: if_splits)

lemma hex_value_bound: "a < 16 \<Longrightarrow> b < 16 \<Longrightarrow> c < 16 \<Longrightarrow> d < 16 \<Longrightarrow> ((a * 16 + b) * 16 + c) * 16 + d < (65536 :: nat)"
proof -
  assume "a < 16" "b < 16" "c < 16" "d < 16"
  then have "a \<le> 15" "b \<le> 15" "c \<le> 15" "d \<le> 15" by simp_all
  then have "a * 4096 + b * 256 + c * 16 + d < 65536" by linarith
  then show ?thesis by (simp add: algebra_simps)
qed

lemma byte_eq_iff: "byte c = byte d \<longleftrightarrow> c = d"
  by (simp add: byte_def)

lemma scan_unicode_cases:
  assumes "scan_items (CHR 0x5C # CHR ''u'' # s) = Some (is, r)"
  obtains n is' s' where "is = SUnit n # is'" "n < 65536" "scan_items s' = Some (is', r)" "length s' < length s"
proof -
  from assms obtain h1 h2 h3 h4 s' where s: "s = h1 # h2 # h3 # h4 # s'"
    by (auto simp: byte_def split: list.splits)
  from assms obtain a b c d where h: "hex_digit h1 = Some a" "hex_digit h2 = Some b" "hex_digit h3 = Some c" "hex_digit h4 = Some d"
    by (simp add: s byte_def split: option.splits)
  from assms obtain is' where "scan_items s' = Some (is', r)" "is = SUnit (((a * 16 + b) * 16 + c) * 16 + d) # is'"
    by (auto simp: s h byte_def)
  then show ?thesis
    using that [of "((a * 16 + b) * 16 + c) * 16 + d"] hex_value_bound h [THEN hex_digit_bound] by (simp add: s)
qed

lemma scan_items_step:
  assumes "scan_items (c # s) = Some (is, r)"
  shows "is = [] \<or> (\<exists>i is' s'. is = i # is' \<and> unit_ok i \<and> scan_items s' = Some (is', r) \<and> length s' \<le> length s)"
proof (cases "byte c = 92")
  case True
  then have "byte c = byte (CHR 0x5C)" by (simp add: byte_def)
  then have c: "c = CHR 0x5C" unfolding byte_eq_iff .
  from assms c obtain e s2 where s: "s = e # s2" by (cases s) (simp_all add: byte_def)
  show ?thesis
  proof (cases "e = CHR ''u''")
    case True
    show ?thesis using assms unfolding c s True by (rule scan_unicode_cases) (auto simp: unit_ok_def)
  next
    case False
    with assms obtain x where "escape_char e = Some x"
      "map_option (\<lambda>(is, rest). (SByte x # is, rest)) (scan_items s2) = Some (is, r)"
      by (auto simp: c s byte_def split: option.splits)
    then obtain is' where "scan_items s2 = Some (is', r)" "is = SByte x # is'" by auto
    moreover have "unit_ok (SByte x)" "length s2 \<le> length s" by (simp_all add: unit_ok_def s)
    ultimately show ?thesis by blast
  qed
next
  case False
  then show ?thesis using assms by (auto simp: unit_ok_def split: if_splits)
qed

lemma scan_items_units: "scan_items s = Some (is, r) \<Longrightarrow> list_all unit_ok is"
proof (induction "length s" arbitrary: s "is" rule: less_induct)
  case less
  show ?case
  proof (cases s)
    case (Cons c s1)
    with less.prems have "scan_items (c # s1) = Some (is, r)" by simp
    from scan_items_step [OF this] show ?thesis
    proof (elim disjE exE conjE)
      fix i is' s'
      assume "is = i # is'" "unit_ok i" "scan_items s' = Some (is', r)" "length s' \<le> length s1"
      with less.hyps [of s' is'] Cons show ?thesis by simp
    qed simp
  qed (use less.prems in simp)
qed

text \<open>Every string inside a parsed value is valid UTF-8.\<close>

fun json_valid :: "json \<Rightarrow> bool" where
  "json_valid (JString s) = valid_utf8 s"
| "json_valid (JArray vs) = list_all json_valid vs"
| "json_valid (JObject kvs) = list_all (\<lambda>kv. json_valid (snd kv)) kvs"
| "json_valid _ = True"

definition token_valid :: "token \<Rightarrow> bool" where
  "token_valid t \<longleftrightarrow> (case t of TString s \<Rightarrow> valid_utf8 s | _ \<Rightarrow> True)"

fun frame_valid :: "frame \<Rightarrow> bool" where
  "frame_valid (FArray vs) = list_all json_valid vs"
| "frame_valid (FObject kvs k) = list_all (\<lambda>kv. json_valid (snd kv)) kvs"

definition state_valid :: "parse_state \<times> frame list \<Rightarrow> bool" where
  "state_valid = (\<lambda>(p, st). list_all frame_valid st \<and> (case p of PDone v \<Rightarrow> json_valid v | _ \<Rightarrow> True))"

lemma state_valid_simps [simp]:
  "state_valid (PValue, st) = list_all frame_valid st" "state_valid (PFirstElement, st) = list_all frame_valid st"
  "state_valid (PFirstKey, st) = list_all frame_valid st" "state_valid (PKey, st) = list_all frame_valid st"
  "state_valid (PColon, st) = list_all frame_valid st" "state_valid (PAfter, st) = list_all frame_valid st"
  "state_valid (PDone v, st) \<longleftrightarrow> list_all frame_valid st \<and> json_valid v"
  by (auto simp: state_valid_def)

lemma state_valid_frames: "state_valid (p, st) \<Longrightarrow> list_all frame_valid st"
  by (simp add: state_valid_def)

lemma scan_token_valid: "scan_token s = Some (t, r) \<Longrightarrow> token_valid t"
  by (auto simp: scan_token_def token_valid_def split: list.splits if_splits
      dest!: scan_items_units unquote_valid)

lemma tokens_valid: "tokens s = Some ts \<Longrightarrow> list_all token_valid ts"
proof (induction s arbitrary: ts rule: tokens.induct)
  case (1 s)
  show ?case
  proof (cases "dropWhile json_space s")
    case Nil
    with "1.prems" show ?thesis by (simp add: tokens.simps [of s])
  next
    case (Cons c r)
    with "1.prems" obtain t rest where t: "scan_token (c # r) = Some (t, rest)"
      by (auto simp: tokens.simps [of s] split: option.splits)
    with "1.prems" Cons obtain ts' where "tokens rest = Some ts'" "ts = t # ts'"
      by (auto simp: tokens.simps [of s])
    with "1.IH" [OF Cons t refl] scan_token_valid [OF t] show ?thesis by simp
  qed
qed

lemma push_value_valid: "json_valid v \<Longrightarrow> list_all frame_valid st \<Longrightarrow> state_valid (push_value v st)"
  by (cases "(v, st)" rule: push_value.cases) auto

lemma value_step_valid:
  "value_step t st = Some s' \<Longrightarrow> token_valid t \<Longrightarrow> list_all frame_valid st \<Longrightarrow> state_valid s'"
  by (cases t) (auto simp: value_step_def open_frame_def token_valid_def push_value_valid
      split: if_splits)

lemma key_step_valid:
  "key_step t st = Some s' \<Longrightarrow> list_all frame_valid st \<Longrightarrow> state_valid s'"
  by (auto simp: key_step_def split: token.splits list.splits frame.splits)

lemma parse_step_valid:
  assumes "parse_step t (p, st) = Some s'" and t: "token_valid t" and st: "list_all frame_valid st"
  shows "state_valid s'"
proof (cases p)
  case PFirstElement
  with assms show ?thesis
    by (auto simp: parse_step_def push_value_valid dest: value_step_valid split: token.splits list.splits frame.splits)
next
  case PFirstKey
  with assms show ?thesis
    by (auto simp: parse_step_def push_value_valid dest: key_step_valid split: token.splits list.splits frame.splits)
next
  case PAfter
  with assms show ?thesis
    by (auto simp: parse_step_def push_value_valid
        split: token.splits list.splits frame.splits)
qed (use assms in \<open>auto simp: parse_step_def dest: value_step_valid key_step_valid
      split: if_splits\<close>)

lemma parse_tokens_valid:
  "parse_tokens ts s = Some v \<Longrightarrow> list_all token_valid ts \<Longrightarrow> state_valid s \<Longrightarrow> json_valid v"
proof (induction ts s arbitrary: v rule: parse_tokens.induct)
  case (1 p st)
  then show ?case by (cases p) auto
next
  case (2 t ts s)
  from "2.prems" obtain s' where s': "parse_step t s = Some s'" "parse_tokens ts s' = Some v"
    by (auto split: bind_splits)
  obtain p st where s: "s = (p, st)" by (cases s)
  have "state_valid s'"
    using parse_step_valid [of t p st s'] s' "2.prems" s state_valid_frames [of p st] by simp
  with "2.IH" [of s' v] s' "2.prems" show ?case by simp
qed

lemma parse_json_valid: "parse_json s = Some v \<Longrightarrow> json_valid v"
  unfolding parse_json_def
  by (auto split: bind_splits intro: parse_tokens_valid tokens_valid)

lemma string_member_valid:
  "string_member name kvs v = Some s \<Longrightarrow> list_all (\<lambda>kv. json_valid (snd kv)) kvs \<Longrightarrow> valid_utf8 v \<Longrightarrow> valid_utf8 s"
  by (induction name kvs v rule: string_member.induct) (auto split: if_splits json.splits)

section \<open>JSON objects\<close>

text \<open>A text that denotes a value made of one token.\<close>

definition denotes :: "string \<Rightarrow> json \<Rightarrow> bool" where
  "denotes t v \<longleftrightarrow> (\<exists>tok. (\<forall>r. tokens (t @ r) = map_option (\<lambda>ts. tok # ts) (tokens r)) \<and>
     (\<forall>st. value_step tok st = Some (push_value v st)))"

definition json_bool :: "bool \<Rightarrow> string" where
  "json_bool b = (if b then ''true'' else ''false'')"

definition json_member :: "string \<times> string \<Rightarrow> string" where
  "json_member kt = json_quote (fst kt) @ '':'' @ snd kt"

definition json_object :: "(string \<times> string) list \<Rightarrow> string" where
  "json_object kts = ''{'' @ join '','' (map json_member kts) @ ''}''"

lemma tokens_quote: "valid_utf8 s \<Longrightarrow> tokens (json_quote s @ r) = map_option (\<lambda>ts. TString s # ts) (tokens r)"
proof -
  assume "valid_utf8 s"
  from quote_bytes_reads [OF this] obtain "is" where
    "scan_items (quote_bytes s @ CHR 0x22 # r) = Some (is, r)" "unquote_items is = s"
    unfolding reads_as_def by blast
  then show ?thesis
    by (simp add: json_quote_def) (rule tokens_step, simp_all add: json_space_def byte_def scan_token_def)
qed

lemma denotes_quote: "valid_utf8 s \<Longrightarrow> denotes (json_quote s) (JString s)"
  unfolding denotes_def by (intro exI [of _ "TString s"]) (simp add: tokens_quote value_step_def)

lemma denotes_bool: "denotes (json_bool b) (JBool b)"
  unfolding denotes_def json_bool_def
  by (intro exI [of _ "if b then TTrue else TFalse"])
    (auto simp: value_step_def json_space_def byte_def scan_token_def has_prefix_def intro!: tokens_step)

lemma tokens_punct:
  "tokens (CHR ''{'' # r) = map_option (\<lambda>ts. TLBrace # ts) (tokens r)"
  "tokens (CHR ''}'' # r) = map_option (\<lambda>ts. TRBrace # ts) (tokens r)"
  "tokens (CHR '':'' # r) = map_option (\<lambda>ts. TColon # ts) (tokens r)"
  "tokens (CHR '','' # r) = map_option (\<lambda>ts. TComma # ts) (tokens r)"
  by (rule tokens_step; simp add: json_space_def byte_def scan_token_def)+

text \<open>The members that a list of pairs of names and texts denotes.\<close>

definition members :: "(string \<times> string) list \<Rightarrow> (string \<times> json) list \<Rightarrow> bool" where
  "members kts kvs \<longleftrightarrow>
     list_all2 (\<lambda>(k, t) (j, v). j = k \<and> valid_utf8 k \<and> denotes t v) kts kvs"

lemma member_tokens:
  assumes "valid_utf8 k" and "denotes t v"
  obtains tok where "\<And>r. tokens (json_member (k, t) @ r) = map_option (\<lambda>ts. TString k # TColon # tok # ts) (tokens r)"
    and "\<And>st. value_step tok st = Some (push_value v st)"
proof -
  from assms(2) obtain tok where tok: "\<And>r. tokens (t @ r) = map_option (\<lambda>ts. tok # ts) (tokens r)"
    "\<And>st. value_step tok st = Some (push_value v st)" unfolding denotes_def by blast
  have "tokens (json_member (k, t) @ r) = map_option (\<lambda>ts. TString k # TColon # tok # ts) (tokens r)" for r
    using assms(1) by (cases "tokens r") (simp_all add: json_member_def tokens_quote tokens_punct tok)
  with tok(2) that show thesis by blast
qed

lemma parse_members:
  "members kts kvs \<Longrightarrow> kts \<noteq> [] \<Longrightarrow>
     \<exists>ts. tokens (join '','' (map json_member kts) @ ''}'') = Some ts \<and> (\<exists>k ts'. ts = TString k # ts') \<and>
       (\<forall>kvs0 x st. parse_tokens ts (PKey, FObject kvs0 x # st) =
          parse_tokens [] (push_value (JObject (kvs0 @ kvs)) st))"
proof (induction kts arbitrary: kvs rule: induct_list012)
  case (2 kt)
  obtain k t where kt: "kt = (k, t)" by (cases kt)
  with "2.prems"(1) obtain v where v: "kvs = [(k, v)]" "valid_utf8 k" "denotes t v"
    by (auto simp: members_def list_all2_Cons1)
  from member_tokens [OF v(2,3)] obtain tok where tok:
    "\<And>r. tokens (json_member (k, t) @ r) = map_option (\<lambda>ts. TString k # TColon # tok # ts) (tokens r)"
    "\<And>st. value_step tok st = Some (push_value v st)" by blast
  then show ?case by (simp add: kt v tokens_punct parse_step_def key_step_def)
next
  case (3 kt kt2 kts)
  obtain k t where kt: "kt = (k, t)" by (cases kt)
  with "3.prems"(1) obtain v kvs' where v: "kvs = (k, v) # kvs'" "valid_utf8 k" "denotes t v" "members (kt2 # kts) kvs'"
    by (auto simp: members_def list_all2_Cons1)
  from member_tokens [OF v(2,3)] obtain tok where tok:
    "\<And>r. tokens (json_member (k, t) @ r) = map_option (\<lambda>ts. TString k # TColon # tok # ts) (tokens r)"
    "\<And>st. value_step tok st = Some (push_value v st)" by blast
  from "3.IH"(2) [OF v(4)] obtain ts where ts:
    "tokens (join '','' (map json_member (kt2 # kts)) @ ''}'') = Some ts"
    "\<forall>kvs0 x st. parse_tokens ts (PKey, FObject kvs0 x # st) = parse_tokens [] (push_value (JObject (kvs0 @ kvs')) st)"
    by auto
  then show ?case
    by (simp add: kt v tok tokens_punct parse_step_def key_step_def)
qed simp

lemma parse_json_object:
  assumes "members kts kvs" and "kts \<noteq> []"
  shows "parse_json (json_object kts) = Some (JObject kvs)"
proof -
  from parse_members [OF assms] obtain ts k ts' where ts:
    "tokens (join '','' (map json_member kts) @ ''}'') = Some ts" "ts = TString k # ts'"
    "\<And>kvs0 x st. parse_tokens ts (PKey, FObject kvs0 x # st) = parse_tokens [] (push_value (JObject (kvs0 @ kvs)) st)"
    by blast
  have "parse_tokens ts (PFirstKey, [FObject [] []]) = parse_tokens ts (PKey, [FObject [] []])"
    by (simp add: ts(2) parse_step_def)
  then show ?thesis
    using ts(1,3) by (simp add: parse_json_def json_object_def tokens_punct parse_step_def value_step_def open_frame_def)
qed

section \<open>Form bodies\<close>

text \<open>\<open>url.QueryEscape\<close> and its inverse.\<close>

definition upper_hex :: "nat \<Rightarrow> char" where
  "upper_hex n = (if n < 10 then char_of (48 + n) else char_of (55 + n))"

definition query_plain :: "char \<Rightarrow> bool" where
  "query_plain c \<longleftrightarrow> is_alnum c \<or> c \<in> set ''-_.~''"

definition query_escape_char :: "char \<Rightarrow> string" where
  "query_escape_char c =
     (if query_plain c then [c]
      else if c = CHR '' '' then ''+''
      else [CHR ''%'', upper_hex (byte c div 16), upper_hex (byte c mod 16)])"

definition query_escape :: "string \<Rightarrow> string" where
  "query_escape s = concat (map query_escape_char s)"

fun query_unescape :: "string \<Rightarrow> string option" where
  "query_unescape [] = Some []"
| "query_unescape (c # s) =
     (if c = CHR ''%'' then
        (case s of
           a # b # r \<Rightarrow>
             if is_hex a \<and> is_hex b
             then map_option (\<lambda>t. char_of (16 * unhex a + unhex b) # t) (query_unescape r)
             else None
         | _ \<Rightarrow> None)
      else map_option (\<lambda>t. (if c = CHR ''+'' then CHR '' '' else c) # t) (query_unescape s))"

text \<open>\<open>url.Values\<close> with one value per key; \<open>Encode\<close> writes the keys in byte order.\<close>

type_synonym form = "(string \<times> string) list"

fun string_less :: "string \<Rightarrow> string \<Rightarrow> bool" where
  "string_less s [] = False"
| "string_less [] (d # t) = True"
| "string_less (c # s) (d # t) = (byte c < byte d \<or> c = d \<and> string_less s t)"

fun insert_key :: "string \<times> string \<Rightarrow> form \<Rightarrow> form" where
  "insert_key kv [] = [kv]"
| "insert_key kv (x # xs) = (if string_less (fst x) (fst kv) then x # insert_key kv xs else kv # x # xs)"

definition sort_keys :: "form \<Rightarrow> form" where
  "sort_keys f = foldr insert_key f []"

definition form_pair :: "string \<times> string \<Rightarrow> string" where
  "form_pair kv = query_escape (fst kv) @ ''='' @ query_escape (snd kv)"

definition form_encode :: "form \<Rightarrow> string" where
  "form_encode f = join ''&'' (map form_pair (sort_keys f))"

text \<open>\<open>url.ParseQuery\<close>: the pairs in order; \<open>None\<close> where it reports an error.\<close>

definition parse_pair :: "string \<Rightarrow> (string \<times> string) option" where
  "parse_pair p =
     (if CHR '';'' \<in> set p then None
      else let (k, v) = cut_or_all CHR ''='' p
           in Option.bind (query_unescape k) (\<lambda>k'. map_option (\<lambda>v'. (k', v')) (query_unescape v)))"

fun parse_pairs :: "string list \<Rightarrow> form option" where
  "parse_pairs [] = Some []"
| "parse_pairs (p # ps) =
     (if p = [] then parse_pairs ps
      else Option.bind (parse_pair p) (\<lambda>kv. map_option (\<lambda>kvs. kv # kvs) (parse_pairs ps)))"

definition parse_query :: "string \<Rightarrow> form option" where
  "parse_query s = parse_pairs (split_on CHR ''&'' s)"

subsection \<open>Round trip\<close>

lemma upper_hex: "n < 16 \<Longrightarrow> is_hex (upper_hex n) \<and> unhex (upper_hex n) = n"
  by (auto simp: upper_hex_def is_hex_def unhex_def is_digit_def byte_char_of)

lemma byte_bound: "byte c < 256"
  by (simp add: byte_def)

lemma char_of_byte: "char_of (byte c) = c"
  by (simp add: byte_def)

definition escape_safe :: "char \<Rightarrow> bool" where
  "escape_safe c \<longleftrightarrow> c \<notin> set ''&=;''"

lemma query_plain_safe: "query_plain c \<Longrightarrow> escape_safe c \<and> c \<noteq> CHR ''%'' \<and> c \<noteq> CHR ''+''"
  by (auto simp: query_plain_def escape_safe_def is_alnum_def is_letter_def is_digit_def byte_def)

lemma hex_safe: "n < 16 \<Longrightarrow> escape_safe (upper_hex n)"
  using upper_hex [of n] by (auto simp: escape_safe_def is_hex_def is_digit_def byte_def)

lemma query_escape_safe: "list_all escape_safe (query_escape s)"
proof (induction s)
  case (Cons c s)
  have "list_all escape_safe (query_escape_char c)"
    using query_plain_safe [of c] hex_safe byte_bound [of c]
    by (auto simp: query_escape_char_def escape_safe_def less_mult_imp_div_less)
  with Cons show ?case by (simp add: query_escape_def)
qed (simp add: query_escape_def)

lemma unescape_escape_char:
  "query_unescape (query_escape_char c @ t) = map_option (\<lambda>u. c # u) (query_unescape t)"
proof -
  have "byte c div 16 < 16" using byte_bound [of c] by linarith
  moreover have "16 * (byte c div 16) + byte c mod 16 = byte c" by simp
  ultimately show ?thesis
    using query_plain_safe [of c] upper_hex [of "byte c div 16"] upper_hex [of "byte c mod 16"]
    by (auto simp: query_escape_char_def char_of_byte)
qed

lemma query_unescape_escape: "query_unescape (query_escape s) = Some s"
  by (induction s) (simp_all add: query_escape_def unescape_escape_char)

interpretation query_codec: codec query_escape query_unescape "\<lambda>s. True"
  by unfold_locales (simp add: query_unescape_escape)

interpretation json_codec: codec json_quote "\<lambda>t. Option.bind (parse_json t) (\<lambda>v. case v of JString s \<Rightarrow> Some s | _ \<Rightarrow> None)" valid_utf8
proof unfold_locales
  fix s :: string
  assume "valid_utf8 s"
  from tokens_quote [OF this, of "[]"]
  show "Option.bind (parse_json (json_quote s)) (\<lambda>v. case v of JString s \<Rightarrow> Some s | _ \<Rightarrow> None) = Some s"
    by (simp add: parse_json_def parse_step_def value_step_def)
qed

lemma parse_form_pair: "parse_pair (form_pair kv) = Some kv"
proof -
  have k: "CHR ''='' \<notin> set (query_escape (fst kv))" and s: "CHR '';'' \<notin> set (form_pair kv)"
    using query_escape_safe [of "fst kv"] query_escape_safe [of "snd kv"]
    by (auto simp: list_all_iff escape_safe_def form_pair_def)
  have "cut CHR ''='' (form_pair kv) = Some (query_escape (fst kv), query_escape (snd kv))"
    using k by (simp add: cut_Some_iff form_pair_def)
  with s show ?thesis by (simp add: parse_pair_def cut_or_all_def query_unescape_escape)
qed

lemma parse_query_encode: "f \<noteq> [] \<Longrightarrow> parse_query (form_encode f) = Some (sort_keys f)"
proof -
  assume f: "f \<noteq> []"
  have "insert_key kv g \<noteq> []" for kv g by (cases g) simp_all
  with f have ne: "sort_keys f \<noteq> []" by (cases f) (simp_all add: sort_keys_def)
  have "list_all (\<lambda>p. CHR ''&'' \<notin> set p) (map form_pair g)" for g
    using query_escape_safe by (auto simp: list_all_iff escape_safe_def form_pair_def)
  then have "split_on CHR ''&'' (form_encode f) = map form_pair (sort_keys f)"
    unfolding form_encode_def using ne by (intro split_on_join) simp_all
  moreover have "parse_pairs (map form_pair g) = Some g" for g
    by (induction g) (simp_all add: parse_form_pair, simp add: form_pair_def)
  ultimately show ?thesis by (simp add: parse_query_def)
qed

end
