(* ===== verification/AuditRepo.thy ===== *)
theory AuditRepo
  imports AuditEvent GoMarshal "HOL-Library.List_Lexorder"
begin

text \<open>
  The write side of the audit repository (\<open>internal/audit/storage/bunrepo/repository.go\<close> and
  \<open>models.go\<close>).  The two tables are lists of rows in insertion order; the SQL statements that
  the code builds act on them with their documented meaning (\<open>ON CONFLICT (id) DO NOTHING\<close>,
  \<open>ON CONFLICT ... DO UPDATE SET count = count + excluded.count\<close>, \<open>DELETE ... WHERE\<close>).  Every
  transaction asks the environment for its outcome: it commits, it is rolled back with an
  error, or it commits and the acknowledgement is lost, so that the caller sees an error
  although the rows are stored.  PostgreSQL and MySQL/MariaDB (in its strict default mode)
  refuse a value that is longer than its \<open>VARCHAR(n)\<close> column; SQLite does not enforce lengths.
  A text column is kept byte by byte here; what a driver does to a text that is not valid UTF-8 or
  has a NUL byte is not modelled.
\<close>

section \<open>Dialects\<close>

datatype dialectName = DialectSQLite | DialectPostgres | DialectMySQL

definition normalizeStorageType :: "string \<Rightarrow> dialectName option" where
  "normalizeStorageType value =
     (let v = to_lower (trim_space value)
      in if v = [] \<or> v = ''sqlite'' then Some DialectSQLite
         else if v = ''postgres'' \<or> v = ''postgresql'' then Some DialectPostgres
         else if v = ''mysql'' \<or> v = ''mariadb'' then Some DialectMySQL
         else None)"

definition SupportsReturning :: "dialectName \<Rightarrow> bool" where
  "SupportsReturning d \<longleftrightarrow> d = DialectPostgres \<or> d = DialectSQLite"

text \<open>The number of characters of a UTF-8 text: its bytes that are no continuation bytes.\<close>

definition utf8_length :: "string \<Rightarrow> nat" where
  "utf8_length s = length (filter (\<lambda>c. \<not> (128 \<le> byte c \<and> byte c < 192)) s)"

section \<open>Rows\<close>

text \<open>
  \<open>auditEventModel\<close>.  The column \<open>metadata_json\<close> is the JSON text of the metadata; it is
  represented by the members of that text in their order, each string as the text denotes it,
  \<open>None\<close> for the empty text.
\<close>

record event_row =
  er_Seq :: int
  er_ID :: string
  er_Timestamp :: time
  er_Actor :: string
  er_ActorSource :: string
  er_Action :: string
  er_Method :: string
  er_Path :: string
  er_Endpoint :: string
  er_StatusCode :: int
  er_Result :: string
  er_RemoteAddr :: string
  er_UserAgent :: string
  er_RequestID :: string
  er_DurationMS :: int
  er_ErrorCode :: string
  er_Message :: string
  er_MetadataJSON :: "metadata option"

text \<open>\<open>metricRollupModel\<close>; \<open>bucket_size\<close> is in seconds.  All columns but the count are the key.\<close>

record rollup_key =
  rk_BucketStart :: time
  rk_BucketSize :: int
  rk_Endpoint :: string
  rk_Method :: string
  rk_Action :: string
  rk_Result :: string
  rk_StatusClass :: string
  rk_StatusCode :: int

record rollup_row =
  rr_key :: rollup_key
  rr_Count :: int

datatype audit_error =
    StorageError
  | MarshalMetadataError
  | InvalidCursor
  | InvalidCursorEncoding
  | InvalidCursorPayload
  | RecorderClosed
  | ContextDone

section \<open>Conversions\<close>

text \<open>
  \<open>json.Marshal\<close> refuses NaN and infinities.  It writes the members sorted by their keys, and each
  key and string with invalid UTF-8 replaced (\<open>quote_bytes_coerce\<close>).  \<open>json.Unmarshal\<close> reads every
  number as the nearest float64, and of members with the same key it keeps the last.  A \<open>Fin q\<close> is a
  float64 value, whose shortest text reads back as itself.  After \<open>SafeMetadata\<close> no other kind of
  value is left.
\<close>

fun json_encodable :: "meta_value \<Rightarrow> bool" where
  "json_encodable (MFloat64 (Fin q)) = True"
| "json_encodable (MFloat64 _) = False"
| "json_encodable _ = True"

fun json_text_value :: "meta_value \<Rightarrow> meta_value" where
  "json_text_value (MString s) = MString (utf8_coerce s)"
| "json_text_value v = v"

definition marshal_metadata :: "metadata \<Rightarrow> metadata" where
  "marshal_metadata md =
     map (\<lambda>(k, v). (utf8_coerce k, json_text_value v)) (sort_key (\<lambda>(k, v). map byte k) md)"

text \<open>The float64 of an integer that fits 64 bits.\<close>

definition float_of_int :: "int \<Rightarrow> rat" where
  "float_of_int n =
     (case to_float64 (nat (abs n)) 1 of Some q \<Rightarrow> if n < 0 then - q else q | None \<Rightarrow> of_int n)"

fun json_decoded :: "meta_value \<Rightarrow> meta_value" where
  "json_decoded (MInt n) = MFloat64 (Fin (float_of_int n))"
| "json_decoded (MInt64 n) = MFloat64 (Fin (float_of_int n))"
| "json_decoded v = v"

definition unmarshal_metadata :: "metadata \<Rightarrow> metadata" where
  "unmarshal_metadata ms = fold (\<lambda>(k, v). aupdate k (json_decoded v)) ms []"

definition toEventModel :: "event \<Rightarrow> audit_error + event_row" where
  "toEventModel e =
     (if ev_Metadata e \<noteq> [] \<and> \<not> list_all (\<lambda>(k, v). json_encodable v) (ev_Metadata e)
      then Inl MarshalMetadataError
      else Inr \<lparr>er_Seq = 0, er_ID = ev_ID e, er_Timestamp = ev_Timestamp e, er_Actor = ev_Actor e,
             er_ActorSource = ev_ActorSource e, er_Action = ev_Action e, er_Method = ev_Method e,
             er_Path = ev_Path e, er_Endpoint = ev_Endpoint e, er_StatusCode = ev_StatusCode e,
             er_Result = ev_Result e, er_RemoteAddr = ev_RemoteAddr e,
             er_UserAgent = Truncate (ev_UserAgent e) 512, er_RequestID = ev_RequestID e,
             er_DurationMS = ev_DurationMS e, er_ErrorCode = ev_ErrorCode e,
             er_Message = Truncate (ev_Message e) 512,
             er_MetadataJSON =
               (if ev_Metadata e = [] then None else Some (marshal_metadata (ev_Metadata e)))\<rparr>)"

definition fromEventModel :: "event_row \<Rightarrow> event" where
  "fromEventModel m =
     \<lparr>ev_Seq = er_Seq m, ev_ID = er_ID m, ev_Timestamp = er_Timestamp m, ev_Actor = er_Actor m,
      ev_ActorSource = er_ActorSource m, ev_Action = er_Action m, ev_Method = er_Method m,
      ev_Path = er_Path m, ev_Endpoint = er_Endpoint m, ev_StatusCode = er_StatusCode m,
      ev_Result = er_Result m, ev_RemoteAddr = er_RemoteAddr m, ev_UserAgent = er_UserAgent m,
      ev_RequestID = er_RequestID m, ev_DurationMS = er_DurationMS m, ev_ErrorCode = er_ErrorCode m,
      ev_Message = er_Message m,
      ev_Metadata = (case er_MetadataJSON m of
          None \<Rightarrow> [] | Some ms \<Rightarrow> unmarshal_metadata ms)\<rparr>"

definition toRollupModel :: "metric_rollup \<Rightarrow> rollup_row" where
  "toRollupModel r =
     \<lparr>rr_key = \<lparr>rk_BucketStart = mr_BucketStart r,
        rk_BucketSize = duration_seconds (mr_BucketSize r),
        rk_Endpoint = trim_space (mr_Endpoint r),
        rk_Method = to_upper (trim_space (mr_Method r)),
        rk_Action = trim_space (mr_Action r),
        rk_Result = to_lower (trim_space (mr_Result r)),
        rk_StatusClass = to_lower (trim_space (mr_StatusClass r)),
        rk_StatusCode = mr_StatusCode r\<rparr>,
      rr_Count = mr_Count r\<rparr>"

section \<open>Merging rollups\<close>

text \<open>
  The loop body of \<open>mergeRollups\<close>: defaults, then the text key.  The RFC 3339 text of the bucket
  start is represented by the instant itself; the bucket size is not part of the key.
\<close>

definition rollup_defaults :: "time \<Rightarrow> metric_rollup \<Rightarrow> metric_rollup" where
  "rollup_defaults now r0 =
     (let r1 = (if mr_BucketSize r0 \<le> 0 then r0\<lparr>mr_BucketSize := minute\<rparr> else r0);
          r2 = (if is_zero (mr_BucketStart r1)
                then r1\<lparr>mr_BucketStart := time_truncate now (mr_BucketSize r1)\<rparr> else r1)
      in if mr_Count r2 \<le> 0 then r2\<lparr>mr_Count := 1\<rparr> else r2)"

definition merge_key :: "metric_rollup \<Rightarrow> time \<times> string" where
  "merge_key r =
     (mr_BucketStart r,
      join ''|'' [mr_Endpoint r, mr_Method r, mr_Action r, mr_Result r, mr_StatusClass r,
        show_int (mr_StatusCode r)])"

fun merge_step :: "time \<Rightarrow> metric_rollup \<Rightarrow> ((time \<times> string) \<times> metric_rollup) list
    \<Rightarrow> ((time \<times> string) \<times> metric_rollup) list" where
  "merge_step now r0 merged =
     (let r = rollup_defaults now r0; key = merge_key r
      in case alookup merged key of
           None \<Rightarrow> aupdate key r merged
         | Some existing \<Rightarrow>
             if mr_Count existing = 0 then aupdate key r merged
             else aupdate key (existing\<lparr>mr_Count := mr_Count existing + mr_Count r\<rparr>) merged)"

definition mergeRollups :: "time \<Rightarrow> metric_rollup list \<Rightarrow> metric_rollup list" where
  "mergeRollups now rollups = map snd (fold (merge_step now) rollups [])"

definition prepareRollupModels :: "time \<Rightarrow> metric_rollup list \<Rightarrow> rollup_row list" where
  "prepareRollupModels now rollups =
     map toRollupModel (filter (\<lambda>r. \<not> mr_Count r \<le> 0) (mergeRollups now rollups))"

text \<open>
  Each event is prepared again; \<open>env i\<close> is the identifier and the clock reading that the call
  for the \<open>i\<close>-th event would use.
\<close>

type_synonym prepare_env = "nat \<Rightarrow> string \<times> time"

fun prepareEventModels :: "prepare_env \<Rightarrow> nat \<Rightarrow> event list \<Rightarrow> audit_error + event_row list" where
  "prepareEventModels env i [] = Inr []"
| "prepareEventModels env i (e # es) =
     rbind (toEventModel (PrepareEvent (fst (env i)) (snd (env i)) e))
       (\<lambda>m. rbind (prepareEventModels env (Suc i) es) (\<lambda>ms. Inr (m # ms)))"

section \<open>Tables and transactions\<close>

text \<open>The column lengths of the schema, where the dialect enforces them.\<close>

definition event_row_fits :: "dialectName \<Rightarrow> event_row \<Rightarrow> bool" where
  "event_row_fits d m \<longleftrightarrow> d = DialectSQLite \<or>
     utf8_length (er_ID m) \<le> 64 \<and> utf8_length (er_Actor m) \<le> 255 \<and>
     utf8_length (er_ActorSource m) \<le> 64 \<and> utf8_length (er_Action m) \<le> 128 \<and>
     utf8_length (er_Method m) \<le> 16 \<and> utf8_length (er_Endpoint m) \<le> 128 \<and>
     utf8_length (er_Result m) \<le> 32 \<and> utf8_length (er_RemoteAddr m) \<le> 64 \<and>
     utf8_length (er_RequestID m) \<le> 128 \<and> utf8_length (er_ErrorCode m) \<le> 128 \<and>
     utf8_length (er_Message m) \<le> 512"

definition rollup_row_fits :: "dialectName \<Rightarrow> rollup_row \<Rightarrow> bool" where
  "rollup_row_fits d m \<longleftrightarrow> d = DialectSQLite \<or>
     utf8_length (rk_Endpoint (rr_key m)) \<le> 128 \<and> utf8_length (rk_Method (rr_key m)) \<le> 16 \<and>
     utf8_length (rk_Action (rr_key m)) \<le> 128 \<and> utf8_length (rk_Result (rr_key m)) \<le> 32 \<and>
     utf8_length (rk_StatusClass (rr_key m)) \<le> 8"

text \<open>
  \<open>tb_stored_time\<close> is the precision with which driver and column keep a timestamp.  The bucket
  starts of the rollups are whole minutes, which every dialect keeps.
\<close>

record tables =
  tb_events :: "event_row list"
  tb_rollups :: "rollup_row list"
  tb_next_seq :: int
  tb_stored_time :: "time \<Rightarrow> time"

datatype tx_outcome = Commit | Rollback | CommitUnacked

text \<open>
  The time zone of a MySQL session, by what \<open>UNIX_TIMESTAMP\<close> and \<open>FROM_UNIXTIME\<close> make of seconds on
  the session's clock and of Unix seconds.  The code never sets it: it is what \<open>AUDIT_DSN\<close> or the
  server chooses.
\<close>

record session_zone =
  zn_unix :: "int \<Rightarrow> int"
  zn_local :: "int \<Rightarrow> int"

definition fixed_zone :: "int \<Rightarrow> session_zone" where
  "fixed_zone offset = \<lparr>zn_unix = (\<lambda>t. t - offset), zn_local = (\<lambda>u. u + offset)\<rparr>"

record repository =
  rp_dialect :: dialectName
  rp_zone :: session_zone
  rp_tables :: tables
  rp_outcomes :: "nat \<Rightarrow> tx_outcome"
  rp_tx :: nat

text \<open>New tables of a database that keeps microseconds.\<close>

definition empty_tables :: tables where
  "empty_tables = \<lparr>tb_events = [], tb_rollups = [], tb_next_seq = 1, tb_stored_time = (\<lambda>t. t - t mod 1000)\<rparr>"

definition insert_event :: "event_row \<Rightarrow> tables \<Rightarrow> tables" where
  "insert_event m t =
     (if er_ID m \<in> er_ID ` set (tb_events t) then t
      else t\<lparr>tb_events := tb_events t @
               [m\<lparr>er_Seq := tb_next_seq t, er_Timestamp := tb_stored_time t (er_Timestamp m)\<rparr>],
             tb_next_seq := tb_next_seq t + 1\<rparr>)"

text \<open>One INSERT statement; \<open>None\<close> when the database refuses a value.\<close>

definition insertEventModels :: "dialectName \<Rightarrow> event_row list \<Rightarrow> tables \<Rightarrow> tables option" where
  "insertEventModels d models t =
     (if models = [] then Some t
      else if list_all (event_row_fits d) models then Some (fold insert_event models t)
      else None)"

fun upsert_rows :: "rollup_row \<Rightarrow> rollup_row list \<Rightarrow> rollup_row list" where
  "upsert_rows m [] = [m]"
| "upsert_rows m (r # rs) =
     (if rr_key r = rr_key m then r\<lparr>rr_Count := rr_Count r + rr_Count m\<rparr> # rs
      else r # upsert_rows m rs)"

text \<open>PostgreSQL refuses an \<open>ON CONFLICT DO UPDATE\<close> that would touch one row twice.\<close>

definition upsertRollupModels :: "dialectName \<Rightarrow> rollup_row list \<Rightarrow> tables \<Rightarrow> tables option" where
  "upsertRollupModels d models t =
     (if models = [] then Some t
      else if list_all (rollup_row_fits d) models \<and> (d = DialectPostgres \<longrightarrow> distinct (map rr_key models))
        then Some (t\<lparr>tb_rollups := fold upsert_rows models (tb_rollups t)\<rparr>)
      else None)"

text \<open>\<open>RunInTx\<close>: a body that returns an error rolls the transaction back.\<close>

definition runInTx :: "(tables \<Rightarrow> tables option) \<Rightarrow> repository \<Rightarrow> audit_error option \<times> repository" where
  "runInTx body r =
     (let r' = r\<lparr>rp_tx := Suc (rp_tx r)\<rparr>
      in case body (rp_tables r) of
           None \<Rightarrow> (Some StorageError, r')
         | Some t \<Rightarrow>
             (case rp_outcomes r (rp_tx r) of
                Commit \<Rightarrow> (None, r'\<lparr>rp_tables := t\<rparr>)
              | Rollback \<Rightarrow> (Some StorageError, r')
              | CommitUnacked \<Rightarrow> (Some StorageError, r'\<lparr>rp_tables := t\<rparr>)))"

section \<open>Operations\<close>

definition AppendBatch ::
    "prepare_env \<Rightarrow> event list \<Rightarrow> repository \<Rightarrow> audit_error option \<times> repository" where
  "AppendBatch env events r =
     (if events = [] then (None, r)
      else case prepareEventModels env 0 events of
             Inl e \<Rightarrow> (Some e, r)
           | Inr models \<Rightarrow> runInTx (insertEventModels (rp_dialect r) models) r)"

definition AppendMetricRollups ::
    "time \<Rightarrow> metric_rollup list \<Rightarrow> repository \<Rightarrow> audit_error option \<times> repository" where
  "AppendMetricRollups now rollups r =
     (if rollups = [] then (None, r)
      else let models = prepareRollupModels now rollups
           in if models = [] then (None, r)
              else runInTx (upsertRollupModels (rp_dialect r) models) r)"

definition AppendAuditBatch ::
    "prepare_env \<Rightarrow> time \<Rightarrow> event list \<Rightarrow> metric_rollup list \<Rightarrow> repository
      \<Rightarrow> audit_error option \<times> repository" where
  "AppendAuditBatch env now events rollups r =
     (if events = [] \<and> rollups = [] then (None, r)
      else case prepareEventModels env 0 events of
             Inl e \<Rightarrow> (Some e, r)
           | Inr eventModels \<Rightarrow>
               let rollupModels = prepareRollupModels now rollups
               in runInTx (\<lambda>t. Option.bind (insertEventModels (rp_dialect r) eventModels t)
                                 (upsertRollupModels (rp_dialect r) rollupModels)) r)"

definition Reset :: "string \<Rightarrow> time \<Rightarrow> event \<Rightarrow> repository \<Rightarrow> audit_error option \<times> repository" where
  "Reset hex now marker r =
     (case toEventModel (PrepareEvent hex now marker) of
        Inl e \<Rightarrow> (Some e, r)
      | Inr model \<Rightarrow>
          runInTx (\<lambda>t. insertEventModels (rp_dialect r) [model] (t\<lparr>tb_events := [], tb_rollups := []\<rparr>)) r)"

definition PruneRetention :: "time \<Rightarrow> int \<Rightarrow> repository \<Rightarrow> audit_error option \<times> repository" where
  "PruneRetention now days r =
     (if days \<le> 0 then (None, r)
      else let cutoff = add_days now (- days)
           in runInTx (\<lambda>t. Some (t\<lparr>tb_events := filter (\<lambda>m. \<not> er_Timestamp m < cutoff) (tb_events t),
                 tb_rollups := filter (\<lambda>m. \<not> rk_BucketStart (rr_key m) < cutoff) (tb_rollups t)\<rparr>)) r)"

definition Get :: "string \<Rightarrow> repository \<Rightarrow> (audit_error + event option) \<times> repository" where
  "Get i r =
     (let r' = r\<lparr>rp_tx := Suc (rp_tx r)\<rparr>
      in case rp_outcomes r (rp_tx r) of
           Commit \<Rightarrow> (Inr (map_option fromEventModel (find (\<lambda>m. er_ID m = i) (tb_events (rp_tables r)))), r')
         | _ \<Rightarrow> (Inl StorageError, r'))"

section \<open>Facts\<close>

text \<open>Metadata of the kinds that \<open>SafeMetadata\<close> leaves, without NaN and infinities.\<close>

definition storable :: "event \<Rightarrow> bool" where
  "storable e \<longleftrightarrow> list_all (\<lambda>(k, v). json_encodable v) (ev_Metadata e)"

lemma toEventModel_Inr: "toEventModel e = Inr m \<Longrightarrow> er_ID m = ev_ID e \<and> storable e"
  by (auto simp: toEventModel_def storable_def split: if_splits)

lemma storable_toEventModel: "storable e \<Longrightarrow> \<exists>m. toEventModel e = Inr m"
  by (auto simp: toEventModel_def storable_def)

lemma json_encodable_safe [simp]: "json_encodable (safe_value v) = json_encodable v"
  by (cases v) simp_all

lemma storable_PrepareEvent: "storable e \<Longrightarrow> storable (PrepareEvent h n e)"
  by (auto simp: storable_def SafeMetadata_def list_all_iff)

definition stored_id :: "prepare_env \<Rightarrow> nat \<Rightarrow> event \<Rightarrow> string" where
  "stored_id env i e = (if ev_ID e = [] then audit_id (fst (env i)) else ev_ID e)"

lemma prepareEventModels_ids:
  "prepareEventModels env i es = Inr ms \<Longrightarrow> \<forall>e \<in> set es. ev_ID e \<noteq> [] \<Longrightarrow> map er_ID ms = map ev_ID es"
  by (induction env i es arbitrary: ms rule: prepareEventModels.induct)
    (auto simp: rbind_Inr_iff dest!: toEventModel_Inr)

lemma prepareEventModels_total: "\<forall>e \<in> set es. storable e \<Longrightarrow> \<exists>ms. prepareEventModels env i es = Inr ms"
proof (induction env i es rule: prepareEventModels.induct)
  case (2 env i e es)
  then have st: "storable (PrepareEvent (fst (env i)) (snd (env i)) e)" by (simp add: storable_PrepareEvent)
  obtain m where "toEventModel (PrepareEvent (fst (env i)) (snd (env i)) e) = Inr m"
    using storable_toEventModel [OF st] by blast
  moreover obtain ms where "prepareEventModels env (Suc i) es = Inr ms" using 2 by auto
  ultimately show ?case by simp
qed simp

text \<open>The invariant of the tables: unique identifiers, increasing sequence numbers, unique keys.\<close>

definition tables_ok :: "tables \<Rightarrow> bool" where
  "tables_ok t \<longleftrightarrow>
     distinct (map er_ID (tb_events t)) \<and> sorted_wrt (<) (map er_Seq (tb_events t)) \<and>
     (\<forall>m \<in> set (tb_events t). 1 \<le> er_Seq m \<and> er_Seq m < tb_next_seq t) \<and> 1 \<le> tb_next_seq t \<and>
     distinct (map rr_key (tb_rollups t))"

definition event_ids :: "tables \<Rightarrow> string set" where
  "event_ids t = er_ID ` set (tb_events t)"

definition rollup_total :: "tables \<Rightarrow> int" where
  "rollup_total t = (\<Sum>m\<leftarrow>tb_rollups t. rr_Count m)"

lemma empty_tables_ok [valid_intros]: "tables_ok empty_tables"
  by (simp add: tables_ok_def empty_tables_def)

lemma insert_event_ok: "tables_ok t \<Longrightarrow> tables_ok (insert_event m t)"
  by (auto simp: insert_event_def tables_ok_def sorted_wrt_append)

lemma insert_event_ids: "event_ids (insert_event m t) = insert (er_ID m) (event_ids t)"
  by (auto simp: insert_event_def event_ids_def)

lemma insert_event_frame:
  "tb_rollups (insert_event m t) = tb_rollups t" "\<exists>ms. tb_events (insert_event m t) = tb_events t @ ms"
  by (auto simp: insert_event_def)

lemma fold_insert_event:
  "tables_ok t \<Longrightarrow> tables_ok (fold insert_event ms t)"
  "event_ids (fold insert_event ms t) = event_ids t \<union> er_ID ` set ms"
  "tb_rollups (fold insert_event ms t) = tb_rollups t"
  by (induction ms arbitrary: t) (auto simp: insert_event_ok insert_event_ids insert_event_frame)

lemma fold_insert_event_prefix: "\<exists>ns. tb_events (fold insert_event ms t) = tb_events t @ ns"
proof (induction ms arbitrary: t)
  case (Cons m ms)
  then obtain ns where "tb_events (fold insert_event ms (insert_event m t)) =
      tb_events (insert_event m t) @ ns" by blast
  moreover obtain ks where "tb_events (insert_event m t) = tb_events t @ ks"
    using insert_event_frame(2) by blast
  ultimately show ?case by simp
qed simp

lemma insertEventModels_ok [valid_intros]:
  "insertEventModels d ms t = Some t' \<Longrightarrow> tables_ok t \<Longrightarrow> tables_ok t'"
  by (auto simp: insertEventModels_def fold_insert_event split: if_splits)

lemma insertEventModels_effect:
  "insertEventModels d ms t = Some t' \<Longrightarrow>
     event_ids t' = event_ids t \<union> er_ID ` set ms \<and> tb_rollups t' = tb_rollups t \<and>
     (\<exists>ns. tb_events t' = tb_events t @ ns)"
  by (auto simp: insertEventModels_def fold_insert_event fold_insert_event_prefix split: if_splits)

lemma upsert_rows_total: "(\<Sum>m\<leftarrow>upsert_rows r rs. rr_Count m) = rr_Count r + (\<Sum>m\<leftarrow>rs. rr_Count m)"
  by (induction r rs rule: upsert_rows.induct) auto

lemma upsert_rows_keys: "rr_key ` set (upsert_rows r rs) = insert (rr_key r) (rr_key ` set rs)"
  by (induction r rs rule: upsert_rows.induct) (simp_all add: insert_commute)

lemma upsert_rows_distinct: "distinct (map rr_key rs) \<Longrightarrow> distinct (map rr_key (upsert_rows r rs))"
  by (induction r rs rule: upsert_rows.induct) (auto simp: upsert_rows_keys)

lemma fold_upsert_rows:
  "(\<Sum>m\<leftarrow>fold upsert_rows ms rs. rr_Count m) = (\<Sum>m\<leftarrow>ms. rr_Count m) + (\<Sum>m\<leftarrow>rs. rr_Count m)"
  "distinct (map rr_key rs) \<Longrightarrow> distinct (map rr_key (fold upsert_rows ms rs))"
  by (induction ms arbitrary: rs) (auto simp: upsert_rows_total upsert_rows_distinct)

lemma upsertRollupModels_ok [valid_intros]:
  "upsertRollupModels d ms t = Some t' \<Longrightarrow> tables_ok t \<Longrightarrow> tables_ok t'"
  by (auto simp: upsertRollupModels_def tables_ok_def fold_upsert_rows split: if_splits)

lemma upsertRollupModels_effect:
  "upsertRollupModels d ms t = Some t' \<Longrightarrow>
     tb_events t' = tb_events t \<and> tb_next_seq t' = tb_next_seq t \<and>
     rollup_total t' = rollup_total t + (\<Sum>m\<leftarrow>ms. rr_Count m)"
  by (auto simp: upsertRollupModels_def rollup_total_def fold_upsert_rows split: if_splits)

section \<open>Merging keeps every count\<close>

definition effective_count :: "metric_rollup \<Rightarrow> int" where
  "effective_count r = (if mr_Count r \<le> 0 then 1 else mr_Count r)"

lemma rollup_defaults_count [simp]: "mr_Count (rollup_defaults now r) = effective_count r"
  by (simp add: rollup_defaults_def effective_count_def Let_def)

lemma effective_count_pos [simp]: "0 < effective_count r" "effective_count r \<noteq> 0"
  by (auto simp: effective_count_def)

lemma aupdate_sum:
  fixes f :: "'v \<Rightarrow> int"
  shows "(\<Sum>p\<leftarrow>aupdate k v m. f (snd p)) =
     (\<Sum>p\<leftarrow>m. f (snd p)) + f v - (case alookup m k of None \<Rightarrow> 0 | Some w \<Rightarrow> f w)"
  by (induction k v m rule: aupdate.induct) (auto split: option.splits)

lemma merge_step_sum:
  shows "(\<Sum>p\<leftarrow>merge_step now r m. mr_Count (snd p)) = (\<Sum>p\<leftarrow>m. mr_Count (snd p)) + effective_count r"
  by (auto simp: Let_def aupdate_sum [where f = mr_Count] split: option.splits)

lemma merge_step_pos:
  assumes "\<forall>p \<in> set m. 0 < mr_Count (snd p)"
  shows "\<forall>p \<in> set (merge_step now r m). 0 < mr_Count (snd p)"
proof -
  have upd: "\<forall>p \<in> set (aupdate k v m). 0 < mr_Count (snd p)" if "0 < mr_Count v" for k v
    using assms that by (induction k v m rule: aupdate.induct) auto
  let ?r = "rollup_defaults now r"
  have old: "0 < mr_Count w" if "alookup m (merge_key ?r) = Some w" for w
    using alookup_Some_mem [OF that] assms by force
  show ?thesis
  proof (cases "alookup m (merge_key ?r)")
    case None
    then show ?thesis using upd [of ?r] by (simp add: Let_def)
  next
    case (Some w)
    then show ?thesis
      using old [of w] upd [of ?r]
        upd [of "w\<lparr>mr_Count := mr_Count w + mr_Count ?r\<rparr>" "merge_key ?r"]
      by (simp add: Let_def add_pos_pos)
  qed
qed

lemma fold_merge_step:
  "\<forall>p \<in> set m. 0 < mr_Count (snd p) \<Longrightarrow>
   (\<Sum>p\<leftarrow>fold (merge_step now) rs m. mr_Count (snd p)) =
     (\<Sum>p\<leftarrow>m. mr_Count (snd p)) + (\<Sum>r\<leftarrow>rs. effective_count r) \<and>
   (\<forall>p \<in> set (fold (merge_step now) rs m). 0 < mr_Count (snd p))"
proof (induction rs arbitrary: m)
  case (Cons r rs)
  from Cons.IH [OF merge_step_pos [OF Cons.prems]]
  show ?case using merge_step_sum [of now r m] by (simp del: merge_step.simps)
qed simp

lemma prepareRollupModels_total:
  "(\<Sum>m\<leftarrow>prepareRollupModels now rs. rr_Count m) = (\<Sum>r\<leftarrow>rs. effective_count r)"
proof -
  have "filter (\<lambda>r. \<not> mr_Count r \<le> 0) (mergeRollups now rs) = mergeRollups now rs"
    using fold_merge_step [of "[]" now rs] by (auto simp: mergeRollups_def filter_id_conv)
  then show ?thesis
    using fold_merge_step [of "[]" now rs]
    by (simp add: prepareRollupModels_def mergeRollups_def comp_def toRollupModel_def)
qed

text \<open>
  Rollups whose fields \<open>toRollupModel\<close> would not change, as the recorder builds them: two of them
  with the same row key have the same merge key, so one statement never names a row twice.
\<close>

definition normal_rollup :: "metric_rollup \<Rightarrow> bool" where
  "normal_rollup r \<longleftrightarrow> mr_BucketSize r = minute \<and> \<not> is_zero (mr_BucketStart r) \<and>
     trim_space (mr_Endpoint r) = mr_Endpoint r \<and> to_upper (trim_space (mr_Method r)) = mr_Method r \<and>
     trim_space (mr_Action r) = mr_Action r \<and> to_lower (trim_space (mr_Result r)) = mr_Result r \<and>
     to_lower (trim_space (mr_StatusClass r)) = mr_StatusClass r"

lemma normal_rollup_key:
  "normal_rollup r \<Longrightarrow> normal_rollup s \<Longrightarrow> rr_key (toRollupModel r) = rr_key (toRollupModel s)
     \<Longrightarrow> merge_key r = merge_key s"
  by (simp add: normal_rollup_def toRollupModel_def merge_key_def)

lemma normal_rollup_defaults: "normal_rollup r \<Longrightarrow> normal_rollup (rollup_defaults now r)"
  by (auto simp: normal_rollup_def rollup_defaults_def Let_def minute_def)

definition keyed :: "((time \<times> string) \<times> metric_rollup) list \<Rightarrow> bool" where
  "keyed m \<longleftrightarrow> distinct (map fst m) \<and> (\<forall>p \<in> set m. fst p = merge_key (snd p) \<and> normal_rollup (snd p))"

lemma keyed_aupdate: "keyed m \<Longrightarrow> normal_rollup r \<Longrightarrow> keyed (aupdate (merge_key r) r m)"
proof -
  assume m: "keyed m" and r: "normal_rollup r"
  have "set (aupdate k r m) \<subseteq> insert (k, r) (set m)" for k
    by (induction k r m rule: aupdate.induct) auto
  then show ?thesis using m r by (fastforce simp: keyed_def distinct_aupdate)
qed

lemma keyed_merge_step:
  assumes "keyed m" and "normal_rollup r0"
  shows "keyed (merge_step now r0 m)"
proof -
  define r where "r = rollup_defaults now r0"
  have r: "normal_rollup r" using assms(2) by (simp add: r_def normal_rollup_defaults)
  show ?thesis
  proof (cases "alookup m (merge_key r)")
    case None
    then show ?thesis using keyed_aupdate [OF assms(1) r] by (simp add: Let_def r_def)
  next
    case (Some w)
    from alookup_Some_mem [OF this] assms(1) have w: "merge_key w = merge_key r" "normal_rollup w"
      by (auto simp: keyed_def)
    define w' where "w' = w\<lparr>mr_Count := mr_Count w + mr_Count r\<rparr>"
    have "merge_key w' = merge_key r" "normal_rollup w'"
      using w by (simp_all add: w'_def merge_key_def normal_rollup_def)
    then show ?thesis
      using keyed_aupdate [OF assms(1), of w'] keyed_aupdate [OF assms(1) r] Some
      by (simp add: Let_def r_def w'_def)
  qed
qed

lemma keyed_fold:
  "keyed m \<Longrightarrow> \<forall>r \<in> set rs. normal_rollup r \<Longrightarrow> keyed (fold (merge_step now) rs m)"
  by (induction rs arbitrary: m) (auto simp: keyed_merge_step simp del: merge_step.simps)

lemma keyed_distinct_rows: "keyed m \<Longrightarrow> distinct (map rr_key (map toRollupModel (map snd m)))"
proof (induction m)
  case (Cons p m)
  have "rr_key (toRollupModel (snd p)) \<noteq> rr_key (toRollupModel (snd q))" if "q \<in> set m" for q
    using that Cons.prems normal_rollup_key [of "snd p" "snd q"] by (auto simp: keyed_def)
  moreover have "keyed m" using Cons.prems by (auto simp: keyed_def)
  ultimately show ?case using Cons.IH by auto
qed simp

lemma prepareRollupModels_distinct:
  assumes "\<forall>r \<in> set rs. normal_rollup r"
  shows "distinct (map rr_key (prepareRollupModels now rs))"
proof -
  have "keyed (fold (merge_step now) rs [])"
    using keyed_fold [of "[]" rs now] assms by (simp add: keyed_def)
  from keyed_distinct_rows [OF this]
  have "distinct (map (\<lambda>r. rr_key (toRollupModel r)) (mergeRollups now rs))"
    by (simp add: mergeRollups_def comp_def)
  from distinct_map_filter [OF this] show ?thesis
    by (simp add: prepareRollupModels_def comp_def)
qed

section \<open>Transactions\<close>

lemma runInTx_cases:
  assumes "runInTx body r = (err, r')"
  obtains "err \<noteq> None" and "rp_tables r' = rp_tables r"
  | t where "body (rp_tables r) = Some t" and "rp_tables r' = t"
  using assms by (auto simp: runInTx_def Let_def split: option.splits tx_outcome.splits)

lemma runInTx_frame [step_frame]:
  "rp_dialect (snd (runInTx body r)) = rp_dialect r"
  "rp_outcomes (snd (runInTx body r)) = rp_outcomes r"
  by (auto simp: runInTx_def Let_def split: option.splits tx_outcome.splits)

lemma runInTx_ok:
  assumes "\<And>t t'. body t = Some t' \<Longrightarrow> tables_ok t \<Longrightarrow> tables_ok t'" and "tables_ok (rp_tables r)"
  shows "tables_ok (rp_tables (snd (runInTx body r)))"
  using assms by (auto simp: runInTx_def Let_def split: option.splits tx_outcome.splits)

text \<open>What a batch does to the tables when it is applied.\<close>

definition batch_applied :: "event list \<Rightarrow> metric_rollup list \<Rightarrow> tables \<Rightarrow> tables \<Rightarrow> bool" where
  "batch_applied es rs t t' \<longleftrightarrow>
     event_ids t' = event_ids t \<union> ev_ID ` set es \<and>
     rollup_total t' = rollup_total t + (\<Sum>r\<leftarrow>rs. effective_count r) \<and>
     (\<exists>ns. tb_events t' = tb_events t @ ns)"

lemma batch_applied_body:
  assumes "\<forall>e \<in> set es. ev_ID e \<noteq> []" and "prepareEventModels env 0 es = Inr ms"
    and "Option.bind (insertEventModels d ms t) (upsertRollupModels d (prepareRollupModels now rs)) = Some t'"
  shows "batch_applied es rs t t'"
proof -
  from assms(3) obtain u where u: "insertEventModels d ms t = Some u"
      "upsertRollupModels d (prepareRollupModels now rs) u = Some t'"
    by (cases "insertEventModels d ms t") auto
  have "set (map er_ID ms) = set (map ev_ID es)"
    by (simp only: prepareEventModels_ids [OF assms(2,1)])
  then show ?thesis
    using insertEventModels_effect [OF u(1)] upsertRollupModels_effect [OF u(2)]
    by (auto simp: batch_applied_def event_ids_def rollup_total_def prepareRollupModels_total)
qed

lemma AppendAuditBatch_cases:
  assumes "\<forall>e \<in> set es. ev_ID e \<noteq> []" and "AppendAuditBatch env now es rs r = (err, r')"
  shows "err \<noteq> None \<and> rp_tables r' = rp_tables r \<or> batch_applied es rs (rp_tables r) (rp_tables r')"
proof (cases "es = [] \<and> rs = []")
  case True
  then show ?thesis using assms(2) by (auto simp: AppendAuditBatch_def batch_applied_def)
next
  case False
  show ?thesis
  proof (cases "prepareEventModels env 0 es")
    case (Inl e)
    then show ?thesis using assms(2) False by (auto simp: AppendAuditBatch_def)
  next
    case (Inr ms)
    have "runInTx (\<lambda>t. Option.bind (insertEventModels (rp_dialect r) ms t)
        (upsertRollupModels (rp_dialect r) (prepareRollupModels now rs))) r = (err, r')"
      using assms(2) False Inr by (simp add: AppendAuditBatch_def split: if_splits)
    then show ?thesis
      by (rule runInTx_cases) (use batch_applied_body [OF assms(1) Inr] in auto)
  qed
qed

lemma AppendAuditBatch_frame [step_frame]:
  "rp_dialect (snd (AppendAuditBatch env now es rs r)) = rp_dialect r"
  "rp_outcomes (snd (AppendAuditBatch env now es rs r)) = rp_outcomes r"
  by (auto simp: AppendAuditBatch_def Let_def step_frame split: sum.splits)

text \<open>The operations as one type, for histories of calls.\<close>

datatype repo_op =
    OpAppendBatch prepare_env "event list"
  | OpAppendMetricRollups time "metric_rollup list"
  | OpAppendAuditBatch prepare_env time "event list" "metric_rollup list"
  | OpReset string time event
  | OpPruneRetention time int
  | OpGet string

fun run_repo_op :: "repo_op \<Rightarrow> repository \<Rightarrow> repository" where
  "run_repo_op (OpAppendBatch env es) r = snd (AppendBatch env es r)"
| "run_repo_op (OpAppendMetricRollups now rs) r = snd (AppendMetricRollups now rs r)"
| "run_repo_op (OpAppendAuditBatch env now es rs) r = snd (AppendAuditBatch env now es rs r)"
| "run_repo_op (OpReset hex now e) r = snd (Reset hex now e r)"
| "run_repo_op (OpPruneRetention now days) r = snd (PruneRetention now days r)"
| "run_repo_op (OpGet i) r = snd (Get i r)"

lemma sorted_wrt_map_filter: "sorted_wrt R (map f xs) \<Longrightarrow> sorted_wrt R (map f (filter P xs))"
  by (induction xs) auto

lemma prune_ok: "tables_ok t \<Longrightarrow>
    tables_ok (t\<lparr>tb_events := filter P (tb_events t), tb_rollups := filter Q (tb_rollups t)\<rparr>)"
  by (auto simp: tables_ok_def distinct_map_filter sorted_wrt_map_filter)

lemma reset_ok: "tables_ok t \<Longrightarrow> tables_ok (t\<lparr>tb_events := [], tb_rollups := []\<rparr>)"
  by (simp add: tables_ok_def)

lemma run_repo_op_ok [valid_intros]:
  "tables_ok (rp_tables r) \<Longrightarrow> tables_ok (rp_tables (run_repo_op op r))"
proof (cases op)
  case (OpAppendAuditBatch env now es rs)
  have "tables_ok t'" if "tables_ok t"
    "Option.bind (insertEventModels d ms t) (upsertRollupModels d ks) = Some t'" for d ms ks t t'
    using that by (cases "insertEventModels d ms t") (auto intro: valid_intros)
  then show "tables_ok (rp_tables r) \<Longrightarrow> ?thesis"
    using OpAppendAuditBatch
    by (auto simp: AppendAuditBatch_def Let_def intro!: runInTx_ok split: sum.splits)
qed (auto simp: AppendBatch_def AppendMetricRollups_def Reset_def PruneRetention_def Get_def Let_def
      intro!: runInTx_ok intro: valid_intros reset_ok prune_ok split: sum.splits tx_outcome.splits)

text \<open>Repeated attempts to append one batch, as the recorder's retries make them.\<close>

fun replay :: "(nat \<Rightarrow> prepare_env) \<Rightarrow> (nat \<Rightarrow> time) \<Rightarrow> event list \<Rightarrow> metric_rollup list \<Rightarrow> nat
    \<Rightarrow> repository \<Rightarrow> repository" where
  "replay envs nows es rs 0 r = r"
| "replay envs nows es rs (Suc n) r =
     snd (AppendAuditBatch (envs n) (nows n) es rs (replay envs nows es rs n r))"

lemma find_distinct:
  "distinct (map f xs) \<Longrightarrow> x \<in> set xs \<Longrightarrow> find (\<lambda>y. f y = f x) xs = Some x"
proof (induction xs)
  case (Cons a xs)
  show ?case
  proof (cases "a = x")
    case False
    then have "x \<in> set xs" using Cons.prems(2) by simp
    moreover from this have "f a \<noteq> f x" using Cons.prems(1) by (metis distinct.simps(2) image_eqI list.map(2) list.set_map)
    ultimately show ?thesis using Cons by simp
  qed simp
qed simp

lemma fold_insert_event_stored:
  "m \<in> set ms \<Longrightarrow> distinct (map er_ID ms) \<Longrightarrow> er_ID m \<notin> event_ids t \<Longrightarrow>
     \<exists>s. m\<lparr>er_Seq := s, er_Timestamp := tb_stored_time t (er_Timestamp m)\<rparr> \<in> set (tb_events (fold insert_event ms t))"
proof (induction ms arbitrary: t)
  case (Cons a ms)
  show ?case
  proof (cases "m = a")
    case True
    then have "m\<lparr>er_Seq := tb_next_seq t, er_Timestamp := tb_stored_time t (er_Timestamp m)\<rparr> \<in> set (tb_events (insert_event a t))"
      using Cons.prems(3) by (auto simp: insert_event_def event_ids_def)
    moreover obtain ns where "tb_events (fold insert_event ms (insert_event a t)) =
        tb_events (insert_event a t) @ ns"
      using fold_insert_event_prefix by blast
    ultimately show ?thesis by auto
  next
    case False
    then have "er_ID m \<notin> event_ids (insert_event a t)"
      using Cons.prems by (auto simp: insert_event_ids intro: rev_image_eqI)
    moreover have "tb_stored_time (insert_event a t) = tb_stored_time t" by (simp add: insert_event_def)
    ultimately show ?thesis using Cons.IH [of "insert_event a t"] Cons.prems(1,2) False by auto
  qed
qed simp

lemma prepareEventModels_mem:
  "prepareEventModels env i es = Inr ms \<Longrightarrow> e \<in> set es \<Longrightarrow>
     \<exists>h n m. toEventModel (PrepareEvent h n e) = Inr m \<and> m \<in> set ms"
  by (induction env i es arbitrary: ms rule: prepareEventModels.induct)
    (auto simp: rbind_Inr_iff, blast+)

lemma runInTx_refused:
  "body (rp_tables r) = None \<Longrightarrow> fst (runInTx body r) \<noteq> None \<and> rp_tables (snd (runInTx body r)) = rp_tables r"
  by (simp add: runInTx_def)

lemma insertEventModels_refused:
  "m \<in> set ms \<Longrightarrow> \<not> event_row_fits d m \<Longrightarrow> insertEventModels d ms t = None"
  by (auto simp: insertEventModels_def list_all_iff)

lemma toEventModel_row:
  "toEventModel e = Inr m \<Longrightarrow> er_RequestID m = ev_RequestID e \<and> er_RemoteAddr m = ev_RemoteAddr e \<and>
     er_Actor m = ev_Actor e"
  by (auto simp: toEventModel_def split: if_splits)

text \<open>An event that no row of a server dialect can hold.\<close>

definition oversized :: "event \<Rightarrow> bool" where
  "oversized e \<longleftrightarrow> 128 < utf8_length (ev_RequestID e) \<or> 64 < utf8_length (ev_RemoteAddr e) \<or>
     255 < utf8_length (ev_Actor e)"

lemma oversized_row:
  assumes "toEventModel (PrepareEvent h n e) = Inr m" and "oversized e" and "d \<noteq> DialectSQLite"
  shows "\<not> event_row_fits d m"
proof -
  have "utf8_length [] = 0" by (simp add: utf8_length_def)
  then show ?thesis
    using toEventModel_row [OF assms(1)] assms(2,3)
    by (auto simp: event_row_fits_def oversized_def split: if_splits)
qed

lemma oversized_refused:
  assumes "rp_dialect r \<noteq> DialectSQLite" and "e \<in> set es" and "oversized e"
  shows "fst (AppendAuditBatch env now es rs r) \<noteq> None \<and>
    rp_tables (snd (AppendAuditBatch env now es rs r)) = rp_tables r"
proof (cases "prepareEventModels env 0 es")
  case (Inl x)
  then show ?thesis using assms(2) by (auto simp: AppendAuditBatch_def)
next
  case (Inr ms)
  obtain h n m where m: "toEventModel (PrepareEvent h n e) = Inr m" "m \<in> set ms"
    using prepareEventModels_mem [OF Inr assms(2)] by blast
  have "insertEventModels (rp_dialect r) ms (rp_tables r) = None"
    by (rule insertEventModels_refused [OF m(2) oversized_row [OF m(1) assms(3,1)]])
  then show ?thesis
    using Inr assms(2) by (auto simp: AppendAuditBatch_def runInTx_def)
qed

section \<open>Properties\<close>

text \<open>
  C6. A batch is all or nothing: \<open>AppendAuditBatch\<close> leaves both tables as they were, or it stores
  every event identifier of the batch, adds exactly the counts of its rollups and keeps every
  earlier row in place.  When it returns no error, the batch is stored.
\<close>

theorem append_audit_batch_atomic:
  assumes "\<forall>e \<in> set es. ev_ID e \<noteq> []" and "AppendAuditBatch env now es rs r = (err, r')"
  shows "(rp_tables r' = rp_tables r \<or> batch_applied es rs (rp_tables r) (rp_tables r')) \<and>
    (err = None \<longrightarrow> batch_applied es rs (rp_tables r) (rp_tables r'))"
  using AppendAuditBatch_cases [OF assms] by blast

definition sample_event :: event where
  "sample_event = zero_event\<lparr>ev_ID := ''audit_1'', ev_Timestamp := 9, ev_Actor := ''a'',
     ev_Action := ''verify.request'', ev_Result := ''denied'', ev_StatusCode := 403\<rparr>"

definition sample_repo :: "dialectName \<Rightarrow> (nat \<Rightarrow> tx_outcome) \<Rightarrow> repository" where
  "sample_repo d oc = \<lparr>rp_dialect = d, rp_zone = fixed_zone 0, rp_tables = empty_tables, rp_outcomes = oc, rp_tx = 0\<rparr>"

definition sample_rollup :: metric_rollup where
  "sample_rollup = \<lparr>mr_BucketStart = 60000000000, mr_BucketSize = 60000000000, mr_Endpoint = ''verify'',
     mr_Method = ''POST'', mr_Action = ''verify.request'', mr_Result = ''denied'',
     mr_StatusClass = ''4xx'', mr_StatusCode = 403, mr_Count = 1\<rparr>"

theorem append_audit_batch_atomic_witness:
  "batch_applied [sample_event] [sample_rollup] empty_tables
     (rp_tables (snd (AppendAuditBatch (\<lambda>_. ([], 5)) 5 [sample_event] [sample_rollup]
        (sample_repo DialectPostgres (\<lambda>_. Commit)))))"
proof -
  let ?r = "sample_repo DialectPostgres (\<lambda>_. Commit)"
  have id: "\<forall>e \<in> set [sample_event]. ev_ID e \<noteq> []" by (simp add: sample_event_def)
  have ok: "fst (AppendAuditBatch (\<lambda>_. ([], 5)) 5 [sample_event] [sample_rollup] ?r) = None"
    by code_simp
  have t: "rp_tables ?r = empty_tables" by (simp add: sample_repo_def)
  show ?thesis
    using append_audit_batch_atomic [OF id surjective_pairing] ok t by metis
qed

text \<open>
  C7. Replays store an event once: however often a batch is tried, with whatever outcomes, lost
  acknowledgements included, the tables keep one row for an identifier, the identifiers grow by
  at most those of the batch, and the rollup counts grow by a whole multiple of the batch's.
\<close>

theorem replay_stores_once:
  assumes "tables_ok (rp_tables r)" and "\<forall>e \<in> set es. ev_ID e \<noteq> []"
  shows "tables_ok (rp_tables (replay envs nows es rs n r)) \<and> (\<exists>k \<le> n.
    rollup_total (rp_tables (replay envs nows es rs n r)) =
      rollup_total (rp_tables r) + int k * (\<Sum>r\<leftarrow>rs. effective_count r) \<and>
    event_ids (rp_tables (replay envs nows es rs n r)) = (if k = 0 then event_ids (rp_tables r) else event_ids (rp_tables r) \<union> ev_ID ` set es))"
proof (induction n)
  case 0
  then show ?case using assms(1) by auto
next
  case (Suc n)
  let ?q = "replay envs nows es rs n r"
  let ?q' = "snd (AppendAuditBatch (envs n) (nows n) es rs ?q)"
  have ok: "tables_ok (rp_tables ?q')"
    using run_repo_op_ok [of ?q "OpAppendAuditBatch (envs n) (nows n) es rs"] Suc by simp
  from Suc obtain k where k: "k \<le> n"
    "rollup_total (rp_tables ?q) = rollup_total (rp_tables r) + int k * (\<Sum>r\<leftarrow>rs. effective_count r)"
    "event_ids (rp_tables ?q) = (if k = 0 then event_ids (rp_tables r) else event_ids (rp_tables r) \<union> ev_ID ` set es)"
    by blast
  from AppendAuditBatch_cases [OF assms(2) surjective_pairing]
  consider "rp_tables ?q' = rp_tables ?q" | "batch_applied es rs (rp_tables ?q) (rp_tables ?q')"
    by blast
  then show ?case
  proof cases
    case 1
    then show ?thesis using ok k by (intro conjI exI [of _ k]) auto
  next
    case 2
    then show ?thesis
      using ok k by (intro conjI exI [of _ "Suc k"]) (auto simp: batch_applied_def algebra_simps)
  qed
qed

theorem replay_stores_once_witness:
  "tables_ok (rp_tables (replay (\<lambda>_ _. ([], 5)) (\<lambda>_. 5) [sample_event] [sample_rollup] 4
     (sample_repo DialectMySQL (\<lambda>i. if i < 2 then CommitUnacked else Commit))))"
proof -
  have ok: "tables_ok (rp_tables (sample_repo DialectMySQL (\<lambda>i. if i < 2 then CommitUnacked else Commit)))"
    by (simp add: sample_repo_def empty_tables_ok)
  have id: "\<forall>e \<in> set [sample_event]. ev_ID e \<noteq> []" by (simp add: sample_event_def)
  show ?thesis using replay_stores_once [OF ok id] by blast
qed

text \<open>
  C28. A lost acknowledgement counts a rollup twice: the batch whose commit was not acknowledged
  is sent again, the second attempt keeps its event rows but adds its rollup counts once more.
\<close>

theorem replay_double_counts:
  assumes "rp_outcomes r (rp_tx r) = CommitUnacked" and "rp_outcomes r (Suc (rp_tx r)) = Commit"
    and "es \<noteq> []" and "prepareEventModels env 0 es = Inr ms" and "list_all (event_row_fits (rp_dialect r)) ms"
    and "list_all (rollup_row_fits (rp_dialect r)) (prepareRollupModels now rs)"
    and "\<forall>r \<in> set rs. normal_rollup r"
  shows "fst (AppendAuditBatch env now es rs r) = Some StorageError \<and>
    fst (AppendAuditBatch env now es rs (snd (AppendAuditBatch env now es rs r))) = None \<and>
    rollup_total (rp_tables (replay (\<lambda>_. env) (\<lambda>_. now) es rs 2 r)) =
      rollup_total (rp_tables r) + 2 * (\<Sum>r\<leftarrow>rs. effective_count r)"
proof -
  let ?body = "\<lambda>t. Option.bind (insertEventModels (rp_dialect r) ms t)
      (upsertRollupModels (rp_dialect r) (prepareRollupModels now rs))"
  have A: "AppendAuditBatch env now es rs q = runInTx ?body q" if "rp_dialect q = rp_dialect r" for q
    using assms(3,4) that by (simp add: AppendAuditBatch_def)
  have B: "\<exists>t'. ?body t = Some t' \<and> rollup_total t' = rollup_total t + (\<Sum>r\<leftarrow>rs. effective_count r)" for t
  proof -
    obtain u where u: "insertEventModels (rp_dialect r) ms t = Some u"
      using assms(5) by (cases "ms = []") (auto simp: insertEventModels_def)
    obtain t' where t': "upsertRollupModels (rp_dialect r) (prepareRollupModels now rs) u = Some t'"
      using assms(6) prepareRollupModels_distinct [OF assms(7)] by (cases "prepareRollupModels now rs = []") (auto simp: upsertRollupModels_def)
    show ?thesis
      using u t' insertEventModels_effect [OF u] upsertRollupModels_effect [OF t']
      by (simp add: prepareRollupModels_total rollup_total_def)
  qed
  obtain t1 where t1: "?body (rp_tables r) = Some t1"
      "rollup_total t1 = rollup_total (rp_tables r) + (\<Sum>r\<leftarrow>rs. effective_count r)" using B by blast
  obtain t2 where t2: "?body t1 = Some t2"
      "rollup_total t2 = rollup_total t1 + (\<Sum>r\<leftarrow>rs. effective_count r)" using B by blast
  define r1 where "r1 = r\<lparr>rp_tx := Suc (rp_tx r), rp_tables := t1\<rparr>"
  have one: "AppendAuditBatch env now es rs r = (Some StorageError, r1)"
    using assms(1) t1(1) by (simp add: A runInTx_def r1_def)
  have "AppendAuditBatch env now es rs r1 = runInTx ?body r1"
    by (rule A) (simp add: r1_def)
  also have "\<dots> = (None, r1\<lparr>rp_tx := Suc (rp_tx r1), rp_tables := t2\<rparr>)"
    using assms(2) t2(1) by (simp add: runInTx_def r1_def)
  finally show ?thesis using one t1(2) t2(2) by (simp add: numeral_2_eq_2)
qed

theorem replay_double_counts_witness:
  "rollup_total (rp_tables (replay (\<lambda>_ _. ([], 5)) (\<lambda>_. 5) [sample_event] [sample_rollup] 2
     (sample_repo DialectPostgres (\<lambda>i. if i = 0 then CommitUnacked else Commit)))) = 2"
proof -
  let ?r = "sample_repo DialectPostgres (\<lambda>i. if i = 0 then CommitUnacked else Commit)"
  let ?env = "\<lambda>_. ([], 5)"
  let ?ms = "case prepareEventModels ?env 0 [sample_event] of Inr ms \<Rightarrow> ms"
  have 1: "rp_outcomes ?r (rp_tx ?r) = CommitUnacked" "rp_outcomes ?r (Suc (rp_tx ?r)) = Commit"
    by (simp_all add: sample_repo_def)
  have 2: "prepareEventModels ?env 0 [sample_event] = Inr ?ms" by code_simp
  have 3: "list_all (event_row_fits (rp_dialect ?r)) ?ms" by code_simp
  have 4: "list_all (rollup_row_fits (rp_dialect ?r)) (prepareRollupModels 5 [sample_rollup])"
    by code_simp
  have 5: "normal_rollup sample_rollup" by code_simp
  have 6: "rollup_total (rp_tables ?r) = 0" "effective_count sample_rollup = 1" by code_simp+
  show ?thesis
    using replay_double_counts [OF 1 _ 2 3 4] 5 6 by simp
qed

text \<open>
  C19. The tables stay consistent whatever is done to them: after every history of repository
  calls, with every choice of transaction outcomes, identifiers are unique, rows are in the
  order of their sequence numbers, no number is handed out twice and each rollup key has one row.
\<close>

theorem repository_invariant:
  assumes "tables_ok (rp_tables r)"
  shows "tables_ok (rp_tables (fold run_repo_op ops r))"
  using assms by (induction ops arbitrary: r) (simp_all add: run_repo_op_ok)

theorem repository_invariant_witness:
  "tables_ok (rp_tables (fold run_repo_op
     [OpAppendAuditBatch (\<lambda>_. ([], 5)) 5 [sample_event, sample_event] [sample_rollup],
      OpReset ''00'' 7 zero_event, OpAppendBatch (\<lambda>_. ([], 5)) [sample_event], OpPruneRetention 100 1]
     (sample_repo DialectSQLite (\<lambda>_. Commit))))"
  by (rule repository_invariant) (simp add: sample_repo_def empty_tables_ok)

text \<open>Reading metadata back, as a map.\<close>

lemma alookup_map_of: "alookup m k = map_of m k"
  by (induction m k rule: alookup.induct) simp_all

lemma alookup_fold_aupdate:
  "alookup (fold (\<lambda>(k, v). aupdate k (f v)) ms m) j =
     (case map_of (rev ms) j of None \<Rightarrow> alookup m j | Some v \<Rightarrow> Some (f v))"
proof (induction ms arbitrary: m)
  case (Cons a ms)
  obtain k v where a: "a = (k, v)" by (cases a)
  show ?case
    by (cases "map_of (rev ms) j") (auto simp: a Cons alookup_aupdate map_add_def split: option.splits)
qed simp

lemma map_of_sort_key: "distinct (map fst m) \<Longrightarrow> map_of (sort_key g m) = map_of m"
  by (intro map_of_inject_set [THEN iffD2]) (simp_all add: distinct_map image_set [symmetric])

lemma float_of_int_exact: "abs n < 2 ^ 53 \<Longrightarrow> float_of_int n = of_int n"
proof -
  assume "abs n < 2 ^ 53"
  then have "nat (abs n) < 2 ^ 53" by simp
  from to_float64_nat [OF this] show ?thesis by (simp add: float_of_int_def)
qed

text \<open>Members that JSON keeps: valid UTF-8, and integers below 2^53; numbers come back as floats.\<close>

fun json_exact :: "meta_value \<Rightarrow> bool" where
  "json_exact (MString s) = valid_utf8 s"
| "json_exact (MInt n) = (abs n < 2 ^ 53)"
| "json_exact (MInt64 n) = (abs n < 2 ^ 53)"
| "json_exact v = True"

fun as_float :: "meta_value \<Rightarrow> meta_value" where
  "as_float (MInt n) = MFloat64 (Fin (of_int n))"
| "as_float (MInt64 n) = MFloat64 (Fin (of_int n))"
| "as_float v = v"

lemma json_exact_value: "json_exact v \<Longrightarrow> json_decoded (json_text_value v) = as_float v"
  by (cases v) (simp_all add: utf8_coerce_valid float_of_int_exact)

lemma marshal_exact:
  assumes "list_all (\<lambda>(k, v). valid_utf8 k) md"
  shows "marshal_metadata md = map (\<lambda>(k, v). (k, json_text_value v)) (sort_key (\<lambda>(k, v). map byte k) md)"
  using assms unfolding marshal_metadata_def by (intro map_cong refl) (auto simp: list_all_iff utf8_coerce_valid)

lemma map_of_values: "map_of (map (\<lambda>(k, v). (k, f v)) m) j = map_option f (map_of m j)"
  by (induction m) auto

lemma map_of_rev: "distinct (map fst m) \<Longrightarrow> map_of (rev m) = map_of m"
  by (intro map_of_inject_set [THEN iffD2]) (simp_all add: rev_map [symmetric])

lemma metadata_read_back:
  assumes d: "distinct (map fst md)" and ex: "list_all (\<lambda>(k, v). valid_utf8 k \<and> json_exact v) md"
  shows "alookup (unmarshal_metadata (marshal_metadata md)) j = map_option as_float (alookup md j)"
proof -
  let ?s = "sort_key (\<lambda>(k, v). map byte k) md"
  have m: "marshal_metadata md = map (\<lambda>(k, v). (k, json_text_value v)) ?s"
    by (rule marshal_exact) (use ex in \<open>auto simp: list_all_iff\<close>)
  have ds: "distinct (map fst ?s)" using d by (simp add: distinct_map)
  have "distinct (map fst (marshal_metadata md))" using ds by (simp add: m comp_def case_prod_unfold)
  then have "alookup (unmarshal_metadata (marshal_metadata md)) j =
      map_option json_decoded (map_of (marshal_metadata md) j)"
    by (simp add: unmarshal_metadata_def alookup_fold_aupdate map_of_rev split: option.split)
  also have "\<dots> = map_option (\<lambda>v. json_decoded (json_text_value v)) (map_of md j)"
    by (simp add: m map_of_values map_of_sort_key [OF d] option.map_comp comp_def)
  also have "\<dots> = map_option as_float (map_of md j)"
    using ex by (intro map_option_cong refl) (auto simp: list_all_iff json_exact_value dest!: map_of_SomeD)
  finally show ?thesis by (simp add: alookup_map_of)
qed

text \<open>The texts of an event, in the form that every driver keeps.\<close>

definition plain_texts :: "event \<Rightarrow> bool" where
  "plain_texts e = list_all (\<lambda>s. valid_utf8 s \<and> CHR 0x00 \<notin> set s)
     [ev_ID e, ev_Actor e, ev_ActorSource e, ev_Action e, ev_Method e, ev_Path e, ev_Endpoint e, ev_Result e,
      ev_RemoteAddr e, ev_UserAgent e, ev_RequestID e, ev_ErrorCode e, ev_Message e]"

text \<open>
  C22. An acknowledged event can be read back: after \<open>AppendBatch\<close> returned no error, \<open>Get\<close> of
  the identifier of a new event of the batch, whose texts are valid UTF-8 without NUL, returns that
  event, with a sequence number, its time in the precision of the database and its metadata as JSON
  carries them; nothing else has changed.  The metadata come back under the same keys with the same
  values, integers as floating point numbers, when keys and strings are valid UTF-8 and integers are
  below 2^53 in size; else invalid bytes come back as U+FFFD and integers rounded.
\<close>

theorem get_after_append:
  assumes ok: "tables_ok (rp_tables r)" and app: "AppendBatch env es r = (None, r')"
    and e: "e \<in> set es" "\<forall>e \<in> set es. prepared e \<and> ev_Result e \<noteq> []"
    and fresh: "distinct (map ev_ID es)" "ev_ID e \<notin> event_ids (rp_tables r)"
    and read: "rp_outcomes r' (rp_tx r') = Commit"
    and plain: "plain_texts e" "distinct (map fst (ev_Metadata e))"
  shows "\<exists>s md. fst (Get (ev_ID e) r') =
      Inr (Some (e\<lparr>ev_Seq := s, ev_Timestamp := tb_stored_time (rp_tables r) (ev_Timestamp e), ev_Metadata := md\<rparr>)) \<and>
    md = unmarshal_metadata (marshal_metadata (ev_Metadata e)) \<and>
    (list_all (\<lambda>(k, v). valid_utf8 k \<and> json_exact v) (ev_Metadata e) \<longrightarrow>
      (\<forall>k. alookup md k = map_option as_float (alookup (ev_Metadata e) k)))"
proof -
  from e(1) app obtain ms where ms: "prepareEventModels env 0 es = Inr ms"
    and tx: "runInTx (insertEventModels (rp_dialect r) ms) r = (None, r')"
    by (auto simp: AppendBatch_def split: sum.splits if_splits)
  obtain t' where t': "insertEventModels (rp_dialect r) ms (rp_tables r) = Some t'" "rp_tables r' = t'"
    using tx by (rule runInTx_cases) auto
  obtain h n m where m: "toEventModel (PrepareEvent h n e) = Inr m" "m \<in> set ms"
    using prepareEventModels_mem [OF ms e(1)] by blast
  have prep: "PrepareEvent h n e = e" using e by (simp add: PrepareEvent_id)
  have ids: "map er_ID ms = map ev_ID es"
    using prepareEventModels_ids [OF ms] e(2) by (simp add: prepared_def)
  have mid: "er_ID m = ev_ID e" using toEventModel_Inr [OF m(1)] prep by simp
  define f where "f = tb_stored_time (rp_tables r)"
  have fold: "t' = fold insert_event ms (rp_tables r)"
    using t'(1) m(2) by (auto simp: insertEventModels_def split: if_splits)
  obtain s where s: "m\<lparr>er_Seq := s, er_Timestamp := f (er_Timestamp m)\<rparr> \<in> set (tb_events t')"
    using fold_insert_event_stored [OF m(2), of "rp_tables r"] fresh mid fold by (auto simp: ids f_def)
  have "distinct (map er_ID (tb_events t'))"
    using fold_insert_event(1) [OF ok] fold by (simp add: tables_ok_def)
  from find_distinct [OF this s] mid
  have "find (\<lambda>m. er_ID m = ev_ID e) (tb_events t') =
      Some (m\<lparr>er_Seq := s, er_Timestamp := f (er_Timestamp m)\<rparr>)" by simp
  moreover have "fromEventModel (m\<lparr>er_Seq := s, er_Timestamp := f (er_Timestamp m)\<rparr>) =
      e\<lparr>ev_Seq := s, ev_Timestamp := f (ev_Timestamp e),
        ev_Metadata := unmarshal_metadata (marshal_metadata (ev_Metadata e))\<rparr>"
    using m(1) e by (auto simp: prep toEventModel_def fromEventModel_def prepared_def Truncate_def
        unmarshal_metadata_def marshal_metadata_def split: if_splits)
  ultimately show ?thesis using read t'(2) metadata_read_back [OF plain(2)] by (auto simp: Get_def f_def)
qed

text \<open>An event with metadata: a text, an integer and a flag.\<close>

definition metadata_event :: event where
  "metadata_event = sample_event\<lparr>ev_Metadata :=
     [(''reason'', MString ''why''), (''attempts'', MInt 3), (''limitedUse'', MBool True)]\<rparr>"

theorem get_after_append_witness:
  "\<exists>s md. fst (Get ''audit_1'' (snd (AppendBatch (\<lambda>_. ([], 5)) [metadata_event]
     (sample_repo DialectMySQL (\<lambda>_. Commit))))) =
       Inr (Some (metadata_event\<lparr>ev_Seq := s, ev_Timestamp := 0, ev_Metadata := md\<rparr>)) \<and>
     alookup md ''reason'' = Some (MString ''why'') \<and> alookup md ''attempts'' = Some (MFloat64 (Fin 3))"
proof -
  let ?r = "sample_repo DialectMySQL (\<lambda>_. Commit)"
  let ?env = "\<lambda>_. ([], 5)"
  let ?a = "AppendBatch ?env [metadata_event] ?r"
  have 1: "tables_ok (rp_tables ?r)" by (simp add: sample_repo_def empty_tables_ok)
  have 2: "?a = (None, snd ?a)"
    by (rule prod_eqI, code_simp, simp)
  have 3: "\<forall>e \<in> set [metadata_event]. prepared e \<and> ev_Result e \<noteq> []" by code_simp
  have 4: "ev_ID metadata_event \<notin> event_ids (rp_tables ?r)"
    by (simp add: sample_repo_def empty_tables_def event_ids_def)
  have 5: "rp_outcomes (snd ?a) (rp_tx (snd ?a)) = Commit" by code_simp
  have 6: "plain_texts metadata_event" by code_simp
  have 7: "distinct (map fst (ev_Metadata metadata_event))" by code_simp
  have 8: "list_all (\<lambda>(k, v). valid_utf8 k \<and> json_exact v) (ev_Metadata metadata_event)" by code_simp
  have id: "ev_ID metadata_event = ''audit_1''" by (simp add: metadata_event_def sample_event_def)
  have t: "tb_stored_time (rp_tables ?r) (ev_Timestamp metadata_event) = 0"
    by (simp add: metadata_event_def sample_event_def zero_event_def sample_repo_def empty_tables_def)
  have v: "map_option as_float (alookup (ev_Metadata metadata_event) ''reason'') = Some (MString ''why'')"
    "map_option as_float (alookup (ev_Metadata metadata_event) ''attempts'') = Some (MFloat64 (Fin 3))"
    by (simp_all add: metadata_event_def)
  obtain s md where g: "fst (Get (ev_ID metadata_event) (snd ?a)) =
      Inr (Some (metadata_event\<lparr>ev_Seq := s, ev_Timestamp := tb_stored_time (rp_tables ?r) (ev_Timestamp metadata_event),
        ev_Metadata := md\<rparr>))"
    "\<forall>k. alookup md k = map_option as_float (alookup (ev_Metadata metadata_event) k)"
    using get_after_append [OF 1 2 _ 3 _ 4 5 6 7] 8 by auto
  show ?thesis
    using g(1) g(2) [THEN spec, of "''reason''"] g(2) [THEN spec, of "''attempts''"] v
    unfolding id t by (intro exI [of _ s] exI [of _ md]) simp
qed

text \<open>
  A text cut inside a character, as \<open>Truncate\<close> cuts it, comes back with U+FFFD in its place.
\<close>

lemma cut_text_replaced:
  "alookup (unmarshal_metadata (marshal_metadata [(''k'', MString [CHR ''a'', CHR 0xC3])])) ''k'' =
     Some (MString (CHR ''a'' # replacement))"
  by (simp add: marshal_metadata_def unmarshal_metadata_def rune_len_def byte_def)

lemma toEventModel_Actor: "toEventModel e = Inr m \<Longrightarrow> er_Actor m = ev_Actor e"
  by (auto simp: toEventModel_def split: if_splits)

text \<open>What a reset does: nothing, with an error, or it leaves one row made from the marker.\<close>

lemma Reset_effect:
  assumes "Reset hex now marker r = (err, r')"
  shows "(err \<noteq> None \<and> rp_tables r' = rp_tables r) \<or>
    (\<exists>m. tb_events (rp_tables r') = [m] \<and> tb_rollups (rp_tables r') = [] \<and>
      er_ID m = (if ev_ID marker = [] then audit_id hex else ev_ID marker) \<and>
      er_Seq m = tb_next_seq (rp_tables r) \<and> er_Action m = ev_Action marker \<and>
      er_Actor m = (if ev_Actor marker = [] then ''anonymous'' else ev_Actor marker))"
proof (cases "toEventModel (PrepareEvent hex now marker)")
  case (Inl e)
  then show ?thesis using assms by (auto simp: Reset_def)
next
  case (Inr m)
  have m: "er_Action m = ev_Action marker" "er_ID m = (if ev_ID marker = [] then audit_id hex else ev_ID marker)"
    using Inr toEventModel_Inr [OF Inr] by (auto simp: toEventModel_def split: if_splits)
  have actor: "er_Actor m = (if ev_Actor marker = [] then ''anonymous'' else ev_Actor marker)"
  proof -
    have "ev_Actor (PrepareEvent hex now marker) = (if ev_Actor marker = [] then ''anonymous'' else ev_Actor marker)"
      by (simp add: PrepareEvent_def Let_def)
    with toEventModel_Actor [OF Inr] show ?thesis by (simp only:)
  qed
  have "runInTx (\<lambda>t. insertEventModels (rp_dialect r) [m] (t\<lparr>tb_events := [], tb_rollups := []\<rparr>)) r = (err, r')"
    using assms Inr by (simp add: Reset_def)
  then show ?thesis
  proof (rule runInTx_cases)
    fix t
    assume i: "insertEventModels (rp_dialect r) [m] ((rp_tables r)\<lparr>tb_events := [], tb_rollups := []\<rparr>) = Some t"
      and t: "rp_tables r' = t"
    from i have "tb_events t = [m\<lparr>er_Seq := tb_next_seq (rp_tables r),
        er_Timestamp := tb_stored_time (rp_tables r) (er_Timestamp m)\<rparr>]" "tb_rollups t = []"
      by (simp_all add: insertEventModels_def insert_event_def split: if_splits) (drule sym, simp)+
    with m actor t show ?thesis
      by (intro disjI2 exI [of _ "m\<lparr>er_Seq := tb_next_seq (rp_tables r),
          er_Timestamp := tb_stored_time (rp_tables r) (er_Timestamp m)\<rparr>"] conjI) simp_all
  qed simp
qed

text \<open>
  A successful reset leaves exactly the marker: every event and every rollup recorded before
  is gone, one row with the marker's action remains.  A failed one changes nothing, or has done
  the whole reset although the acknowledgement was lost.
\<close>

lemma reset_leaves_marker:
  assumes "Reset hex now marker r = (err, r')"
  shows "(err \<noteq> None \<and> rp_tables r' = rp_tables r) \<or>
    (\<exists>m. tb_events (rp_tables r') = [m] \<and> tb_rollups (rp_tables r') = [] \<and>
      er_ID m = (if ev_ID marker = [] then audit_id hex else ev_ID marker) \<and>
      er_Seq m = tb_next_seq (rp_tables r) \<and> er_Action m = ev_Action marker)"
  using Reset_effect [OF assms] by blast

end
