(* ===== verification/AuditRecorder.thy ===== *)
theory AuditRecorder
  imports AuditPolicy AuditRepo
begin

text \<open>
  The recorders of \<open>internal/audit/recorder.go\<close> as state passing functions: configuration and
  defaults, the statistics counters, the synchronous recorder, and the flush of a batch with its
  retries.  A recorder calls its repository through the record \<open>repo_ops\<close>; the optional
  component is the type assertion to \<open>AtomicBatchRepository\<close>.  The locale \<open>audit_store\<close> states
  what a repository promises; the bun repository is an instance.  The writer goroutine and its
  producers are in the theory \<open>AuditAsync\<close>.
\<close>

section \<open>Repositories as seen by a recorder\<close>

record 's repo_ops =
  op_AppendBatch :: "event list \<Rightarrow> 's \<Rightarrow> audit_error option \<times> 's"
  op_AppendMetricRollups :: "metric_rollup list \<Rightarrow> 's \<Rightarrow> audit_error option \<times> 's"
  op_AppendAuditBatch :: "(event list \<Rightarrow> metric_rollup list \<Rightarrow> 's \<Rightarrow> audit_error option \<times> 's) option"

section \<open>Configuration and counters\<close>

record AsyncConfig =
  ac_ChannelSize :: int
  ac_BatchSize :: int
  ac_FlushInterval :: duration
  ac_ShutdownFlushTimeout :: duration
  ac_DropOnFull :: bool
  ac_EnqueueTimeout :: duration
  ac_CriticalEnqueueTimeout :: duration
  ac_RetryMaxAttempts :: int
  ac_RetryInitialBackoff :: duration
  ac_RetryMaxBackoff :: duration

definition DefaultAsyncConfig :: AsyncConfig where
  "DefaultAsyncConfig =
     \<lparr>ac_ChannelSize = 50000, ac_BatchSize = 1000, ac_FlushInterval = 100 * millisecond,
      ac_ShutdownFlushTimeout = 5 * second, ac_DropOnFull = True,
      ac_EnqueueTimeout = 5 * millisecond, ac_CriticalEnqueueTimeout = 50 * millisecond,
      ac_RetryMaxAttempts = 3, ac_RetryInitialBackoff = 100 * millisecond,
      ac_RetryMaxBackoff = 2 * second\<rparr>"

text \<open>The normalisation at the start of \<open>NewAsyncRecorder\<close>.\<close>

definition positive_or :: "int \<Rightarrow> int \<Rightarrow> int" where
  "positive_or v d = (if v \<le> 0 then d else v)"

definition normalize_async_config :: "AsyncConfig \<Rightarrow> AsyncConfig" where
  "normalize_async_config cfg =
     (let d = DefaultAsyncConfig
      in \<lparr>ac_ChannelSize = positive_or (ac_ChannelSize cfg) (ac_ChannelSize d),
          ac_BatchSize = positive_or (ac_BatchSize cfg) (ac_BatchSize d),
          ac_FlushInterval = positive_or (ac_FlushInterval cfg) (ac_FlushInterval d),
          ac_ShutdownFlushTimeout =
            positive_or (ac_ShutdownFlushTimeout cfg) (ac_ShutdownFlushTimeout d),
          ac_DropOnFull = ac_DropOnFull cfg,
          ac_EnqueueTimeout = positive_or (ac_EnqueueTimeout cfg) (ac_EnqueueTimeout d),
          ac_CriticalEnqueueTimeout =
            positive_or (ac_CriticalEnqueueTimeout cfg) (ac_CriticalEnqueueTimeout d),
          ac_RetryMaxAttempts = positive_or (ac_RetryMaxAttempts cfg) (ac_RetryMaxAttempts d),
          ac_RetryInitialBackoff =
            positive_or (ac_RetryInitialBackoff cfg) (ac_RetryInitialBackoff d),
          ac_RetryMaxBackoff = positive_or (ac_RetryMaxBackoff cfg) (ac_RetryMaxBackoff d)\<rparr>)"

record RecorderStats =
  st_EnqueueTotal :: int
  st_EnqueueErrorTotal :: int
  st_DroppedTotal :: int
  st_ChannelFullTotal :: int
  st_FlushTotal :: int
  st_FlushErrorTotal :: int
  st_RetryTotal :: int
  st_RetryExhaustedTotal :: int
  st_PolicySkippedTotal :: int
  st_SampledOutTotal :: int
  st_RollupFlushTotal :: int
  st_RollupFlushError :: int

definition zero_stats :: RecorderStats where
  "zero_stats = \<lparr>st_EnqueueTotal = 0, st_EnqueueErrorTotal = 0, st_DroppedTotal = 0,
     st_ChannelFullTotal = 0, st_FlushTotal = 0, st_FlushErrorTotal = 0, st_RetryTotal = 0,
     st_RetryExhaustedTotal = 0, st_PolicySkippedTotal = 0, st_SampledOutTotal = 0,
     st_RollupFlushTotal = 0, st_RollupFlushError = 0\<rparr>"

definition count_if :: "bool \<Rightarrow> int \<Rightarrow> int" where
  "count_if b n = (if b then n + 1 else n)"

section \<open>Flushing\<close>

definition flushOnce ::
    "'s repo_ops \<Rightarrow> event list \<Rightarrow> metric_rollup list \<Rightarrow> RecorderStats \<times> 's
      \<Rightarrow> audit_error option \<times> RecorderStats \<times> 's" where
  "flushOnce ops events rollups = (\<lambda>(st, s).
     case op_AppendAuditBatch ops of
       Some appendAudit \<Rightarrow>
         (case appendAudit events rollups s of
            (Some err, s') \<Rightarrow>
              (Some err, st\<lparr>st_FlushErrorTotal := count_if (events \<noteq> []) (st_FlushErrorTotal st),
                            st_RollupFlushError := count_if (rollups \<noteq> []) (st_RollupFlushError st)\<rparr>, s')
          | (None, s') \<Rightarrow>
              (None, st\<lparr>st_FlushTotal := count_if (events \<noteq> []) (st_FlushTotal st),
                        st_RollupFlushTotal := count_if (rollups \<noteq> []) (st_RollupFlushTotal st)\<rparr>, s'))
     | None \<Rightarrow>
         (let (err1, st1, s1) =
            (if events = [] then (None, st, s)
             else case op_AppendBatch ops events s of
                    (Some err, s') \<Rightarrow> (Some err, st\<lparr>st_FlushErrorTotal := st_FlushErrorTotal st + 1\<rparr>, s')
                  | (None, s') \<Rightarrow> (None, st\<lparr>st_FlushTotal := st_FlushTotal st + 1\<rparr>, s'))
          in if err1 \<noteq> None then (err1, st1, s1)
             else if rollups = [] then (None, st1, s1)
             else case op_AppendMetricRollups ops rollups s1 of
                    (Some err, s') \<Rightarrow>
                      (Some err, st1\<lparr>st_RollupFlushError := st_RollupFlushError st1 + 1\<rparr>, s')
                  | (None, s') \<Rightarrow>
                      (None, st1\<lparr>st_RollupFlushTotal := st_RollupFlushTotal st1 + 1\<rparr>, s')))"

text \<open>
  The loop of \<open>flushWithRetry\<close> with the number of attempts that are left.  \<open>cancelled i\<close> tells
  whether the context is done while the loop waits after attempt \<open>i\<close>; the second component of
  the result lists the waits.  Doubling the backoff wraps around at 64 bits.
\<close>

definition next_backoff :: "AsyncConfig \<Rightarrow> duration \<Rightarrow> duration" where
  "next_backoff cfg backoff =
     (let b = wrap64 (2 * backoff) in if ac_RetryMaxBackoff cfg < b then ac_RetryMaxBackoff cfg else b)"

fun retry_loop ::
    "AsyncConfig \<Rightarrow> 's repo_ops \<Rightarrow> (nat \<Rightarrow> bool) \<Rightarrow> event list \<Rightarrow> metric_rollup list
      \<Rightarrow> nat \<Rightarrow> nat \<Rightarrow> audit_error option \<Rightarrow> duration \<Rightarrow> RecorderStats \<times> 's
      \<Rightarrow> audit_error option \<times> duration list \<times> RecorderStats \<times> 's" where
  "retry_loop cfg ops cancelled events rollups attempt 0 lastErr backoff (st, s) =
     (lastErr, [], st\<lparr>st_RetryExhaustedTotal := st_RetryExhaustedTotal st + 1\<rparr>, s)"
| "retry_loop cfg ops cancelled events rollups attempt (Suc left) lastErr backoff (st, s) =
     (case flushOnce ops events rollups (st, s) of
        (None, st1, s1) \<Rightarrow> (None, [], st1, s1)
      | (Some err, st1, s1) \<Rightarrow>
          let st2 = st1\<lparr>st_RetryTotal := st_RetryTotal st1 + 1\<rparr>
          in if left = 0
             then (Some err, [], st2\<lparr>st_RetryExhaustedTotal := st_RetryExhaustedTotal st2 + 1\<rparr>, s1)
             else if cancelled attempt then (Some ContextDone, [backoff], st2, s1)
             else (case retry_loop cfg ops cancelled events rollups (Suc attempt) left (Some err)
                        (next_backoff cfg backoff) (st2, s1) of
                     (err', waits, st') \<Rightarrow> (err', backoff # waits, st')))"

definition flushWithRetry ::
    "AsyncConfig \<Rightarrow> 's repo_ops \<Rightarrow> (nat \<Rightarrow> bool) \<Rightarrow> event list \<Rightarrow> metric_rollup list \<Rightarrow> RecorderStats \<times> 's
      \<Rightarrow> audit_error option \<times> duration list \<times> RecorderStats \<times> 's" where
  "flushWithRetry cfg ops cancelled events rollups =
     retry_loop cfg ops cancelled events rollups 1 (nat (ac_RetryMaxAttempts cfg)) None
       (ac_RetryInitialBackoff cfg)"

section \<open>The synchronous recorder\<close>

record 's sync_recorder =
  sr_repo :: 's
  sr_policy :: "Policy option"
  sr_stats :: RecorderStats

definition NewSyncRecorder :: "'s \<Rightarrow> Policy option \<Rightarrow> 's sync_recorder" where
  "NewSyncRecorder repo policy = \<lparr>sr_repo = repo, sr_policy = policy, sr_stats = zero_stats\<rparr>"

text \<open>\<open>g\<close> is the random generator a nil policy would be created with.\<close>

definition sync_Record ::
    "'s repo_ops \<Rightarrow> string \<Rightarrow> time \<Rightarrow> rng \<Rightarrow> event \<Rightarrow> 's sync_recorder
      \<Rightarrow> audit_error option \<times> 's sync_recorder" where
  "sync_Record ops hex now g event0 r0 =
     (let event = PrepareEvent hex now event0;
          (decision, policy) = DecideOpt event (sr_policy r0) g;
          r = r0\<lparr>sr_policy := policy\<rparr>;
          rollups = (if dec_CountMetric decision then [NewMetricRollup event] else [])
      in if \<not> dec_Persist decision then
           (let (err, s) = (if rollups = [] then (None, sr_repo r)
                            else op_AppendMetricRollups ops rollups (sr_repo r));
                r1 = r\<lparr>sr_repo := s\<rparr>
            in if err \<noteq> None then (err, r1)
               else (None, r1\<lparr>sr_stats := (sr_stats r1)
                       \<lparr>st_PolicySkippedTotal := st_PolicySkippedTotal (sr_stats r1) + 1,
                        st_SampledOutTotal := count_if (dec_SampledOut decision)
                          (st_SampledOutTotal (sr_stats r1))\<rparr>\<rparr>))
         else
           (let r1 = r\<lparr>sr_stats := (sr_stats r)
                  \<lparr>st_EnqueueTotal := st_EnqueueTotal (sr_stats r) + 1\<rparr>\<rparr>
            in case (rollups, op_AppendAuditBatch ops) of
                 (_ # _, Some appendAudit) \<Rightarrow>
                   (let (err, s) = appendAudit [event] rollups (sr_repo r1) in (err, r1\<lparr>sr_repo := s\<rparr>))
               | _ \<Rightarrow>
                   (let (err, s) = (if rollups = [] then (None, sr_repo r1)
                                    else op_AppendMetricRollups ops rollups (sr_repo r1))
                    in if err \<noteq> None then (err, r1\<lparr>sr_repo := s\<rparr>)
                       else let (err', s') = op_AppendBatch ops [event] s
                            in (err', r1\<lparr>sr_repo := s'\<rparr>))))"

section \<open>What a repository promises\<close>

text \<open>
  An append never forgets an identifier and never stores a foreign one, whatever it returns;
  without an error everything is stored and the rollup counts have grown by the batch's.
\<close>

definition appended ::
    "('s \<Rightarrow> string set) \<Rightarrow> ('s \<Rightarrow> int) \<Rightarrow> event list \<Rightarrow> metric_rollup list \<Rightarrow> audit_error option
      \<Rightarrow> 's \<Rightarrow> 's \<Rightarrow> bool" where
  "appended ids tot es rs err s s' \<longleftrightarrow>
     ids s \<subseteq> ids s' \<and> ids s' \<subseteq> ids s \<union> ev_ID ` set es \<and> tot s \<le> tot s' \<and>
     (err = None \<longrightarrow> ev_ID ` set es \<subseteq> ids s' \<and> tot s + (\<Sum>r\<leftarrow>rs. effective_count r) \<le> tot s')"

definition identified :: "event list \<Rightarrow> bool" where
  "identified es \<longleftrightarrow> list_all (\<lambda>e. ev_ID e \<noteq> []) es"

locale audit_store =
  fixes ops :: "'s repo_ops" and inv :: "'s \<Rightarrow> bool" and ids :: "'s \<Rightarrow> string set" and tot :: "'s \<Rightarrow> int"
  assumes batch: "inv s \<Longrightarrow> identified es \<Longrightarrow> op_AppendBatch ops es s = (err, s') \<Longrightarrow>
      inv s' \<and> appended ids tot es [] err s s'"
    and rollups: "inv s \<Longrightarrow> op_AppendMetricRollups ops rs s = (err, s') \<Longrightarrow>
      inv s' \<and> appended ids tot [] rs err s s'"
    and atomic: "inv s \<Longrightarrow> identified es \<Longrightarrow> op_AppendAuditBatch ops = Some f \<Longrightarrow> f es rs s = (err, s') \<Longrightarrow>
      inv s' \<and> appended ids tot es rs err s s'"
begin

lemma flushOnce_appended:
  assumes "inv s" and "identified es" and "flushOnce ops es rs (st, s) = (err, st', s')"
  shows "inv s' \<and> appended ids tot es rs err s s'"
proof (cases "op_AppendAuditBatch ops")
  case (Some f)
  obtain e t where f: "f es rs s = (e, t)" by (cases "f es rs s")
  have "err = e \<and> s' = t"
    using assms(3) Some f by (auto simp: flushOnce_def split: option.splits)
  then show ?thesis using atomic [OF assms(1,2) Some f] by simp
next
  case None
  obtain e1 s1 where b: "op_AppendBatch ops es s = (e1, s1)" by (cases "op_AppendBatch ops es s")
  from batch [OF assms(1,2) b] have B: "inv s1" "appended ids tot es [] e1 s s1" by auto
  show ?thesis
  proof (cases "es = []")
    case True
    obtain e2 s2 where r: "op_AppendMetricRollups ops rs s = (e2, s2)"
      by (cases "op_AppendMetricRollups ops rs s")
    from assms(3) None True r rollups [OF assms(1) r] assms(1) show ?thesis
      by (auto simp: flushOnce_def appended_def split: if_splits option.splits)
  next
    case False
    obtain e2 s2 where r: "op_AppendMetricRollups ops rs s1 = (e2, s2)"
      by (cases "op_AppendMetricRollups ops rs s1")
    from assms(3) None False b r rollups [OF B(1) r] B show ?thesis
      by (auto simp: flushOnce_def appended_def split: if_splits option.splits)
  qed
qed

lemma appended_trans:
  "appended ids tot es rs (Some e) s s1 \<Longrightarrow> appended ids tot es rs err s1 s2 \<Longrightarrow>
     appended ids tot es rs err s s2"
  by (auto simp: appended_def)

lemma retry_loop_appended:
  "inv s \<Longrightarrow> identified es \<Longrightarrow>
   retry_loop cfg ops cancelled es rs attempt left lastErr backoff (st, s) = (err, waits, st', s') \<Longrightarrow>
   left \<noteq> 0 \<Longrightarrow> inv s' \<and> appended ids tot es rs err s s'"
proof (induction left arbitrary: attempt lastErr backoff st s err waits st' s')
  case (Suc left)
  obtain e st1 s1 where o1: "flushOnce ops es rs (st, s) = (e, st1, s1)"
    by (cases "flushOnce ops es rs (st, s)") auto
  note F = flushOnce_appended [OF Suc.prems(1,2) o1]
  show ?case
  proof (cases e)
    case None
    then show ?thesis using Suc.prems(3) o1 F by simp
  next
    case (Some err0)
    have keep: "appended ids tot es rs (Some err0') s s1" for err0'
      using F Some by (simp add: appended_def)
    show ?thesis
    proof (cases "left = 0 \<or> cancelled attempt")
      case True
      then show ?thesis using Suc.prems(3) o1 F Some keep by (auto simp: Let_def split: if_splits)
    next
      case False
      obtain err' waits' st2 s2 where rec: "retry_loop cfg ops cancelled es rs (Suc attempt) left (Some err0)
          (next_backoff cfg backoff) (st1\<lparr>st_RetryTotal := st_RetryTotal st1 + 1\<rparr>, s1) = (err', waits', st2, s2)"
        using prod_cases4 by blast
      have "err = err'" "s' = s2" using Suc.prems(3) o1 Some False rec by (auto simp: Let_def)
      then show ?thesis
        using Suc.IH [OF _ Suc.prems(2) rec] F False appended_trans [OF keep] by auto
    qed
  qed
qed simp

lemma flushWithRetry_appended:
  assumes "inv s" and "identified es" and "0 < ac_RetryMaxAttempts cfg"
    and "flushWithRetry cfg ops cancelled es rs (st, s) = (err, waits, st', s')"
  shows "inv s' \<and> appended ids tot es rs err s s'"
  using retry_loop_appended [OF assms(1,2) assms(4) [unfolded flushWithRetry_def]] assms(3) by simp

lemma sync_Record_appended:
  assumes "inv (sr_repo r)" and "sync_Record ops hex now g e r = (err, r')"
  defines "ev \<equiv> PrepareEvent hex now e"
  defines "d \<equiv> fst (DecideOpt ev (sr_policy r) g)"
  shows "inv (sr_repo r') \<and>
    appended ids tot (if dec_Persist d then [ev] else [])
      (if dec_CountMetric d then [NewMetricRollup ev] else []) err (sr_repo r) (sr_repo r')"
proof -
  obtain p where dp: "DecideOpt ev (sr_policy r) g = (d, p)" by (metis d_def prod.collapse)
  have idd: "identified [ev]" by (simp add: identified_def ev_def)
  define rs where "rs = (if dec_CountMetric d then [NewMetricRollup ev] else [])"
  obtain e1 s1 where m: "(if rs = [] then (None, sr_repo r) else op_AppendMetricRollups ops rs (sr_repo r)) = (e1, s1)"
    by (cases "if rs = [] then (None, sr_repo r) else op_AppendMetricRollups ops rs (sr_repo r)") auto
  have M: "inv s1 \<and> appended ids tot [] rs e1 (sr_repo r) s1"
  proof (cases "rs = []")
    case False
    with m have "op_AppendMetricRollups ops rs (sr_repo r) = (e1, s1)" by simp
    from rollups [OF assms(1) this] show ?thesis by simp
  qed (use m assms(1) in \<open>auto simp: appended_def\<close>)
  obtain e2 s2 where b: "op_AppendBatch ops [ev] s1 = (e2, s2)"
    by (cases "op_AppendBatch ops [ev] s1")
  from batch [OF _ idd b] M have B: "inv s2" "appended ids tot [ev] [] e2 s1 s2" by auto
  have MB: "e1 = None \<Longrightarrow> appended ids tot [ev] rs e2 (sr_repo r) s2"
    "appended ids tot [ev] rs (Some x) (sr_repo r) s1" for x
    using M B by (auto simp: appended_def)
  consider "\<not> dec_Persist d" | f where "dec_Persist d" "rs \<noteq> []" "op_AppendAuditBatch ops = Some f"
    | "dec_Persist d" "rs = [] \<or> op_AppendAuditBatch ops = None"
    by (cases "op_AppendAuditBatch ops") auto
  then show ?thesis
  proof cases
    case 1
    have "fst (sync_Record ops hex now g e r) = e1 \<and> sr_repo (snd (sync_Record ops hex now g e r)) = s1"
    proof (cases "dec_CountMetric d")
      case True
      with m have "op_AppendMetricRollups ops [NewMetricRollup ev] (sr_repo r) = (e1, s1)"
        by (simp add: rs_def)
      then show ?thesis using 1 dp True by (simp add: sync_Record_def Let_def ev_def [symmetric])
    next
      case False
      with m have "e1 = None" "s1 = sr_repo r" by (simp_all add: rs_def)
      then show ?thesis using 1 dp False by (simp add: sync_Record_def Let_def ev_def [symmetric])
    qed
    with assms(2) 1 M show ?thesis by (simp add: rs_def)
  next
    case 2
    obtain e3 s3 where a: "f [ev] rs (sr_repo r) = (e3, s3)" by (cases "f [ev] rs (sr_repo r)")
    have "rs = [NewMetricRollup ev]" "dec_CountMetric d" using 2 by (auto simp: rs_def split: if_splits)
    then show ?thesis
      using assms(2) 2 dp a atomic [OF assms(1) idd 2(3) a]
      by (auto simp: sync_Record_def Let_def ev_def [symmetric])
  next
    case 3
    have "sync_Record ops hex now g e r =
      (if e1 \<noteq> None then e1 else e2, r\<lparr>sr_policy := p, sr_repo := if e1 \<noteq> None then s1 else s2,
         sr_stats := (sr_stats r)\<lparr>st_EnqueueTotal := st_EnqueueTotal (sr_stats r) + 1\<rparr>\<rparr>)"
    proof (cases "dec_CountMetric d")
      case True
      then show ?thesis using 3 dp m b by (simp add: sync_Record_def Let_def ev_def [symmetric] rs_def)
    next
      case False
      then show ?thesis using 3 dp m b by (simp add: sync_Record_def Let_def ev_def [symmetric] rs_def)
    qed
    with assms(2) have "err = (if e1 \<noteq> None then e1 else e2)" "sr_repo r' = (if e1 \<noteq> None then s1 else s2)"
      by auto
    then show ?thesis using M B MB 3 by (auto simp: rs_def [symmetric])
  qed
qed

end

section \<open>The bun repository is an audit store\<close>

definition bun_ops :: "prepare_env \<Rightarrow> time \<Rightarrow> repository repo_ops" where
  "bun_ops env now = \<lparr>op_AppendBatch = AppendBatch env,
     op_AppendMetricRollups = AppendMetricRollups now,
     op_AppendAuditBatch = Some (AppendAuditBatch env now)\<rparr>"

definition repo_ok :: "repository \<Rightarrow> bool" where
  "repo_ok r \<longleftrightarrow> tables_ok (rp_tables r)"

definition repo_ids :: "repository \<Rightarrow> string set" where
  "repo_ids r = event_ids (rp_tables r)"

definition repo_count :: "repository \<Rightarrow> int" where
  "repo_count r = rollup_total (rp_tables r)"

lemmas repo_views = repo_ok_def repo_ids_def repo_count_def

lemma sum_effective_nonneg [simp]: "0 \<le> (\<Sum>r\<leftarrow>rs. effective_count r)"
  by (induction rs) (auto simp: less_imp_le)

lemma identified_all: "identified es \<Longrightarrow> \<forall>e \<in> set es. ev_ID e \<noteq> []"
  by (simp add: identified_def list_all_iff)

lemma batch_applied_appended:
  "batch_applied es rs (rp_tables r) (rp_tables r') \<Longrightarrow> appended repo_ids repo_count es rs err r r'"
  by (auto simp: batch_applied_def appended_def repo_views)

lemma unchanged_appended:
  "rp_tables r' = rp_tables r \<Longrightarrow> appended repo_ids repo_count es rs (Some e) r r'"
  by (auto simp: appended_def repo_views)

lemma AppendBatch_as_audit_batch:
  "AppendBatch env es = AppendAuditBatch env now es []"
  by (rule ext) (auto simp: AppendBatch_def AppendAuditBatch_def prepareRollupModels_def mergeRollups_def
      upsertRollupModels_def runInTx_def Let_def split: sum.splits option.splits bind_splits)

lemma AppendMetricRollups_as_audit_batch:
  "rp_tables (snd (AppendMetricRollups now rs r)) = rp_tables (snd (AppendAuditBatch env now [] rs r)) \<and>
   fst (AppendMetricRollups now rs r) = fst (AppendAuditBatch env now [] rs r) \<or>
   prepareRollupModels now rs = []"
  by (auto simp: AppendMetricRollups_def AppendAuditBatch_def insertEventModels_def Let_def)

lemma prepareRollupModels_Nil: "prepareRollupModels now rs = [] \<Longrightarrow> rs = []"
proof (rule ccontr)
  assume "prepareRollupModels now rs = []" and "rs \<noteq> []"
  then obtain r rs' where rs: "rs = r # rs'" by (cases rs) auto
  have "0 < effective_count r" "0 \<le> (\<Sum>r\<leftarrow>rs'. effective_count r)" by simp_all
  then have "0 < (\<Sum>r\<leftarrow>rs. effective_count r)" by (simp only: rs list.map sum_list.Cons)
  then show False
    using prepareRollupModels_total [of now rs] \<open>prepareRollupModels now rs = []\<close> by simp
qed

lemma AppendMetricRollups_cases:
  assumes "AppendMetricRollups now rs r = (err, r')"
  shows "err \<noteq> None \<and> rp_tables r' = rp_tables r \<or> batch_applied [] rs (rp_tables r) (rp_tables r')"
proof -
  obtain q where q: "AppendAuditBatch (\<lambda>_. ([], 0)) now [] rs r = (fst (AppendAuditBatch (\<lambda>_. ([], 0)) now [] rs r), q)"
    by (metis surjective_pairing)
  show ?thesis
  proof (cases "prepareRollupModels now rs = []")
    case True
    then show ?thesis
      using assms prepareRollupModels_Nil [OF True] by (auto simp: AppendMetricRollups_def batch_applied_def)
  next
    case False
    then show ?thesis
      using AppendMetricRollups_as_audit_batch [of now rs r "\<lambda>_. ([], 0)"] AppendAuditBatch_cases [OF _ q] assms q
      by (metis empty_iff fst_conv list.set(1) snd_conv)
  qed
qed

lemma cases_appended:
  assumes "err \<noteq> None \<and> rp_tables r' = rp_tables r \<or> batch_applied es rs (rp_tables r) (rp_tables r')"
  shows "appended repo_ids repo_count es rs err r r'"
  using assms batch_applied_appended unchanged_appended by fastforce

interpretation bun: audit_store "bun_ops env now" repo_ok repo_ids repo_count for env now
proof (unfold_locales, goal_cases)
  case (1 s es err s')
  have A: "AppendAuditBatch env now es [] s = (err, s')"
    using 1 AppendBatch_as_audit_batch [of env es now] by (simp add: bun_ops_def)
  have "repo_ok s'"
    using run_repo_op_ok [of s "OpAppendBatch env es"] 1 by (simp add: bun_ops_def repo_views)
  then show ?case
    using cases_appended [OF AppendAuditBatch_cases [OF identified_all [OF 1(2)] A]] by simp
next
  case (2 s rs err s')
  have "repo_ok s'"
    using run_repo_op_ok [of s "OpAppendMetricRollups now rs"] 2 by (simp add: bun_ops_def repo_views)
  then show ?case
    using cases_appended [OF AppendMetricRollups_cases] 2 by (simp add: bun_ops_def)
next
  case (3 s es f rs err s')
  have A: "AppendAuditBatch env now es rs s = (err, s')" using 3 by (simp add: bun_ops_def)
  have "repo_ok s'"
    using run_repo_op_ok [of s "OpAppendAuditBatch env now es rs"] 3 by (simp add: bun_ops_def repo_views)
  then show ?case
    using cases_appended [OF AppendAuditBatch_cases [OF identified_all [OF 3(2)] A]] by simp
qed

section \<open>Facts on retries\<close>

lemma next_backoff_le: "next_backoff cfg b \<le> ac_RetryMaxBackoff cfg"
  by (simp add: next_backoff_def Let_def)

lemma retry_loop_waits:
  "retry_loop cfg ops cancelled es rs attempt left lastErr backoff st = (err, waits, st') \<Longrightarrow>
   left \<noteq> 0 \<Longrightarrow>
     length waits < left \<and> (\<forall>w \<in> set (tl waits). w \<le> ac_RetryMaxBackoff cfg) \<and>
     (waits \<noteq> [] \<longrightarrow> hd waits = backoff)"
proof (induction left arbitrary: attempt lastErr backoff st err waits st')
  case (Suc left)
  obtain st0 s0 where st: "st = (st0, s0)" by (cases st)
  obtain e st1 s1 where o1: "flushOnce ops es rs (st0, s0) = (e, st1, s1)"
    by (cases "flushOnce ops es rs (st0, s0)") auto
  show ?case
  proof (cases "e = None \<or> left = 0 \<or> cancelled attempt")
    case True
    then show ?thesis using Suc.prems o1 st by (auto simp: Let_def split: option.splits if_splits)
  next
    case False
    then obtain err0 where e: "e = Some err0" by auto
    obtain err' waits' st2 where rec: "retry_loop cfg ops cancelled es rs (Suc attempt) left (Some err0)
        (next_backoff cfg backoff) (st1\<lparr>st_RetryTotal := st_RetryTotal st1 + 1\<rparr>, s1) = (err', waits', st2)"
      using prod_cases3 by blast
    have "waits = backoff # waits'" using Suc.prems(1) o1 st e False rec by (auto simp: Let_def)
    moreover have "length waits' < left \<and> (\<forall>w \<in> set (tl waits'). w \<le> ac_RetryMaxBackoff cfg) \<and>
        (waits' \<noteq> [] \<longrightarrow> hd waits' = next_backoff cfg backoff)"
      using Suc.IH [OF rec] False by simp
    ultimately show ?thesis using next_backoff_le [of cfg backoff] by (cases waits') auto
  qed
qed simp

lemma retry_loop_stuck:
  assumes bad: "\<And>st s. P s \<Longrightarrow> \<exists>e st' s'. flushOnce ops es rs (st, s) = (Some e, st', s') \<and> P s'"
  shows "P s \<Longrightarrow> left \<noteq> 0 \<Longrightarrow> retry_loop cfg ops cancelled es rs attempt left lastErr backoff (st, s) = (err, waits, st', s') \<Longrightarrow>
     err \<noteq> None \<and> P s'"
proof (induction left arbitrary: attempt lastErr backoff st s err waits st' s')
  case (Suc left)
  obtain e st1 s1 where o1: "flushOnce ops es rs (st, s) = (Some e, st1, s1)" "P s1"
    using bad [OF Suc.prems(1)] by blast
  show ?case
  proof (cases "left = 0 \<or> cancelled attempt")
    case True
    then show ?thesis using Suc.prems(3) o1 by (auto simp: Let_def split: if_splits)
  next
    case False
    obtain err' waits' st2 s2 where rec: "retry_loop cfg ops cancelled es rs (Suc attempt) left (Some e)
        (next_backoff cfg backoff) (st1\<lparr>st_RetryTotal := st_RetryTotal st1 + 1\<rparr>, s1) = (err', waits', st2, s2)"
      using prod_cases4 by blast
    have "err = err'" "s' = s2" using Suc.prems(3) o1(1) False rec by (auto simp: Let_def)
    then show ?thesis using Suc.IH [OF o1(2) _ rec] False by auto
  qed
qed simp

lemma flushOnce_oversized:
  assumes "rp_dialect r \<noteq> DialectSQLite \<and> rp_tables r = t" and "e \<in> set es" and "oversized e"
  shows "\<exists>err st' r'. flushOnce (bun_ops env now) es rs (st, r) = (Some err, st', r') \<and>
    rp_dialect r' \<noteq> DialectSQLite \<and> rp_tables r' = t"
proof -
  obtain err r' where a: "AppendAuditBatch env now es rs r = (Some err, r')"
    using oversized_refused [OF _ assms(2,3), of r env now rs] assms(1)
    by (cases "AppendAuditBatch env now es rs r") auto
  then have "rp_dialect r' = rp_dialect r" "rp_tables r' = rp_tables r"
    using AppendAuditBatch_frame(1) [of env now es rs r] oversized_refused [OF _ assms(2,3), of r env now rs] assms(1)
    by simp_all
  then show ?thesis using a assms(1) by (simp add: flushOnce_def bun_ops_def)
qed

lemma flushWithRetry_oversized:
  assumes "rp_dialect r \<noteq> DialectSQLite" and "e \<in> set es" and "oversized e"
    and "0 < ac_RetryMaxAttempts cfg"
    and "flushWithRetry cfg (bun_ops env now) cancelled es rs (st, r) = (err, waits, st', r')"
  shows "err \<noteq> None \<and> rp_dialect r' \<noteq> DialectSQLite \<and> rp_tables r' = rp_tables r"
  using retry_loop_stuck [where P = "\<lambda>q. rp_dialect q \<noteq> DialectSQLite \<and> rp_tables q = rp_tables r",
      OF flushOnce_oversized [OF _ assms(2,3)] _ _ assms(5) [unfolded flushWithRetry_def]] assms(1,4)
  by auto

lemma normalize_async_positive:
  "0 < ac_ChannelSize (normalize_async_config c)" "0 < ac_BatchSize (normalize_async_config c)"
  "0 < ac_RetryMaxAttempts (normalize_async_config c)"
  "0 < ac_RetryInitialBackoff (normalize_async_config c)" "0 < ac_RetryMaxBackoff (normalize_async_config c)"
  by (simp_all add: normalize_async_config_def positive_or_def DefaultAsyncConfig_def Let_def
      second_def millisecond_def)

section \<open>Properties\<close>

text \<open>
  A repository that logs the calls it gets, to count the attempts of \<open>flushWithRetry\<close>.
\<close>

datatype store_call = C_AppendBatch | C_AppendMetricRollups | C_AppendAuditBatch

definition logging :: "store_call \<Rightarrow> ('s \<Rightarrow> 'e \<times> 's) \<Rightarrow> 's \<times> store_call list \<Rightarrow> 'e \<times> 's \<times> store_call list" where
  "logging c f = (\<lambda>(s, calls). case f s of (err, s') \<Rightarrow> (err, s', calls @ [c]))"

definition logging_ops :: "'s repo_ops \<Rightarrow> ('s \<times> store_call list) repo_ops" where
  "logging_ops ops =
     \<lparr>op_AppendBatch = (\<lambda>es. logging C_AppendBatch (op_AppendBatch ops es)),
      op_AppendMetricRollups = (\<lambda>rs. logging C_AppendMetricRollups (op_AppendMetricRollups ops rs)),
      op_AppendAuditBatch =
        map_option (\<lambda>f es rs. logging C_AppendAuditBatch (f es rs)) (op_AppendAuditBatch ops)\<rparr>"

text \<open>The calls of one attempt: each operation at most once, and one call for an atomic repository.\<close>

definition one_attempt :: "'s repo_ops \<Rightarrow> store_call list \<Rightarrow> bool" where
  "one_attempt ops calls =
     (if op_AppendAuditBatch ops = None then distinct calls \<and> C_AppendAuditBatch \<notin> set calls
      else calls = [C_AppendAuditBatch])"

lemma flushOnce_logging:
  assumes "flushOnce ops es rs (st, s) = (err, st', s')"
  obtains calls where "flushOnce (logging_ops ops) es rs (st, s, lg) = (err, st', s', lg @ calls)"
    "one_attempt ops calls"
proof (cases "op_AppendAuditBatch ops")
  case (Some f)
  obtain e t where "f es rs s = (e, t)" by fastforce
  with assms Some show ?thesis
    by (intro that [of "[C_AppendAuditBatch]"])
      (auto simp: flushOnce_def logging_ops_def logging_def one_attempt_def split: option.splits)
next
  case None
  obtain e1 s1 where b: "op_AppendBatch ops es s = (e1, s1)" by fastforce
  obtain e2 s2 where r: "op_AppendMetricRollups ops rs (if es = [] then s else s1) = (e2, s2)" by fastforce
  let ?calls = "(if es = [] then [] else [C_AppendBatch]) @
    (if rs = [] \<or> (es \<noteq> [] \<and> e1 \<noteq> None) then [] else [C_AppendMetricRollups])"
  show ?thesis
    by (rule that [of ?calls])
      (use assms None b r in \<open>auto simp: flushOnce_def logging_ops_def logging_def one_attempt_def Let_def
        split: option.splits if_splits\<close>)
qed

lemma retry_loop_attempts:
  "retry_loop cfg ops cancelled es rs attempt left lastErr backoff (st, s) = (err, waits, st', s') \<Longrightarrow> left \<noteq> 0 \<Longrightarrow>
   \<exists>attempts. retry_loop cfg (logging_ops ops) cancelled es rs attempt left lastErr backoff (st, s, lg) =
       (err, waits, st', s', lg @ concat attempts) \<and>
     list_all (one_attempt ops) attempts \<and> attempts \<noteq> [] \<and> length attempts \<le> left \<and>
     length waits \<le> length attempts \<and> length attempts \<le> Suc (length waits)"
proof (induction left arbitrary: attempt lastErr backoff st s err waits st' s' lg)
  case (Suc left)
  obtain e st1 s1 where o1: "flushOnce ops es rs (st, s) = (e, st1, s1)"
    by (cases "flushOnce ops es rs (st, s)") auto
  obtain calls where c: "flushOnce (logging_ops ops) es rs (st, s, lg) = (e, st1, s1, lg @ calls)"
      "one_attempt ops calls" by (rule flushOnce_logging [OF o1])
  show ?case
  proof (cases "e = None \<or> left = 0 \<or> cancelled attempt")
    case True
    then show ?thesis using Suc.prems(1) o1 c
      by (intro exI [of _ "[calls]"]) (auto simp: Let_def split: option.splits if_splits)
  next
    case False
    then obtain err0 where e: "e = Some err0" by auto
    let ?st = "st1\<lparr>st_RetryTotal := st_RetryTotal st1 + 1\<rparr>"
    obtain err' waits' st2 s2 where rec: "retry_loop cfg ops cancelled es rs (Suc attempt) left (Some err0)
        (next_backoff cfg backoff) (?st, s1) = (err', waits', st2, s2)"
      using prod_cases4 by blast
    have w: "err' = err" "waits = backoff # waits'" "st2 = st'" "s2 = s'"
      using Suc.prems(1) o1 e False rec by (auto simp: Let_def)
    obtain attempts where a: "retry_loop cfg (logging_ops ops) cancelled es rs (Suc attempt) left (Some err0)
        (next_backoff cfg backoff) (?st, s1, lg @ calls) = (err', waits', st2, s2, (lg @ calls) @ concat attempts)"
      "list_all (one_attempt ops) attempts" "attempts \<noteq> []" "length attempts \<le> left"
      "length waits' \<le> length attempts" "length attempts \<le> Suc (length waits')"
      using Suc.IH [OF rec, of "lg @ calls"] False by auto
    show ?thesis
      using a c e False w by (intro exI [of _ "calls # attempts"]) (simp add: Let_def)
  qed
qed simp

text \<open>
  C29. Retrying is bounded: with a normalised configuration \<open>flushWithRetry\<close> makes at least one
  attempt and at most as many as the configuration allows, where an attempt calls each operation of
  the repository at most once, and \<open>AppendAuditBatch\<close> alone exactly once when the repository has it;
  observing the calls changes nothing.  Between two attempts it waits once, first for the initial
  backoff, which is not capped, and then never longer than the maximal backoff; after the last
  attempt it waits only when the context ends the call during that wait.
\<close>

theorem retry_bounded:
  assumes "flushWithRetry (normalize_async_config cfg) ops cancelled es rs (st, s) = (err, waits, st', s')"
  shows "(\<exists>attempts. flushWithRetry (normalize_async_config cfg) (logging_ops ops) cancelled es rs (st, s, []) =
        (err, waits, st', s', concat attempts) \<and>
      list_all (one_attempt ops) attempts \<and> attempts \<noteq> [] \<and>
      int (length attempts) \<le> ac_RetryMaxAttempts (normalize_async_config cfg) \<and>
      length waits \<le> length attempts \<and> length attempts \<le> Suc (length waits)) \<and>
    int (length waits) < ac_RetryMaxAttempts (normalize_async_config cfg) \<and>
    (\<forall>w \<in> set (tl waits). w \<le> ac_RetryMaxBackoff (normalize_async_config cfg)) \<and>
    (waits \<noteq> [] \<longrightarrow> hd waits = ac_RetryInitialBackoff (normalize_async_config cfg))"
proof -
  have n: "nat (ac_RetryMaxAttempts (normalize_async_config cfg)) \<noteq> 0"
    using normalize_async_positive(3) [of cfg] by simp
  obtain attempts where "flushWithRetry (normalize_async_config cfg) (logging_ops ops) cancelled es rs (st, s, []) =
        (err, waits, st', s', [] @ concat attempts)"
      "list_all (one_attempt ops) attempts" "attempts \<noteq> []"
      "length attempts \<le> nat (ac_RetryMaxAttempts (normalize_async_config cfg))"
      "length waits \<le> length attempts" "length attempts \<le> Suc (length waits)"
    using retry_loop_attempts [OF assms [unfolded flushWithRetry_def] n, of "[]"]
    unfolding flushWithRetry_def by blast
  then have "\<exists>attempts. flushWithRetry (normalize_async_config cfg) (logging_ops ops) cancelled es rs (st, s, []) =
        (err, waits, st', s', concat attempts) \<and>
      list_all (one_attempt ops) attempts \<and> attempts \<noteq> [] \<and>
      int (length attempts) \<le> ac_RetryMaxAttempts (normalize_async_config cfg) \<and>
      length waits \<le> length attempts \<and> length attempts \<le> Suc (length waits)"
    using normalize_async_positive(3) [of cfg] by (intro exI [of _ attempts]) (auto simp: le_nat_iff)
  with retry_loop_waits [OF assms [unfolded flushWithRetry_def] n] show ?thesis by auto
qed

theorem retry_bounded_witness:
  "\<exists>attempts. snd (snd (snd (flushWithRetry (normalize_async_config DefaultAsyncConfig)
       (logging_ops (bun_ops (\<lambda>_. ([], 5)) 5)) (\<lambda>_. False) [sample_event] []
       (zero_stats, sample_repo DialectPostgres (\<lambda>_. Rollback), [])))) =
     (snd (snd (snd (flushWithRetry (normalize_async_config DefaultAsyncConfig) (bun_ops (\<lambda>_. ([], 5)) 5)
       (\<lambda>_. False) [sample_event] [] (zero_stats, sample_repo DialectPostgres (\<lambda>_. Rollback))))), concat attempts) \<and>
     int (length attempts) \<le> 3 \<and> 2 \<le> length attempts"
proof -
  let ?C = "normalize_async_config DefaultAsyncConfig"
  let ?ops = "bun_ops (\<lambda>_. ([], 5)) 5"
  let ?s = "sample_repo DialectPostgres (\<lambda>_. Rollback)"
  let ?f = "flushWithRetry ?C ?ops (\<lambda>_. False) [sample_event] [] (zero_stats, ?s)"
  have w: "length (fst (snd ?f)) = 2" by code_simp
  have c: "ac_RetryMaxAttempts ?C = 3" by code_simp
  obtain err waits st' s' where f: "?f = (err, waits, st', s')" using prod_cases4 by blast
  from retry_bounded [OF f] c w show ?thesis by (auto simp: f)
qed

text \<open>
  A flush that returns no error has stored everything, and a failed one has lost nothing:
  whatever the outcomes of its transactions, no identifier that was in the log disappears, none
  that was not in the batch appears, and after success all of the batch is in the tables.
\<close>

lemma flush_stores_batch:
  assumes "tables_ok (rp_tables r)" and "identified es"
    and "flushWithRetry (normalize_async_config cfg) (bun_ops env now) cancelled es rs (st, r) = (err, waits, st', r')"
  shows "tables_ok (rp_tables r') \<and> event_ids (rp_tables r) \<subseteq> event_ids (rp_tables r') \<and>
    event_ids (rp_tables r') \<subseteq> event_ids (rp_tables r) \<union> ev_ID ` set es \<and>
    (err = None \<longrightarrow> ev_ID ` set es \<subseteq> event_ids (rp_tables r') \<and>
       rollup_total (rp_tables r) + (\<Sum>r\<leftarrow>rs. effective_count r) \<le> rollup_total (rp_tables r'))"
  using bun.flushWithRetry_appended [OF _ assms(2) normalize_async_positive(3) assms(3)] assms(1)
  by (simp add: repo_views appended_def)

text \<open>
  C18. In synchronous mode a security event is in the log before the call returns: when recording
  an admin or audit action, a rate-limit denial or a forwardAuth denial returns no error, the
  event is stored under its identifier, whatever the policy.
\<close>

theorem sync_security_event_stored:
  assumes "isAdminAction (trim_space (ev_Action e)) \<or>
      trim_space (ev_Action e) \<in> {''rate_limit.denied'', ''forwardauth.denied''}"
    and "tables_ok (rp_tables (sr_repo r))"
    and "sync_Record (bun_ops env now') hex now g e r = (None, r')"
  shows "ev_ID (PrepareEvent hex now e) \<in> event_ids (rp_tables (sr_repo r'))"
proof -
  have "dec_Persist (fst (Decide (PrepareEvent hex now e) p))" for p
    using assms(1) by (auto simp: Decide_def zero_decision_def not_admin_actions Let_def)
  then have "dec_Persist (fst (DecideOpt (PrepareEvent hex now e) (sr_policy r) g))"
    by (simp add: DecideOpt_def split_beta split: option.splits)
  then show ?thesis
    using bun.sync_Record_appended [OF _ assms(3)] assms(2) by (auto simp: repo_views appended_def)
qed

theorem sync_security_event_stored_witness:
  "''audit_0f'' \<in> event_ids (rp_tables (sr_repo (snd (sync_Record (bun_ops (\<lambda>_. ([], 5)) 5) ''0f'' 7 (\<lambda>_. 0, 0)
     (zero_event\<lparr>ev_Action := ''forwardauth.denied'', ev_StatusCode := 401\<rparr>)
     (NewSyncRecorder (sample_repo DialectPostgres (\<lambda>_. Commit)) None)))))"
proof -
  let ?e = "zero_event\<lparr>ev_Action := ''forwardauth.denied'', ev_StatusCode := 401\<rparr>"
  let ?r = "NewSyncRecorder (sample_repo DialectPostgres (\<lambda>_. Commit)) None"
  let ?f = "sync_Record (bun_ops (\<lambda>_. ([], 5)) 5) ''0f'' 7 (\<lambda>_. 0, 0) ?e ?r"
  have 1: "trim_space (ev_Action ?e) = ''forwardauth.denied''" by code_simp
  have 2: "tables_ok (rp_tables (sr_repo ?r))"
    by (simp add: NewSyncRecorder_def sample_repo_def empty_tables_ok)
  have 3: "?f = (None, snd ?f)" by (rule prod_eqI, code_simp, simp)
  have 4: "ev_ID (PrepareEvent ''0f'' 7 ?e) = ''audit_0f''" by code_simp
  show ?thesis using sync_security_event_stored [OF _ 2 3] 1 4 by simp
qed

end
