(* ===== verification/AuditAsync.thy ===== *)
theory AuditAsync
  imports AuditRecorder "HOL-Library.Multiset" "HOL-Library.Sublist"
begin

text \<open>
  The asynchronous recorder of \<open>internal/audit/recorder.go\<close>: producers that call \<open>Record\<close>, the
  bounded channel, the writer goroutine \<open>run\<close>, \<open>Flush\<close> and \<open>Close\<close>.  The handlers are state
  passing functions; the relation \<open>async_step\<close> interleaves them.  A producer is in
  \<open>as_pending\<close> between the policy decision and its first \<open>select\<close>, and in \<open>as_blocked\<close> while
  it waits with a timer.  The writer's control point is \<open>as_writer\<close>.  The fields after the
  statistics are history: what was accepted, what each place holds, what was flushed or dropped.
  Flushing is one step: the writer does not touch the channel while it flushes, so producers that
  run meanwhile may as well run before or after it.
\<close>

section \<open>State\<close>

record asyncItem =
  it_event :: event
  it_rollup :: "metric_rollup option"
  it_priority :: EventPriority
  it_action :: string

datatype drop_reason = channel_full | context_done | enqueue_timeout

text \<open>Why the writer drains or flushes: a full batch or a tick, a \<open>Flush\<close> call, or \<open>Close\<close>.\<close>

datatype flush_kind = K_Background | K_Request | K_Close

datatype writer =
    W_Select
  | W_Drain flush_kind
  | W_Flush flush_kind
  | W_Stopped "audit_error option"

record 's async_state =
  as_items :: "asyncItem list"
  as_closed :: bool
  as_closeCh :: bool
  as_flushers :: nat
  as_pending :: "asyncItem list"
  as_blocked :: "asyncItem list"
  as_events :: "event list"
  as_rollups :: "metric_rollup list"
  as_writer :: writer
  as_repo :: 's
  as_policy :: "Policy option"
  as_stats :: RecorderStats
  as_flush_results :: "audit_error option list"
  as_accepted :: "asyncItem list"
  as_buffer :: "asyncItem list"
  as_flushed :: "asyncItem list"
  as_dropped :: "(asyncItem \<times> drop_reason) list"

definition NewAsyncRecorder :: "'s \<Rightarrow> Policy option \<Rightarrow> 's async_state" where
  "NewAsyncRecorder repo policy =
     \<lparr>as_items = [], as_closed = False, as_closeCh = False, as_flushers = 0, as_pending = [],
      as_blocked = [], as_events = [], as_rollups = [], as_writer = W_Select, as_repo = repo,
      as_policy = policy, as_stats = zero_stats, as_flush_results = [], as_accepted = [],
      as_buffer = [], as_flushed = [], as_dropped = []\<rparr>"

section \<open>Producers\<close>

definition async_Record ::
    "string \<Rightarrow> time \<Rightarrow> rng \<Rightarrow> event \<Rightarrow> 's async_state \<Rightarrow> 's async_state" where
  "async_Record hex now g event0 s0 =
     (if as_closed s0 then s0
      else let event = PrepareEvent hex now event0;
               (d, policy) = DecideOpt event (as_policy s0) g;
               s = s0\<lparr>as_policy := policy,
                      as_stats := (as_stats s0)
                        \<lparr>st_PolicySkippedTotal := count_if (\<not> dec_Persist d) (st_PolicySkippedTotal (as_stats s0)),
                         st_SampledOutTotal := count_if (dec_SampledOut d) (st_SampledOutTotal (as_stats s0))\<rparr>\<rparr>
           in if \<not> dec_Persist d \<and> \<not> dec_CountMetric d then s
              else let item = \<lparr>it_event = (if dec_Persist d then event else zero_event),
                              it_rollup = (if dec_CountMetric d then Some (NewMetricRollup event) else None),
                              it_priority = dec_Priority d, it_action = ev_Action event\<rparr>
                   in s\<lparr>as_pending := as_pending s @ [item], as_accepted := as_accepted s @ [item]\<rparr>)"

definition add_enqueued :: "'s async_state \<Rightarrow> 's async_state" where
  "add_enqueued s = s\<lparr>as_stats := (as_stats s)\<lparr>st_EnqueueTotal := st_EnqueueTotal (as_stats s) + 1\<rparr>\<rparr>"

definition add_enqueue_error :: "'s async_state \<Rightarrow> 's async_state" where
  "add_enqueue_error s =
     s\<lparr>as_stats := (as_stats s)\<lparr>st_EnqueueErrorTotal := st_EnqueueErrorTotal (as_stats s) + 1\<rparr>\<rparr>"

definition drop_item :: "asyncItem \<Rightarrow> drop_reason \<Rightarrow> 's async_state \<Rightarrow> 's async_state" where
  "drop_item item reason s =
     s\<lparr>as_stats := (as_stats s)\<lparr>st_DroppedTotal := st_DroppedTotal (as_stats s) + 1\<rparr>,
       as_dropped := as_dropped s @ [(item, reason)]\<rparr>"

text \<open>The first \<open>select\<close> of \<open>enqueue\<close> and what follows it up to the second one.\<close>

definition enqueue_try :: "AsyncConfig \<Rightarrow> asyncItem \<Rightarrow> 's async_state \<Rightarrow> 's async_state" where
  "enqueue_try cfg item s0 =
     (let s = s0\<lparr>as_pending := remove1 item (as_pending s0)\<rparr>
      in if int (length (as_items s)) < ac_ChannelSize cfg
         then add_enqueued (s\<lparr>as_items := as_items s @ [item]\<rparr>)
         else let s1 = s\<lparr>as_stats := (as_stats s)\<lparr>st_ChannelFullTotal := st_ChannelFullTotal (as_stats s) + 1\<rparr>\<rparr>
              in if it_priority item \<noteq> EventPriorityCritical \<and> ac_DropOnFull cfg
                 then add_enqueued (drop_item item channel_full s1)
                 else s1\<lparr>as_blocked := as_blocked s1 @ [item]\<rparr>)"

text \<open>The three cases of the second \<open>select\<close>.\<close>

definition enqueue_sent :: "asyncItem \<Rightarrow> 's async_state \<Rightarrow> 's async_state" where
  "enqueue_sent item s =
     add_enqueued (s\<lparr>as_blocked := remove1 item (as_blocked s), as_items := as_items s @ [item]\<rparr>)"

definition enqueue_context_done :: "asyncItem \<Rightarrow> 's async_state \<Rightarrow> 's async_state" where
  "enqueue_context_done item s =
     add_enqueue_error (drop_item item context_done (s\<lparr>as_blocked := remove1 item (as_blocked s)\<rparr>))"

definition enqueue_timed_out :: "asyncItem \<Rightarrow> 's async_state \<Rightarrow> 's async_state" where
  "enqueue_timed_out item s =
     add_enqueued (drop_item item enqueue_timeout (s\<lparr>as_blocked := remove1 item (as_blocked s)\<rparr>))"

section \<open>The writer\<close>

definition writer_add :: "asyncItem \<Rightarrow> 's async_state \<Rightarrow> 's async_state" where
  "writer_add item s =
     s\<lparr>as_events := as_events s @ (if ev_ID (it_event item) = [] then [] else [it_event item]),
       as_rollups := as_rollups s @ (case it_rollup item of None \<Rightarrow> [] | Some r \<Rightarrow> [r]),
       as_buffer := as_buffer s @ [item]\<rparr>"

definition writer_flush ::
    "AsyncConfig \<Rightarrow> 's repo_ops \<Rightarrow> (nat \<Rightarrow> bool) \<Rightarrow> 's async_state \<Rightarrow> audit_error option \<times> 's async_state" where
  "writer_flush cfg ops cancelled s =
     (if as_events s = [] \<and> as_rollups s = [] then (None, s)
      else case flushWithRetry cfg ops cancelled (as_events s) (as_rollups s) (as_stats s, as_repo s) of
             (err, waits, st, repo) \<Rightarrow>
               let s1 = s\<lparr>as_stats := st, as_repo := repo\<rparr>
               in (err, if err = None
                        then s1\<lparr>as_events := [], as_rollups := [], as_flushed := as_flushed s @ as_buffer s,
                                as_buffer := []\<rparr>
                        else s1))"

text \<open>Receiving an item in the main \<open>select\<close> and in a drain loop; \<open>default\<close> leaves the drain loop.\<close>

definition writer_receive :: "AsyncConfig \<Rightarrow> 's async_state \<Rightarrow> 's async_state" where
  "writer_receive cfg s =
     (let s1 = writer_add (hd (as_items s)) (s\<lparr>as_items := tl (as_items s)\<rparr>)
      in if ac_BatchSize cfg \<le> int (length (as_events s1)) + int (length (as_rollups s1))
         then s1\<lparr>as_writer := W_Flush K_Background\<rparr> else s1)"

definition writer_drain :: "flush_kind \<Rightarrow> 's async_state \<Rightarrow> 's async_state" where
  "writer_drain k s =
     (case as_items s of
        [] \<Rightarrow> s\<lparr>as_writer := W_Flush k\<rparr>
      | item # rest \<Rightarrow> writer_add item (s\<lparr>as_items := rest\<rparr>))"

definition writer_run_flush ::
    "AsyncConfig \<Rightarrow> 's repo_ops \<Rightarrow> (nat \<Rightarrow> bool) \<Rightarrow> flush_kind \<Rightarrow> 's async_state \<Rightarrow> 's async_state" where
  "writer_run_flush cfg ops cancelled k s =
     (case writer_flush cfg ops (if k = K_Close then cancelled else (\<lambda>_. False)) s of
        (err, s1) \<Rightarrow>
          (case k of
             K_Background \<Rightarrow> s1\<lparr>as_writer := W_Select\<rparr>
           | K_Request \<Rightarrow> s1\<lparr>as_writer := W_Select, as_flush_results := as_flush_results s1 @ [err]\<rparr>
           | K_Close \<Rightarrow> s1\<lparr>as_writer := W_Stopped err\<rparr>))"

section \<open>The step relation\<close>

inductive async_step :: "AsyncConfig \<Rightarrow> 's repo_ops \<Rightarrow> 's async_state \<Rightarrow> 's async_state \<Rightarrow> bool"
  for cfg :: AsyncConfig and ops :: "'s repo_ops" where
  step_record: "async_step cfg ops s (async_Record hex now g e s)"
| step_try: "item \<in> set (as_pending s) \<Longrightarrow> async_step cfg ops s (enqueue_try cfg item s)"
| step_sent: "item \<in> set (as_blocked s) \<Longrightarrow> int (length (as_items s)) < ac_ChannelSize cfg \<Longrightarrow>
    async_step cfg ops s (enqueue_sent item s)"
| step_context_done: "item \<in> set (as_blocked s) \<Longrightarrow> async_step cfg ops s (enqueue_context_done item s)"
| step_timed_out: "item \<in> set (as_blocked s) \<Longrightarrow> async_step cfg ops s (enqueue_timed_out item s)"
| step_receive: "as_writer s = W_Select \<Longrightarrow> as_items s \<noteq> [] \<Longrightarrow> async_step cfg ops s (writer_receive cfg s)"
| step_tick: "as_writer s = W_Select \<Longrightarrow> async_step cfg ops s (s\<lparr>as_writer := W_Flush K_Background\<rparr>)"
| step_flush_call: "\<not> as_closed s \<Longrightarrow> async_step cfg ops s (s\<lparr>as_flushers := Suc (as_flushers s)\<rparr>)"
| step_flush_gives_up: "as_flushers s = Suc n \<Longrightarrow> async_step cfg ops s (s\<lparr>as_flushers := n\<rparr>)"
| step_flush_request: "as_writer s = W_Select \<Longrightarrow> as_flushers s = Suc n \<Longrightarrow>
    async_step cfg ops s (s\<lparr>as_flushers := n, as_writer := W_Drain K_Request\<rparr>)"
| step_close_call: "\<not> as_closed s \<Longrightarrow> async_step cfg ops s (s\<lparr>as_closed := True, as_closeCh := True\<rparr>)"
| step_close_gives_up: "\<not> as_closed s \<Longrightarrow> async_step cfg ops s (s\<lparr>as_closed := True\<rparr>)"
| step_close_request: "as_writer s = W_Select \<Longrightarrow> as_closeCh s \<Longrightarrow>
    async_step cfg ops s (s\<lparr>as_closeCh := False, as_writer := W_Drain K_Close\<rparr>)"
| step_drain: "as_writer s = W_Drain k \<Longrightarrow> async_step cfg ops s (writer_drain k s)"
| step_flush: "as_writer s = W_Flush k \<Longrightarrow> async_step cfg ops s (writer_run_flush cfg ops cancelled k s)"

abbreviation async_steps :: "AsyncConfig \<Rightarrow> 's repo_ops \<Rightarrow> 's async_state \<Rightarrow> 's async_state \<Rightarrow> bool" where
  "async_steps cfg ops \<equiv> (async_step cfg ops)\<^sup>*\<^sup>*"

inductive_cases async_stepE: "async_step cfg ops s t"

section \<open>Where the accepted items are\<close>

definition events_of :: "asyncItem list \<Rightarrow> event list" where
  "events_of xs = filter (\<lambda>e. ev_ID e \<noteq> []) (map it_event xs)"

definition rollups_of :: "asyncItem list \<Rightarrow> metric_rollup list" where
  "rollups_of xs = concat (map (\<lambda>i. case it_rollup i of None \<Rightarrow> [] | Some r \<Rightarrow> [r]) xs)"

lemma of_append [simp]:
  "events_of (xs @ ys) = events_of xs @ events_of ys" "rollups_of (xs @ ys) = rollups_of xs @ rollups_of ys"
  "events_of [] = []" "rollups_of [] = []"
  by (simp_all add: events_of_def rollups_of_def)

lemma identified_events_of [simp]: "identified (events_of xs)"
  by (simp add: identified_def events_of_def list_all_iff)

definition item_ok :: "asyncItem \<Rightarrow> bool" where
  "item_ok i \<longleftrightarrow> ev_ID (it_event i) \<noteq> [] \<or> it_rollup i \<noteq> None"

lemma nothing_buffered:
  "list_all item_ok xs \<Longrightarrow> events_of xs = [] \<Longrightarrow> rollups_of xs = [] \<Longrightarrow> xs = []"
  by (cases xs) (auto simp: item_ok_def events_of_def rollups_of_def split: if_splits option.splits)

definition places :: "'s async_state \<Rightarrow> asyncItem multiset" where
  "places s = mset (as_pending s) + mset (as_blocked s) + mset (as_items s) + mset (as_buffer s) +
     mset (as_flushed s) + mset (map fst (as_dropped s))"

definition async_ok :: "AsyncConfig \<Rightarrow> 's async_state \<Rightarrow> bool" where
  "async_ok cfg s \<longleftrightarrow>
     mset (as_accepted s) = places s \<and> list_all item_ok (as_accepted s) \<and>
     int (length (as_items s)) \<le> ac_ChannelSize cfg \<and>
     as_events s = events_of (as_buffer s) \<and> as_rollups s = rollups_of (as_buffer s) \<and>
     st_DroppedTotal (as_stats s) = int (length (as_dropped s)) \<and>
     (\<forall>i. (i, channel_full) \<in> set (as_dropped s) \<longrightarrow>
        it_priority i \<noteq> EventPriorityCritical \<and> ac_DropOnFull cfg) \<and>
     st_EnqueueTotal (as_stats s) + st_EnqueueErrorTotal (as_stats s) +
       int (length (as_pending s)) + int (length (as_blocked s)) = int (length (as_accepted s))"

lemma mset_remove1_add: "x \<in> set xs \<Longrightarrow> mset xs = add_mset x (mset (remove1 x xs))"
  by simp

lemma length_remove1_int: "x \<in> set xs \<Longrightarrow> int (length (remove1 x xs)) = int (length xs) - 1"
  using length_pos_if_in_set [of x xs] by (simp add: length_remove1 of_nat_diff del: length_greater_0_conv)

lemma async_ok_all_items: "async_ok cfg s \<Longrightarrow> i \<in># places s \<Longrightarrow> item_ok i"
  by (metis async_ok_def list_all_iff set_mset_mset)

lemma async_ok_new: "0 \<le> ac_ChannelSize cfg \<Longrightarrow> async_ok cfg (NewAsyncRecorder repo policy)"
  by (simp add: async_ok_def NewAsyncRecorder_def places_def zero_stats_def)

lemma async_Record_ok: "async_ok cfg s \<Longrightarrow> async_ok cfg (async_Record hex now g e s)"
  by (cases "DecideOpt (PrepareEvent hex now e) (as_policy s) g")
    (auto simp: async_Record_def async_ok_def places_def item_ok_def Let_def)

lemma enqueue_try_ok:
  assumes "async_ok cfg s" and "item \<in> set (as_pending s)"
  shows "async_ok cfg (enqueue_try cfg item s)"
  using assms mset_remove1_add [OF assms(2)] length_remove1_int [OF assms(2)]
  by (auto simp: enqueue_try_def async_ok_def places_def add_enqueued_def drop_item_def Let_def
      simp del: mset_remove1)

lemma enqueue_wait_ok:
  assumes "async_ok cfg s" and "item \<in> set (as_blocked s)"
  shows "int (length (as_items s)) < ac_ChannelSize cfg \<Longrightarrow> async_ok cfg (enqueue_sent item s)"
    and "async_ok cfg (enqueue_context_done item s)"
    and "async_ok cfg (enqueue_timed_out item s)"
  using assms mset_remove1_add [OF assms(2)] length_remove1_int [OF assms(2)]
  by (auto simp: enqueue_sent_def enqueue_context_done_def enqueue_timed_out_def async_ok_def
      places_def add_enqueued_def add_enqueue_error_def drop_item_def simp del: mset_remove1)

lemma writer_add_ok:
  "async_ok cfg s \<Longrightarrow> as_items s = item # rest \<Longrightarrow> async_ok cfg (writer_add item (s\<lparr>as_items := rest\<rparr>))"
  by (auto simp: writer_add_def async_ok_def places_def events_of_def rollups_of_def)

lemma async_ok_writer [simp]:
  "async_ok cfg (s\<lparr>as_writer := w\<rparr>) = async_ok cfg s"
  "async_ok cfg (s\<lparr>as_flushers := n\<rparr>) = async_ok cfg s"
  "async_ok cfg (s\<lparr>as_closed := b\<rparr>) = async_ok cfg s"
  "async_ok cfg (s\<lparr>as_closeCh := b\<rparr>) = async_ok cfg s"
  "async_ok cfg (s\<lparr>as_flush_results := xs\<rparr>) = async_ok cfg s"
  by (simp_all add: async_ok_def places_def)

lemma flushOnce_counters:
  "flushOnce ops es rs (st, s) = (err, st', s') \<Longrightarrow>
     st_DroppedTotal st' = st_DroppedTotal st \<and> st_EnqueueTotal st' = st_EnqueueTotal st \<and>
     st_EnqueueErrorTotal st' = st_EnqueueErrorTotal st"
  by (auto simp: flushOnce_def Let_def split: option.splits prod.splits if_splits)

lemma retry_loop_counters:
  "retry_loop cfg ops cancelled es rs attempt left lastErr backoff (st, s) = (err, waits, st', s') \<Longrightarrow>
     st_DroppedTotal st' = st_DroppedTotal st \<and> st_EnqueueTotal st' = st_EnqueueTotal st \<and>
     st_EnqueueErrorTotal st' = st_EnqueueErrorTotal st"
proof (induction left arbitrary: attempt lastErr backoff st s err waits st' s')
  case (Suc left)
  obtain e st1 s1 where o1: "flushOnce ops es rs (st, s) = (e, st1, s1)"
    by (cases "flushOnce ops es rs (st, s)") auto
  show ?case
  proof (cases "e = None \<or> left = 0 \<or> cancelled attempt")
    case True
    then show ?thesis using Suc.prems o1 flushOnce_counters [OF o1]
      by (auto simp: Let_def split: option.splits if_splits)
  next
    case False
    then obtain err0 where e: "e = Some err0" by auto
    obtain err' waits' st2 s2 where rec: "retry_loop cfg ops cancelled es rs (Suc attempt) left (Some err0)
        (next_backoff cfg backoff) (st1\<lparr>st_RetryTotal := st_RetryTotal st1 + 1\<rparr>, s1) = (err', waits', st2, s2)"
      using prod_cases4 by blast
    have "st' = st2" using Suc.prems o1 e False rec by (auto simp: Let_def)
    then show ?thesis using Suc.IH [OF rec] flushOnce_counters [OF o1] by simp
  qed
qed auto

lemma writer_flush_ok:
  assumes "async_ok cfg s" and "writer_flush cfg ops cancelled s = (err, s')"
  shows "async_ok cfg s'"
proof (cases "as_events s = [] \<and> as_rollups s = []")
  case True
  then show ?thesis using assms by (simp add: writer_flush_def)
next
  case False
  obtain err0 waits st repo where f: "flushWithRetry cfg ops cancelled (as_events s) (as_rollups s)
      (as_stats s, as_repo s) = (err0, waits, st, repo)"
    using prod_cases4 by blast
  show ?thesis
    using assms False f retry_loop_counters [OF f [unfolded flushWithRetry_def]]
    by (auto simp: writer_flush_def async_ok_def places_def Let_def split: if_splits)
qed

lemma writer_run_flush_ok: "async_ok cfg s \<Longrightarrow> async_ok cfg (writer_run_flush cfg ops cancelled k s)"
  by (auto simp: writer_run_flush_def writer_flush_ok split: prod.splits flush_kind.splits)

lemma writer_receive_ok: "async_ok cfg s \<Longrightarrow> as_items s \<noteq> [] \<Longrightarrow> async_ok cfg (writer_receive cfg s)"
  using writer_add_ok [of cfg s "hd (as_items s)" "tl (as_items s)"]
  by (simp add: writer_receive_def Let_def)

lemma writer_drain_ok: "async_ok cfg s \<Longrightarrow> async_ok cfg (writer_drain k s)"
  by (auto simp: writer_drain_def writer_add_ok split: list.splits)

lemma async_step_ok: "async_step cfg ops s t \<Longrightarrow> async_ok cfg s \<Longrightarrow> async_ok cfg t"
  by (induction rule: async_step.induct)
    (simp_all add: async_Record_ok enqueue_try_ok enqueue_wait_ok writer_receive_ok writer_drain_ok
      writer_run_flush_ok)

lemma async_steps_ok: "async_steps cfg ops s t \<Longrightarrow> async_ok cfg s \<Longrightarrow> async_ok cfg t"
  by (induction rule: rtranclp_induct) (auto intro: async_step_ok)

section \<open>What is stored\<close>

lemmas async_ops = async_Record_def enqueue_try_def enqueue_sent_def enqueue_context_done_def
  enqueue_timed_out_def writer_receive_def writer_drain_def writer_add_def drop_item_def
  add_enqueued_def add_enqueue_error_def

lemma async_step_frame:
  assumes "async_step cfg ops s t"
  shows "(as_repo t = as_repo s \<and> as_flushed t = as_flushed s \<and> set (as_accepted s) \<subseteq> set (as_accepted t) \<and>
      (\<exists>ks. as_buffer t = as_buffer s @ ks)) \<or>
    (\<exists>k c. as_writer s = W_Flush k \<and> t = writer_run_flush cfg ops c k s)"
  using assms by (induction rule: async_step.induct)
    (auto simp: async_ops Let_def split: prod.splits list.splits)

definition kept ::
    "('s \<Rightarrow> bool) \<Rightarrow> ('s \<Rightarrow> string set) \<Rightarrow> ('s \<Rightarrow> int) \<Rightarrow> 's \<Rightarrow> 's async_state \<Rightarrow> bool" where
  "kept ok ids tot r0 s \<longleftrightarrow>
     ok (as_repo s) \<and> ids r0 \<subseteq> ids (as_repo s) \<and>
     ids (as_repo s) \<subseteq> ids r0 \<union> ev_ID ` set (events_of (as_accepted s)) \<and>
     ev_ID ` set (events_of (as_flushed s)) \<subseteq> ids (as_repo s) \<and>
     tot r0 + (\<Sum>r\<leftarrow>rollups_of (as_flushed s). effective_count r) \<le> tot (as_repo s)"

lemma events_of_mono: "set xs \<subseteq> set ys \<Longrightarrow> set (events_of xs) \<subseteq> set (events_of ys)"
  by (auto simp: events_of_def)

lemma buffer_accepted: "async_ok cfg s \<Longrightarrow> set (as_buffer s) \<subseteq> set (as_accepted s)"
proof -
  assume "async_ok cfg s"
  then have "mset (as_accepted s) = places s" by (simp add: async_ok_def)
  then have "set (as_accepted s) = set_mset (places s)" by (metis set_mset_mset)
  then show ?thesis by (auto simp: places_def)
qed

lemma writer_run_flush_cases:
  assumes "async_ok cfg s"
  obtains "as_repo (writer_run_flush cfg ops c k s) = as_repo s"
      "as_flushed (writer_run_flush cfg ops c k s) = as_flushed s"
      "as_accepted (writer_run_flush cfg ops c k s) = as_accepted s"
      "as_buffer (writer_run_flush cfg ops c k s) = as_buffer s" "as_buffer s = []"
    | err waits st st' cancelled where
      "flushWithRetry cfg ops cancelled (events_of (as_buffer s)) (rollups_of (as_buffer s)) (st, as_repo s) =
        (err, waits, st', as_repo (writer_run_flush cfg ops c k s))"
      "as_flushed (writer_run_flush cfg ops c k s) = as_flushed s @ (if err = None then as_buffer s else [])"
      "as_accepted (writer_run_flush cfg ops c k s) = as_accepted s"
      "as_buffer (writer_run_flush cfg ops c k s) = (if err = None then [] else as_buffer s)"
proof -
  define c' where "c' = (if k = K_Close then c else (\<lambda>_. False))"
  have B: "as_events s = events_of (as_buffer s)" "as_rollups s = rollups_of (as_buffer s)"
    using assms by (simp_all add: async_ok_def)
  have buf: "as_buffer s = []" if "as_events s = []" "as_rollups s = []"
    using nothing_buffered that B async_ok_all_items [OF assms] by (auto simp: places_def list_all_iff)
  show ?thesis
  proof (cases "as_events s = [] \<and> as_rollups s = []")
    case True
    then show ?thesis
      using that(1) buf by (simp add: writer_run_flush_def writer_flush_def split: flush_kind.splits)
  next
    case False
    obtain err waits st repo where f: "flushWithRetry cfg ops c' (as_events s) (as_rollups s)
        (as_stats s, as_repo s) = (err, waits, st, repo)"
      using prod_cases4 by blast
    define t where "t = writer_run_flush cfg ops c k s"
    define s1 where "s1 = snd (writer_flush cfg ops c' s)"
    have wf: "writer_flush cfg ops c' s = (err, s1)"
      unfolding s1_def writer_flush_def if_not_P [OF False] f by (simp add: Let_def)
    have S: "as_repo s1 = repo" "as_flushed s1 = as_flushed s @ (if err = None then as_buffer s else [])"
        "as_accepted s1 = as_accepted s" "as_buffer s1 = (if err = None then [] else as_buffer s)"
      unfolding s1_def writer_flush_def if_not_P [OF False] f by (simp_all add: Let_def)
    have T: "as_repo t = as_repo s1" "as_flushed t = as_flushed s1" "as_accepted t = as_accepted s1"
        "as_buffer t = as_buffer s1"
      unfolding t_def writer_run_flush_def c'_def [symmetric] wf by (simp_all split: flush_kind.split)
    have "flushWithRetry cfg ops c' (events_of (as_buffer s)) (rollups_of (as_buffer s)) (as_stats s, as_repo s) =
        (err, waits, st, as_repo t)"
      using f by (simp only: B T S)
    from this T(2-4) [unfolded S] show ?thesis unfolding t_def by (rule that(2))
  qed
qed

context audit_store
begin

lemma kept_step:
  assumes "async_step cfg ops s t" and "async_ok cfg s" and "0 < ac_RetryMaxAttempts cfg"
    and "kept inv ids tot r0 s"
  shows "kept inv ids tot r0 t"
  using async_step_frame [OF assms(1)]
proof (elim disjE exE conjE)
  assume "as_repo t = as_repo s" "as_flushed t = as_flushed s" "set (as_accepted s) \<subseteq> set (as_accepted t)"
  moreover from this(3) have "ev_ID ` set (events_of (as_accepted s)) \<subseteq> ev_ID ` set (events_of (as_accepted t))"
    by (intro image_mono events_of_mono)
  ultimately show ?thesis using assms(4) by (simp add: kept_def) blast
next
  fix k c
  assume t: "t = writer_run_flush cfg ops c k s"
  from writer_run_flush_cases [OF assms(2), of ops c k] show ?thesis
  proof cases
    case 1
    then show ?thesis using assms(4) t by (simp add: kept_def)
  next
    case (2 err waits st st' cancelled)
    have "inv (as_repo s)" using assms(4) by (simp add: kept_def)
    from flushWithRetry_appended [OF this identified_events_of assms(3) 2(1)]
    have A: "inv (as_repo t)" "appended ids tot (events_of (as_buffer s)) (rollups_of (as_buffer s)) err (as_repo s) (as_repo t)"
      using t by auto
    have "ev_ID ` set (events_of (as_buffer s)) \<subseteq> ev_ID ` set (events_of (as_accepted s))"
      by (intro image_mono events_of_mono buffer_accepted [OF assms(2)])
    moreover have "ids (as_repo t) \<subseteq> ids (as_repo s) \<union> ev_ID ` set (events_of (as_buffer s))"
      using A(2) by (simp add: appended_def)
    moreover have "ids (as_repo s) \<subseteq> ids r0 \<union> ev_ID ` set (events_of (as_accepted t))"
      using assms(4) 2(3) t by (simp add: kept_def)
    ultimately have new: "ids (as_repo t) \<subseteq> ids r0 \<union> ev_ID ` set (events_of (as_accepted t))"
      using 2(3) t by (simp only:) blast
    have old: "ids r0 \<subseteq> ids (as_repo t)" "ev_ID ` set (events_of (as_flushed s)) \<subseteq> ids (as_repo t)"
      using A(2) assms(4) unfolding appended_def kept_def by blast+
    show ?thesis
      using new old A 2(2) assms(4) t by (cases err) (simp_all add: kept_def appended_def image_Un)
  qed
qed

lemma kept_steps:
  assumes "async_steps cfg ops s t" and "async_ok cfg s" and "0 < ac_RetryMaxAttempts cfg"
    and "kept inv ids tot r0 s"
  shows "kept inv ids tot r0 t"
  using assms
proof (induction rule: rtranclp_induct)
  case (step t u)
  then show ?case using kept_step [OF step.hyps(2) async_steps_ok [OF step.hyps(1)]] by simp
qed simp

lemma kept_new: "inv r0 \<Longrightarrow> kept inv ids tot r0 (NewAsyncRecorder r0 policy)"
  by (simp add: kept_def NewAsyncRecorder_def)

end

section \<open>Shutdown\<close>

text \<open>No producer is between its policy decision and the end of its \<open>Record\<close> call.\<close>

definition quiet :: "'s async_state \<Rightarrow> bool" where
  "quiet s \<longleftrightarrow> as_closed s \<and> as_pending s = [] \<and> as_blocked s = []"

text \<open>Once closed and quiet, the channel only shrinks, and it is empty when the close flush runs.\<close>

definition closing_ok :: "'s async_state \<Rightarrow> bool" where
  "closing_ok s \<longleftrightarrow> quiet s \<and>
     (as_writer s = W_Flush K_Close \<longrightarrow> as_items s = []) \<and>
     (\<forall>err. as_writer s = W_Stopped err \<longrightarrow> as_items s = [] \<and> (err = None \<longrightarrow> as_buffer s = []))"

lemma closing_ok_flush:
  assumes "async_ok cfg s" and "as_writer s = W_Flush k" and "closing_ok s"
  shows "closing_ok (writer_run_flush cfg ops c k s)"
proof -
  obtain err t where f: "writer_flush cfg ops (if k = K_Close then c else (\<lambda>_. False)) s = (err, t)"
    by (cases "writer_flush cfg ops (if k = K_Close then c else (\<lambda>_. False)) s")
  have t: "as_items t = as_items s" "as_closed t = as_closed s" "as_pending t = as_pending s"
      "as_blocked t = as_blocked s"
    using f by (auto simp: writer_flush_def Let_def split: if_splits prod.splits)
  have buf: "as_buffer t = []" if "err = None"
  proof (cases "as_events s = [] \<and> as_rollups s = []")
    case True
    then have "as_buffer s = []"
      using nothing_buffered [of "as_buffer s"] assms(1) async_ok_all_items [OF assms(1)]
      by (auto simp: async_ok_def places_def list_all_iff)
    then show ?thesis using f True by (simp add: writer_flush_def)
  next
    case False
    then show ?thesis using f that by (auto simp: writer_flush_def Let_def split: prod.splits)
  qed
  show ?thesis
    using assms(2,3) f t buf
    by (auto simp: writer_run_flush_def closing_ok_def quiet_def split: flush_kind.splits)
qed

lemma closing_ok_step:
  assumes "async_step cfg ops s t" and "async_ok cfg s" and "closing_ok s"
  shows "closing_ok t"
  using assms
proof (induction rule: async_step.induct)
  case (step_flush s k cancelled)
  then show ?case using closing_ok_flush by blast
next
  case (step_drain s k)
  then show ?case
    by (cases k; cases "as_items s") (auto simp: closing_ok_def quiet_def writer_drain_def writer_add_def)
qed (auto simp: closing_ok_def quiet_def async_Record_def writer_receive_def writer_add_def Let_def)

lemma closing_ok_steps:
  assumes "async_steps cfg ops s t" and "async_ok cfg s" and "closing_ok s"
  shows "closing_ok t"
  using assms
proof (induction rule: rtranclp_induct)
  case (step t u)
  then show ?case using closing_ok_step [OF step.hyps(2) async_steps_ok [OF step.hyps(1)]] by simp
qed simp

text \<open>Before \<open>Close\<close> the writer is never in its closing phase.\<close>

definition open_ok :: "'s async_state \<Rightarrow> bool" where
  "open_ok s \<longleftrightarrow> (as_closed s \<or> \<not> as_closeCh s) \<and>
     (as_writer s \<in> {W_Drain K_Close, W_Flush K_Close} \<or> (\<exists>e. as_writer s = W_Stopped e) \<longrightarrow> as_closed s)"

lemma writer_flush_closed:
  "writer_flush cfg ops c s = (err, t) \<Longrightarrow> as_closed t = as_closed s \<and> as_closeCh t = as_closeCh s"
  by (auto simp: writer_flush_def Let_def split: if_splits prod.splits)

lemma open_ok_step:
  assumes "async_step cfg ops s t" and "open_ok s"
  shows "open_ok t"
  using assms
proof (induction rule: async_step.induct)
  case (step_flush s k cancelled)
  then show ?case
    by (cases k)
      (auto simp: open_ok_def writer_run_flush_def dest!: writer_flush_closed split: prod.splits)
next
  case (step_drain s k)
  then show ?case by (cases "as_items s") (auto simp: open_ok_def writer_drain_def writer_add_def)
next
  case (step_record s hex now g e)
  then show ?case by (auto simp: open_ok_def async_Record_def Let_def split: prod.splits)
qed (auto simp: open_ok_def async_ops Let_def)

lemma open_ok_steps: "async_steps cfg ops s t \<Longrightarrow> open_ok s \<Longrightarrow> open_ok t"
  by (induction rule: rtranclp_induct) (auto intro: open_ok_step)

lemma open_ok_new: "open_ok (NewAsyncRecorder repo policy)"
  by (simp add: open_ok_def NewAsyncRecorder_def)

section \<open>Running schedules\<close>

text \<open>An executable scheduler: an action that is not enabled gives \<open>None\<close>.\<close>

datatype async_action =
    A_Record string time rng event
  | A_Try nat
  | A_Sent nat
  | A_ContextDone nat
  | A_TimedOut nat
  | A_Receive
  | A_Tick
  | A_FlushCall
  | A_FlushRequest
  | A_CloseCall
  | A_CloseRequest
  | A_Drain
  | A_Flush bool

definition enabled :: "bool \<Rightarrow> 'a \<Rightarrow> 'a option" where
  "enabled b x = (if b then Some x else None)"

fun async_exec :: "AsyncConfig \<Rightarrow> 's repo_ops \<Rightarrow> async_action \<Rightarrow> 's async_state \<Rightarrow> 's async_state option" where
  "async_exec cfg ops (A_Record hex now g e) s = Some (async_Record hex now g e s)"
| "async_exec cfg ops (A_Try i) s =
     enabled (i < length (as_pending s)) (enqueue_try cfg (as_pending s ! i) s)"
| "async_exec cfg ops (A_Sent i) s =
     enabled (i < length (as_blocked s) \<and> int (length (as_items s)) < ac_ChannelSize cfg)
       (enqueue_sent (as_blocked s ! i) s)"
| "async_exec cfg ops (A_ContextDone i) s =
     enabled (i < length (as_blocked s)) (enqueue_context_done (as_blocked s ! i) s)"
| "async_exec cfg ops (A_TimedOut i) s =
     enabled (i < length (as_blocked s)) (enqueue_timed_out (as_blocked s ! i) s)"
| "async_exec cfg ops A_Receive s =
     enabled (as_writer s = W_Select \<and> as_items s \<noteq> []) (writer_receive cfg s)"
| "async_exec cfg ops A_Tick s = enabled (as_writer s = W_Select) (s\<lparr>as_writer := W_Flush K_Background\<rparr>)"
| "async_exec cfg ops A_FlushCall s = enabled (\<not> as_closed s) (s\<lparr>as_flushers := Suc (as_flushers s)\<rparr>)"
| "async_exec cfg ops A_FlushRequest s =
     enabled (as_writer s = W_Select \<and> 0 < as_flushers s)
       (s\<lparr>as_flushers := as_flushers s - 1, as_writer := W_Drain K_Request\<rparr>)"
| "async_exec cfg ops A_CloseCall s = enabled (\<not> as_closed s) (s\<lparr>as_closed := True, as_closeCh := True\<rparr>)"
| "async_exec cfg ops A_CloseRequest s =
     enabled (as_writer s = W_Select \<and> as_closeCh s) (s\<lparr>as_closeCh := False, as_writer := W_Drain K_Close\<rparr>)"
| "async_exec cfg ops A_Drain s = (case as_writer s of W_Drain k \<Rightarrow> Some (writer_drain k s) | _ \<Rightarrow> None)"
| "async_exec cfg ops (A_Flush cancelled) s =
     (case as_writer s of W_Flush k \<Rightarrow> Some (writer_run_flush cfg ops (\<lambda>_. cancelled) k s) | _ \<Rightarrow> None)"

fun async_run :: "AsyncConfig \<Rightarrow> 's repo_ops \<Rightarrow> async_action list \<Rightarrow> 's async_state \<Rightarrow> 's async_state option" where
  "async_run cfg ops [] s = Some s"
| "async_run cfg ops (a # as) s = Option.bind (async_exec cfg ops a s) (async_run cfg ops as)"

lemma async_exec_step: "async_exec cfg ops a s = Some t \<Longrightarrow> async_step cfg ops s t"
proof (cases a)
  case A_FlushRequest
  assume "async_exec cfg ops a s = Some t"
  then show ?thesis
    using A_FlushRequest step_flush_request [of s "as_flushers s - 1" cfg ops]
    by (auto simp: enabled_def split: if_splits)
qed (auto simp: enabled_def intro: async_step.intros split: if_splits writer.splits)

lemma async_run_steps: "async_run cfg ops as s = Some t \<Longrightarrow> async_steps cfg ops s t"
proof (induction as arbitrary: s)
  case (Cons a as)
  then obtain u where "async_exec cfg ops a s = Some u" "async_run cfg ops as u = Some t"
    by (cases "async_exec cfg ops a s") auto
  then show ?case
    using Cons.IH async_exec_step converse_rtranclp_into_rtranclp by metis
qed simp

lemma async_run_append: "async_run cfg ops (as @ bs) s = Option.bind (async_run cfg ops as s) (async_run cfg ops bs)"
  by (induction as arbitrary: s) (auto split: Option.bind_splits)

lemma async_run_prefix: "async_run cfg ops as s \<noteq> None \<Longrightarrow> async_run cfg ops (take n as) s \<noteq> None"
  using async_run_append [of cfg ops "take n as" "drop n as" s] by (cases "async_run cfg ops (take n as) s") auto

lemma async_run_Some: "async_run cfg ops as s \<noteq> None \<Longrightarrow> async_steps cfg ops s (the (async_run cfg ops as s))"
  using async_run_steps by fastforce

section \<open>Properties\<close>

text \<open>
  C5. No accepted item goes astray: in every reachable state each item that the policy accepted is
  in exactly one place (with a producer, in the channel, in the writer's buffer, flushed, or
  dropped), the channel holds at most its size, every drop is counted, and a critical item is
  never dropped because the channel is full.
\<close>

theorem async_conservation:
  assumes "async_steps (normalize_async_config cfg) ops (NewAsyncRecorder repo policy) s"
  shows "mset (as_accepted s) = mset (as_pending s) + mset (as_blocked s) + mset (as_items s) +
      mset (as_buffer s) + mset (as_flushed s) + mset (map fst (as_dropped s)) \<and>
    int (length (as_items s)) \<le> ac_ChannelSize (normalize_async_config cfg) \<and>
    st_DroppedTotal (as_stats s) = int (length (as_dropped s)) \<and>
    (\<forall>i. (i, channel_full) \<in> set (as_dropped s) \<longrightarrow> it_priority i \<noteq> EventPriorityCritical)"
  using async_steps_ok [OF assms async_ok_new] normalize_async_positive(1) [of cfg]
  by (simp add: async_ok_def places_def)

definition small_config :: AsyncConfig where
  "small_config = DefaultAsyncConfig\<lparr>ac_ChannelSize := 1\<rparr>"

definition demo_event :: "string \<Rightarrow> event" where
  "demo_event action = zero_event\<lparr>ev_Action := action, ev_StatusCode := 200\<rparr>"

text \<open>Three events for a channel of size one: a normal one is dropped, a critical one waits.\<close>

definition demo_full :: "async_action list" where
  "demo_full = [A_Record ''01'' 5 (\<lambda>_. 0, 0) (demo_event ''system.startup''),
     A_Record ''02'' 6 (\<lambda>_. 0, 0) (demo_event ''system.startup''),
     A_Record ''03'' 7 (\<lambda>_. 0, 0) (demo_event ''admin.reset''), A_Try 0, A_Try 0, A_Try 0]"

theorem async_conservation_witness:
  "st_DroppedTotal (as_stats (the (async_run (normalize_async_config small_config) (bun_ops (\<lambda>_. ([], 5)) 5) demo_full
     (NewAsyncRecorder (sample_repo DialectPostgres (\<lambda>_. Commit)) None)))) = 1"
proof -
  let ?s = "async_run (normalize_async_config small_config) (bun_ops (\<lambda>_. ([], 5)) 5) demo_full
     (NewAsyncRecorder (sample_repo DialectPostgres (\<lambda>_. Commit)) None)"
  have r: "?s \<noteq> None" by code_simp
  have l: "length (as_dropped (the ?s)) = 1" by code_simp
  from async_conservation [OF async_run_Some [OF r]] l show ?thesis by simp
qed

lemma async_ok_normalized: "async_ok (normalize_async_config cfg) (NewAsyncRecorder repo policy)"
  by (intro async_ok_new less_imp_le normalize_async_positive(1))

lemma stopped_step:
  assumes "async_step cfg ops s t" and "as_writer s = W_Stopped err"
  shows "as_writer t = W_Stopped err \<and> as_repo t = as_repo s"
  using assms by (induction rule: async_step.induct) (auto simp: async_ops Let_def split: prod.splits)

lemma stopped_steps:
  assumes "async_steps cfg ops s t" and "as_writer s = W_Stopped err"
  shows "as_writer t = W_Stopped err \<and> as_repo t = as_repo s"
  using assms by (induction rule: rtranclp_induct) (auto dest: stopped_step)

lemma stopped_repo_views:
  assumes "as_writer s = W_Stopped err" and "event_ids (rp_tables (as_repo s)) = c"
  shows "{event_ids (rp_tables (as_repo t)) |t. async_steps cfg ops s t} = {c}"
proof (rule set_eqI, rule iffI)
  fix x
  assume "x \<in> {event_ids (rp_tables (as_repo t)) |t. async_steps cfg ops s t}"
  then obtain t where t: "x = event_ids (rp_tables (as_repo t))" "async_steps cfg ops s t" by blast
  from stopped_steps [OF t(2) assms(1)] t(1) assms(2) show "x \<in> {c}" by simp
next
  fix x
  assume "x \<in> {c}"
  then have "x = event_ids (rp_tables (as_repo s))" using assms(2) by simp
  then show "x \<in> {event_ids (rp_tables (as_repo t)) |t. async_steps cfg ops s t}"
    by (intro CollectI exI [of _ s] conjI rtranclp.rtrancl_refl)
qed

lemma poison_step:
  assumes "async_step cfg (bun_ops env now) s t" and "async_ok cfg s" and "0 < ac_RetryMaxAttempts cfg"
    and "i \<in> set (as_buffer s)" and "ev_ID (it_event i) \<noteq> []" and "oversized (it_event i)"
    and "rp_dialect (as_repo s) \<noteq> DialectSQLite"
  shows "i \<in> set (as_buffer t) \<and> rp_dialect (as_repo t) \<noteq> DialectSQLite \<and>
    rp_tables (as_repo t) = rp_tables (as_repo s)"
  using async_step_frame [OF assms(1)]
proof (elim disjE exE conjE)
  fix ks
  assume "as_repo t = as_repo s" "as_buffer t = as_buffer s @ ks"
  then show ?thesis using assms(4,7) by simp
next
  fix k c
  assume t: "t = writer_run_flush cfg (bun_ops env now) c k s"
  from writer_run_flush_cases [OF assms(2), of "bun_ops env now" c k] show ?thesis
  proof cases
    case 1
    then show ?thesis using assms(4) by simp
  next
    case (2 err waits st st' cancelled)
    have "it_event i \<in> set (events_of (as_buffer s))" using assms(4,5) by (auto simp: events_of_def)
    from flushWithRetry_oversized [OF assms(7) this assms(6,3) 2(1)] 2(4) t assms(4) show ?thesis by auto
  qed
qed

lemma poison_steps:
  assumes "async_steps cfg (bun_ops env now) s t" and "async_ok cfg s" and "0 < ac_RetryMaxAttempts cfg"
    and "i \<in> set (as_buffer s)" and "ev_ID (it_event i) \<noteq> []" and "oversized (it_event i)"
    and "rp_dialect (as_repo s) \<noteq> DialectSQLite"
  shows "i \<in> set (as_buffer t) \<and> rp_dialect (as_repo t) \<noteq> DialectSQLite \<and>
    rp_tables (as_repo t) = rp_tables (as_repo s)"
  using assms
proof (induction rule: rtranclp_induct)
  case (step t u)
  then show ?case
    using poison_step [OF step.hyps(2) async_steps_ok [OF step.hyps(1)], of i] by simp
qed simp

text \<open>
  C4. A graceful shutdown loses nothing: when \<open>Close\<close> is called while no producer is inside
  \<open>Record\<close> and the writer then stops without an error, every accepted item was flushed or is a
  counted drop, every accepted event that was not dropped is in the event table, and the rollup
  table has grown at least by all flushed rollups.
\<close>

theorem graceful_shutdown_stores_all:
  assumes "tables_ok (rp_tables repo)"
    and "async_steps (normalize_async_config cfg) (bun_ops env now) (NewAsyncRecorder repo policy) s"
    and "\<not> as_closed s" and "as_pending s = []" and "as_blocked s = []"
    and "async_steps (normalize_async_config cfg) (bun_ops env now) (s\<lparr>as_closed := True, as_closeCh := True\<rparr>) t"
    and "as_writer t = W_Stopped None"
  shows "mset (as_accepted t) = mset (as_flushed t) + mset (map fst (as_dropped t)) \<and>
    ev_ID ` set (events_of (as_flushed t)) \<subseteq> event_ids (rp_tables (as_repo t)) \<and>
    rollup_total (rp_tables repo) + (\<Sum>r\<leftarrow>rollups_of (as_flushed t). effective_count r)
      \<le> rollup_total (rp_tables (as_repo t))"
proof -
  let ?C = "normalize_async_config cfg" and ?c = "s\<lparr>as_closed := True, as_closeCh := True\<rparr>"
  have new: "async_ok ?C (NewAsyncRecorder repo policy)"
    by (rule async_ok_normalized)
  have steps: "async_steps ?C (bun_ops env now) (NewAsyncRecorder repo policy) t"
    using assms(2) step_close_call [OF assms(3)] assms(6) by (meson rtranclp.rtrancl_into_rtrancl rtranclp_trans)
  have ok: "async_ok ?C ?c" using async_steps_ok [OF assms(2) new] by simp
  have "open_ok s" using open_ok_steps [OF assms(2) open_ok_new] .
  with assms(3-5) have "closing_ok ?c" by (auto simp: open_ok_def closing_ok_def quiet_def)
  from closing_ok_steps [OF assms(6) ok this] assms(7)
  have "as_pending t = []" "as_blocked t = []" "as_items t = []" "as_buffer t = []"
    by (auto simp: closing_ok_def quiet_def)
  moreover have "kept repo_ok repo_ids repo_count repo t"
    using bun.kept_steps [OF steps new normalize_async_positive(3) bun.kept_new] assms(1)
    by (simp add: repo_ok_def)
  moreover have "mset (as_accepted t) = places t"
    using async_steps_ok [OF steps new] by (simp add: async_ok_def)
  ultimately show ?thesis by (auto simp: places_def kept_def repo_views)
qed

text \<open>One event recorded and enqueued before \<open>Close\<close>, and the writer's work after it.\<close>

definition demo_before :: "async_action list" where
  "demo_before = [A_Record ''01'' 5 (\<lambda>_. 0, 0) (demo_event ''admin.reset''), A_Try 0]"

definition demo_after :: "async_action list" where
  "demo_after = [A_CloseRequest, A_Drain, A_Drain, A_Flush False]"

definition demo_open :: "repository async_state" where
  "demo_open = the (async_run (normalize_async_config small_config) (bun_ops (\<lambda>_. ([], 5)) 5) demo_before
     (NewAsyncRecorder (sample_repo DialectPostgres (\<lambda>_. Commit)) None))"

definition demo_stopped :: "repository async_state" where
  "demo_stopped = the (async_run (normalize_async_config small_config) (bun_ops (\<lambda>_. ([], 5)) 5) demo_after
     (demo_open\<lparr>as_closed := True, as_closeCh := True\<rparr>))"

theorem graceful_shutdown_stores_all_witness:
  "''audit_01'' \<in> event_ids (rp_tables (as_repo demo_stopped))"
proof -
  let ?run = "async_run (normalize_async_config small_config) (bun_ops (\<lambda>_. ([], 5)) 5)"
  let ?repo = "sample_repo DialectPostgres (\<lambda>_. Commit)"
  let ?s = "the (?run demo_before (NewAsyncRecorder ?repo None))"
  let ?t = "the (?run demo_after (?s\<lparr>as_closed := True, as_closeCh := True\<rparr>))"
  have 1: "tables_ok (rp_tables ?repo)" by (simp add: sample_repo_def empty_tables_ok)
  have 2: "?run demo_before (NewAsyncRecorder ?repo None) \<noteq> None" by code_simp
  have 3: "\<not> as_closed ?s" by code_simp
  have 4: "as_pending ?s = []" "as_blocked ?s = []" by code_simp+
  have 5: "?run demo_after (?s\<lparr>as_closed := True, as_closeCh := True\<rparr>) \<noteq> None" by code_simp
  have 6: "as_writer ?t = W_Stopped None" by code_simp
  have 7: "''audit_01'' \<in> ev_ID ` set (events_of (as_flushed ?t))" by code_simp
  show ?thesis
    using graceful_shutdown_stores_all [OF 1 async_run_Some [OF 2] 3 4 async_run_Some [OF 5] 6] 7
    unfolding demo_stopped_def demo_open_def by blast
qed

subsection \<open>Runs of the recorder\<close>

text \<open>
  The steps of the writer among all steps: what its \<open>select\<close> chose, an item drained, a flush.  A
  run is an infinite sequence of steps of any of the parties.  In a fair run the writer is scheduled
  again and again until it has stopped, and its \<open>select\<close>, which picks among the ready cases at
  random, does not pass over a waiting \<open>Close\<close> for ever.
\<close>

inductive writer_step :: "AsyncConfig \<Rightarrow> 's repo_ops \<Rightarrow> 's async_state \<Rightarrow> 's async_state \<Rightarrow> bool"
  for cfg :: AsyncConfig and ops :: "'s repo_ops" where
  writer_receives: "as_writer s = W_Select \<Longrightarrow> as_items s \<noteq> [] \<Longrightarrow> writer_step cfg ops s (writer_receive cfg s)"
| writer_ticks: "as_writer s = W_Select \<Longrightarrow> writer_step cfg ops s (s\<lparr>as_writer := W_Flush K_Background\<rparr>)"
| writer_serves_flush: "as_writer s = W_Select \<Longrightarrow> as_flushers s = Suc n \<Longrightarrow>
    writer_step cfg ops s (s\<lparr>as_flushers := n, as_writer := W_Drain K_Request\<rparr>)"
| writer_serves_close: "as_writer s = W_Select \<Longrightarrow> as_closeCh s \<Longrightarrow>
    writer_step cfg ops s (s\<lparr>as_closeCh := False, as_writer := W_Drain K_Close\<rparr>)"
| writer_drains: "as_writer s = W_Drain k \<Longrightarrow> writer_step cfg ops s (writer_drain k s)"
| writer_flushes: "as_writer s = W_Flush k \<Longrightarrow> writer_step cfg ops s (writer_run_flush cfg ops cancelled k s)"

lemma writer_step_async: "writer_step cfg ops s t \<Longrightarrow> async_step cfg ops s t"
  by (induction rule: writer_step.induct) (auto intro: async_step.intros)

definition is_run :: "AsyncConfig \<Rightarrow> 's repo_ops \<Rightarrow> (nat \<Rightarrow> 's async_state) \<Rightarrow> bool" where
  "is_run cfg ops \<sigma> \<longleftrightarrow> (\<forall>i. async_step cfg ops (\<sigma> i) (\<sigma> (Suc i)))"

definition stopped :: "'s async_state \<Rightarrow> bool" where
  "stopped s \<longleftrightarrow> (\<exists>err. as_writer s = W_Stopped err)"

definition fair_run :: "AsyncConfig \<Rightarrow> 's repo_ops \<Rightarrow> (nat \<Rightarrow> 's async_state) \<Rightarrow> bool" where
  "fair_run cfg ops \<sigma> \<longleftrightarrow> is_run cfg ops \<sigma> \<and>
     (\<forall>i. stopped (\<sigma> i) \<or> (\<exists>j \<ge> i. writer_step cfg ops (\<sigma> j) (\<sigma> (Suc j)))) \<and>
     ((\<forall>i. \<exists>j \<ge> i. as_writer (\<sigma> j) = W_Select \<and> as_closeCh (\<sigma> j)) \<longrightarrow>
      (\<exists>j. as_closeCh (\<sigma> j) \<and> \<not> as_closeCh (\<sigma> (Suc j))))"

text \<open>What is still on its way once no \<open>Record\<close> accepts anything, and the work of a drain or flush.\<close>

definition in_flight :: "'s async_state \<Rightarrow> nat" where
  "in_flight s = length (as_items s) + length (as_pending s) + length (as_blocked s)"

definition work :: "'s async_state \<Rightarrow> nat" where
  "work s = (case as_writer s of W_Drain k \<Rightarrow> in_flight s + 2 | W_Flush k \<Rightarrow> 1 | _ \<Rightarrow> 0)"

definition closing :: "'s async_state \<Rightarrow> bool" where
  "closing s \<longleftrightarrow> as_writer s \<in> {W_Drain K_Close, W_Flush K_Close} \<or> stopped s"

lemma writer_flush_frame:
  "writer_flush cfg ops c s = (err, t) \<Longrightarrow> as_items t = as_items s \<and> as_closed t = as_closed s \<and>
     as_closeCh t = as_closeCh s \<and> as_pending t = as_pending s \<and> as_blocked t = as_blocked s \<and>
     as_flushed t @ as_buffer t = as_flushed s @ as_buffer s"
  by (auto simp: writer_flush_def Let_def split: if_splits prod.splits)

lemma writer_run_flush_frame:
  "as_items (writer_run_flush cfg ops c k s) = as_items s"
  "as_closed (writer_run_flush cfg ops c k s) = as_closed s"
  "as_closeCh (writer_run_flush cfg ops c k s) = as_closeCh s"
  "as_flushed (writer_run_flush cfg ops c k s) @ as_buffer (writer_run_flush cfg ops c k s) =
     as_flushed s @ as_buffer s"
  "in_flight (writer_run_flush cfg ops c k s) = in_flight s"
  by (auto simp: writer_run_flush_def in_flight_def split: prod.split flush_kind.split dest!: writer_flush_frame)

lemma writer_run_flush_writer:
  "as_writer (writer_run_flush cfg ops c k s) = W_Select \<and> k \<noteq> K_Close \<or>
   (\<exists>err. as_writer (writer_run_flush cfg ops c k s) = W_Stopped err) \<and> k = K_Close"
  by (cases k) (auto simp: writer_run_flush_def split: prod.split)

text \<open>Once closed: a step of the writer does part of its work, and no other step adds to it.\<close>

lemma closed_step:
  assumes "async_step cfg ops s t" and "as_closed s"
  shows "as_closed t" and "in_flight t \<le> in_flight s"
    and "writer_step cfg ops s t \<or> as_writer t = as_writer s \<and> as_closeCh t = as_closeCh s"
proof -
  have "as_closed t \<and> in_flight t \<le> in_flight s \<and>
    (writer_step cfg ops s t \<or> as_writer t = as_writer s \<and> as_closeCh t = as_closeCh s)"
    using assms
  proof (induction rule: async_step.induct)
    case (step_try item s)
    then show ?case using length_pos_if_in_set [OF step_try.hyps]
      by (auto simp: enqueue_try_def add_enqueued_def drop_item_def in_flight_def length_remove1 Let_def)
  next
    case (step_sent item s)
    then show ?case using length_pos_if_in_set [OF step_sent.hyps(1)]
      by (auto simp: enqueue_sent_def add_enqueued_def in_flight_def length_remove1)
  next
    case (step_context_done item s)
    then show ?case
      by (auto simp: enqueue_context_done_def add_enqueue_error_def drop_item_def in_flight_def length_remove1)
  next
    case (step_timed_out item s)
    then show ?case
      by (auto simp: enqueue_timed_out_def add_enqueued_def drop_item_def in_flight_def length_remove1)
  next
    case (step_receive s)
    then show ?case using writer_receives [of s cfg ops]
      by (auto simp: writer_receive_def writer_add_def in_flight_def Let_def)
  next
    case (step_drain s k)
    then show ?case using writer_drains [of s k cfg ops]
      by (auto simp: writer_drain_def writer_add_def in_flight_def split: list.splits)
  next
    case (step_flush s k cancelled)
    then show ?case using writer_flushes [of s k cfg ops cancelled] by (simp add: writer_run_flush_frame)
  qed (auto simp: async_Record_def in_flight_def intro: writer_step.intros)
  then show "as_closed t" and "in_flight t \<le> in_flight s"
    and "writer_step cfg ops s t \<or> as_writer t = as_writer s \<and> as_closeCh t = as_closeCh s" by auto
qed

lemma writer_step_work:
  assumes "writer_step cfg ops s t" and "work s \<noteq> 0"
  shows "work t < work s"
  using assms
proof (induction rule: writer_step.induct)
  case (writer_drains s k)
  then show ?case
    by (auto simp: work_def writer_drain_def writer_add_def in_flight_def split: list.splits)
next
  case (writer_flushes s k cancelled)
  then show ?case using writer_run_flush_writer [of cfg ops cancelled k s] by (auto simp: work_def)
qed (simp_all add: work_def)

lemma closing_step:
  assumes "async_step cfg ops s t" and "as_closed s" and "closing s"
  shows "closing t"
proof (cases "writer_step cfg ops s t")
  case True
  then show ?thesis using assms(3)
  proof (induction rule: writer_step.induct)
    case (writer_drains s k)
    then show ?case
      by (auto simp: closing_def stopped_def writer_drain_def writer_add_def split: list.splits)
  next
    case (writer_flushes s k cancelled)
    then show ?case using writer_run_flush_writer [of cfg ops cancelled k s]
      by (auto simp: closing_def stopped_def)
  qed (simp_all add: closing_def stopped_def)
next
  case False
  with closed_step(3) [OF assms(1,2)] assms(3) show ?thesis by (simp add: closing_def stopped_def)
qed

lemma close_taken:
  assumes "async_step cfg ops s t" and "as_closed s" and "as_closeCh s" and "\<not> as_closeCh t"
  shows "closing t"
proof -
  have "writer_step cfg ops s t" using closed_step(3) [OF assms(1,2)] assms(3,4) by auto
  then show ?thesis using assms(3,4)
  proof (induction rule: writer_step.induct)
    case (writer_drains s k)
    then show ?case by (auto simp: writer_drain_def writer_add_def split: list.splits)
  qed (auto simp: closing_def writer_run_flush_frame writer_receive_def writer_add_def Let_def split: if_splits)
qed

subsection \<open>Every fair run stops the writer\<close>

lemma run_closed:
  assumes "is_run cfg ops \<sigma>" and "as_closed (\<sigma> i)" and "i \<le> j"
  shows "as_closed (\<sigma> j)" and "in_flight (\<sigma> j) \<le> in_flight (\<sigma> i)"
  using assms(3)
proof (induction j rule: dec_induct)
  case (step j)
  from assms(1) have s: "async_step cfg ops (\<sigma> j) (\<sigma> (Suc j))" by (simp add: is_run_def)
  { case 1 show ?case by (rule closed_step(1) [OF s step.IH(1)]) }
  { case 2 show ?case using closed_step(2) [OF s step.IH(1)] step.IH(2) by simp }
qed (simp_all add: assms(2))

lemma run_closing:
  assumes "is_run cfg ops \<sigma>" and "as_closed (\<sigma> i)" and "closing (\<sigma> i)" and "i \<le> j"
  shows "closing (\<sigma> j)"
  using assms(4)
proof (induction j rule: dec_induct)
  case (step j)
  then show ?case
    using closing_step run_closed(1) [OF assms(1,2)] assms(1) by (fastforce simp: is_run_def)
qed (rule assms(3))

text \<open>The next step of the writer, with no more work ahead of it than now.\<close>

lemma next_writer_step:
  assumes "fair_run cfg ops \<sigma>" and "as_closed (\<sigma> i)" and "\<not> stopped (\<sigma> i)"
  obtains j where "i \<le> j" "writer_step cfg ops (\<sigma> j) (\<sigma> (Suc j))" "as_writer (\<sigma> j) = as_writer (\<sigma> i)"
    "work (\<sigma> j) \<le> work (\<sigma> i)"
proof -
  have run: "is_run cfg ops \<sigma>" using assms(1) by (simp add: fair_run_def)
  let ?P = "\<lambda>j. i \<le> j \<and> writer_step cfg ops (\<sigma> j) (\<sigma> (Suc j))"
  have ex: "\<exists>j. ?P j" using assms(1,3) by (auto simp: fair_run_def)
  define j where "j = (LEAST j. ?P j)"
  have j: "i \<le> j" "writer_step cfg ops (\<sigma> j) (\<sigma> (Suc j))" using LeastI_ex [OF ex] by (auto simp: j_def)
  have same: "as_writer (\<sigma> l) = as_writer (\<sigma> i)" if "i \<le> l" "l \<le> j" for l
    using that
  proof (induction l rule: dec_induct)
    case (step l)
    then have "\<not> ?P l" using not_less_Least [of l ?P] by (simp add: j_def)
    with step closed_step(3) [of cfg ops "\<sigma> l" "\<sigma> (Suc l)"] run_closed(1) [OF run assms(2), of l] run
    show ?case by (auto simp: is_run_def)
  qed simp
  have "work (\<sigma> j) \<le> work (\<sigma> i)"
    using same [OF j(1)] run_closed(2) [OF run assms(2) j(1)] by (simp add: work_def split: writer.split)
  with j same [OF j(1)] show ?thesis by (intro that [of j]) simp_all
qed

text \<open>A drain or a flush comes to its end.\<close>

lemma work_ends:
  assumes "fair_run cfg ops \<sigma>" and "as_closed (\<sigma> i)"
  shows "\<exists>j \<ge> i. work (\<sigma> j) = 0"
  using assms(2)
proof (induction "work (\<sigma> i)" arbitrary: i rule: less_induct)
  case less
  show ?case
  proof (cases "work (\<sigma> i) = 0")
    case False
    then have "\<not> stopped (\<sigma> i)" by (auto simp: work_def stopped_def)
    then obtain j where j: "i \<le> j" "writer_step cfg ops (\<sigma> j) (\<sigma> (Suc j))" "as_writer (\<sigma> j) = as_writer (\<sigma> i)"
        "work (\<sigma> j) \<le> work (\<sigma> i)" by (rule next_writer_step [OF assms(1) less.prems])
    have "work (\<sigma> j) \<noteq> 0" using False j(3) by (auto simp: work_def split: writer.splits)
    from writer_step_work [OF j(2) this] j(4) have "work (\<sigma> (Suc j)) < work (\<sigma> i)" by simp
    moreover have "as_closed (\<sigma> (Suc j))"
      using run_closed(1) [of cfg ops \<sigma> i "Suc j"] assms(1) less.prems j(1) by (simp add: fair_run_def)
    ultimately obtain l where "l \<ge> Suc j" "work (\<sigma> l) = 0" using less.hyps by blast
    with j(1) show ?thesis by (intro exI [of _ l]) auto
  qed auto
qed

lemma work_0: "work s = 0 \<Longrightarrow> as_writer s = W_Select \<or> stopped s"
  by (auto simp: work_def stopped_def split: writer.splits)

lemma closing_stops:
  assumes "fair_run cfg ops \<sigma>" and "as_closed (\<sigma> i)" and "closing (\<sigma> i)"
  shows "\<exists>j. stopped (\<sigma> j)"
proof -
  obtain j where j: "j \<ge> i" "work (\<sigma> j) = 0" using work_ends [OF assms(1,2)] by blast
  have "is_run cfg ops \<sigma>" using assms(1) by (simp add: fair_run_def)
  from run_closing [where \<sigma> = \<sigma>, OF this assms(2,3) j(1)] have "closing (\<sigma> j)" .
  with work_0 [OF j(2)] show ?thesis by (auto simp: closing_def)
qed

lemma fair_run_stops:
  assumes "fair_run cfg ops \<sigma>" and "as_closed (\<sigma> 0)" and "as_closeCh (\<sigma> 0) \<or> closing (\<sigma> 0)"
  shows "\<exists>j. stopped (\<sigma> j)"
proof (rule ccontr)
  assume never: "\<nexists>j. stopped (\<sigma> j)"
  have run: "is_run cfg ops \<sigma>" using assms(1) by (simp add: fair_run_def)
  have closed: "as_closed (\<sigma> j)" for j by (rule run_closed(1) [where \<sigma> = \<sigma>, OF run assms(2) le0])
  have "\<not> closing (\<sigma> j)" for j using closing_stops [OF assms(1) closed] never by blast
  then have keep: "as_closeCh (\<sigma> j) \<Longrightarrow> as_closeCh (\<sigma> (Suc j))" for j
    using close_taken [of cfg ops "\<sigma> j" "\<sigma> (Suc j)"] closed [of j] run by (auto simp: is_run_def)
  have "as_closeCh (\<sigma> 0)" using assms(3) \<open>\<not> closing (\<sigma> 0)\<close> by simp
  then have waiting: "as_closeCh (\<sigma> j)" for j by (induction j) (auto intro: keep)
  have "\<exists>j \<ge> i. as_writer (\<sigma> j) = W_Select \<and> as_closeCh (\<sigma> j)" for i
    using work_ends [OF assms(1) closed, of i] work_0 never waiting by blast
  with assms(1) waiting show False by (auto simp: fair_run_def)
qed

text \<open>Items leave the channel and the buffer in their order, and a closing writer has taken them all.\<close>

definition taken :: "'s async_state \<Rightarrow> asyncItem list" where
  "taken s = as_flushed s @ as_buffer s"

lemma taken_step:
  assumes "async_step cfg ops s t"
  shows "prefix (taken s @ as_items s) (taken t @ as_items t) \<and> prefix (taken s) (taken t) \<and>
    (as_writer t \<in> {W_Flush K_Close} \<or> stopped t \<longrightarrow>
      as_writer s = W_Flush K_Close \<or> stopped s \<or> as_items t = [])"
  using assms
proof (induction rule: async_step.induct)
  case (step_flush s k cancelled)
  then show ?case using writer_run_flush_writer [of cfg ops cancelled k s]
    by (auto simp: taken_def writer_run_flush_frame stopped_def)
next
  case (step_drain s k)
  then show ?case by (cases "as_items s") (auto simp: writer_drain_def writer_add_def taken_def stopped_def)
next
  case (step_receive s)
  then show ?case by (cases "as_items s") (auto simp: writer_receive_def writer_add_def taken_def stopped_def Let_def)
next
  case (step_record s hex now g e)
  then show ?case by (auto simp: async_Record_def taken_def stopped_def Let_def split: prod.splits)
qed (auto simp: enqueue_try_def enqueue_sent_def enqueue_context_done_def enqueue_timed_out_def add_enqueued_def
  add_enqueue_error_def drop_item_def taken_def stopped_def Let_def)

lemma run_taken:
  assumes "is_run cfg ops \<sigma>" and "as_writer (\<sigma> 0) \<noteq> W_Flush K_Close" and "\<not> stopped (\<sigma> 0)"
  shows "prefix (taken (\<sigma> 0) @ as_items (\<sigma> 0)) (taken (\<sigma> i) @ as_items (\<sigma> i)) \<and>
    (as_writer (\<sigma> i) = W_Flush K_Close \<or> stopped (\<sigma> i) \<longrightarrow> prefix (taken (\<sigma> 0) @ as_items (\<sigma> 0)) (taken (\<sigma> i)))"
proof (induction i)
  case 0
  with assms(2,3) show ?case by simp
next
  case (Suc i)
  from assms(1) have "async_step cfg ops (\<sigma> i) (\<sigma> (Suc i))" by (simp add: is_run_def)
  from taken_step [OF this] Suc show ?case by (auto intro: prefix_order.trans)
qed

text \<open>Each accepted item of the buffer is an event or a rollup, so a last flush without error empties it.\<close>

lemma stop_step_buffer:
  assumes "async_step cfg ops s t" and "async_ok cfg s" and "as_writer t = W_Stopped None" and "\<not> stopped s"
  shows "as_buffer t = []"
proof -
  from assms(1,3,4) obtain k c where k: "as_writer s = W_Flush k" "t = writer_run_flush cfg ops c k s"
    by (induction rule: async_step.induct)
      (auto simp: async_ops stopped_def Let_def split: prod.splits list.splits if_splits)
  with assms(3) have "k = K_Close" using writer_run_flush_writer [of cfg ops c k s] by auto
  with k assms(3) have f: "writer_flush cfg ops c s = (None, snd (writer_flush cfg ops c s))"
    by (cases "writer_flush cfg ops c s") (auto simp: writer_run_flush_def)
  have t: "as_buffer t = as_buffer (snd (writer_flush cfg ops c s))"
    using k(2) \<open>k = K_Close\<close> by (simp add: writer_run_flush_def split: prod.split)
  show ?thesis
  proof (cases "as_events s = [] \<and> as_rollups s = []")
    case True
    then have "as_buffer s = []"
      using nothing_buffered [of "as_buffer s"] assms(2) async_ok_all_items [OF assms(2)]
      by (auto simp: async_ok_def places_def list_all_iff)
    then show ?thesis using t True by (simp add: writer_flush_def)
  next
    case False
    then show ?thesis using f t by (auto simp: writer_flush_def Let_def split: prod.splits)
  qed
qed

lemma run_ok:
  assumes "is_run cfg ops \<sigma>" and "async_ok cfg (\<sigma> 0)"
  shows "async_ok cfg (\<sigma> i)"
proof (induction i)
  case (Suc i)
  then show ?case using async_step_ok [of cfg ops "\<sigma> i" "\<sigma> (Suc i)"] assms(1) by (simp add: is_run_def)
qed (rule assms(2))

text \<open>
  C27. \<open>Close\<close> finishes: once it has set \<open>closed\<close> and sent its request, every fair run brings the writer
  to its end, whatever the producers, other calls of \<open>Flush\<close> and the transactions do meanwhile.
  The run is fair when the scheduler runs the writer again and again and its \<open>select\<close> does not pass
  over the request for ever.  At the end everything that was flushed, buffered or queued when \<open>Close\<close>
  was called has been taken in that order, and if the last flush returned no error nothing is left
  in the buffer: all of it has been flushed.
\<close>

theorem close_reaches_stop:
  assumes "fair_run (normalize_async_config cfg) ops \<sigma>" and "async_ok (normalize_async_config cfg) (\<sigma> 0)"
    and "as_closed (\<sigma> 0)" and "as_closeCh (\<sigma> 0) \<or> as_writer (\<sigma> 0) = W_Drain K_Close"
    and "as_writer (\<sigma> 0) \<noteq> W_Flush K_Close" and "\<forall>err. as_writer (\<sigma> 0) \<noteq> W_Stopped err"
  shows "\<exists>i err. as_writer (\<sigma> i) = W_Stopped err \<and>
    prefix (as_flushed (\<sigma> 0) @ as_buffer (\<sigma> 0) @ as_items (\<sigma> 0)) (as_flushed (\<sigma> i) @ as_buffer (\<sigma> i)) \<and>
    (err = None \<longrightarrow> as_buffer (\<sigma> i) = [])"
proof -
  let ?C = "normalize_async_config cfg"
  have run: "is_run ?C ops \<sigma>" using assms(1) by (simp add: fair_run_def)
  have s0: "\<not> stopped (\<sigma> 0)" using assms(6) by (simp add: stopped_def)
  have "as_closeCh (\<sigma> 0) \<or> closing (\<sigma> 0)" using assms(4) by (auto simp: closing_def)
  from fair_run_stops [OF assms(1,3) this] have ex: "\<exists>j. stopped (\<sigma> j)" .
  define i where "i = (LEAST j. stopped (\<sigma> j))"
  have i: "stopped (\<sigma> i)" using LeastI_ex [OF ex] by (simp add: i_def)
  have pre: "prefix (taken (\<sigma> 0) @ as_items (\<sigma> 0)) (taken (\<sigma> i))"
    using run_taken [OF run assms(5) s0] i by blast
  obtain l where l: "i = Suc l" using i s0 by (cases i) auto
  then have "\<not> stopped (\<sigma> l)" using not_less_Least [of l "\<lambda>j. stopped (\<sigma> j)"] by (simp add: i_def [symmetric])
  then have "as_writer (\<sigma> i) = W_Stopped None \<Longrightarrow> as_buffer (\<sigma> i) = []"
    using stop_step_buffer [of ?C ops "\<sigma> l" "\<sigma> i"] run run_ok [OF run assms(2), of l] l by (simp add: is_run_def)
  with i pre show ?thesis by (auto simp: stopped_def taken_def)
qed

text \<open>
  One item waits in the channel when \<open>Close\<close> is called: the writer takes the request, drains, flushes
  and stops.  From then on the state stays; a \<open>Record\<close> after \<open>Close\<close> changes nothing.
\<close>

definition demo_closing :: "async_action list" where
  "demo_closing = [A_CloseRequest, A_Drain, A_Drain, A_Flush False]"

definition demo_run :: "nat \<Rightarrow> repository async_state" where
  "demo_run i = the (async_run (normalize_async_config small_config) (bun_ops (\<lambda>_. ([], 5)) 5) (take i demo_closing)
     (demo_open\<lparr>as_closed := True, as_closeCh := True\<rparr>))"

theorem close_reaches_stop_witness:
  "\<exists>i err. as_writer (demo_run i) = W_Stopped err \<and>
     prefix (as_flushed (demo_run 0) @ as_buffer (demo_run 0) @ as_items (demo_run 0))
       (as_flushed (demo_run i) @ as_buffer (demo_run i)) \<and> as_items (demo_run 0) \<noteq> []"
proof -
  let ?C = "normalize_async_config small_config" and ?ops = "bun_ops (\<lambda>_. ([], 5)) 5"
  let ?d = "demo_open\<lparr>as_closed := True, as_closeCh := True\<rparr>"
  have run4: "async_run ?C ?ops demo_closing ?d \<noteq> None" by code_simp
  have w: "as_writer (demo_run 0) = W_Select" "as_writer (demo_run 1) = W_Drain K_Close"
      "as_writer (demo_run 2) = W_Drain K_Close" "as_writer (demo_run 3) = W_Flush K_Close"
      "as_writer (demo_run 4) = W_Stopped None" by code_simp+
  have z: "as_closed (demo_run 0)" "as_closeCh (demo_run 0)" "as_items (demo_run 0) \<noteq> []" "as_closed (demo_run 4)"
      "\<not> as_closeCh (demo_run 1)"
    by code_simp+
  have late: "demo_run i = demo_run 4" if "4 \<le> i" for i
    using that by (simp add: demo_run_def demo_closing_def)
  have step: "async_exec ?C ?ops (demo_closing ! i) (demo_run i) = Some (demo_run (Suc i))" if "i < 4" for i
  proof -
    have i: "i < length demo_closing" using that by (simp add: demo_closing_def)
    have "async_run ?C ?ops (take (Suc i) demo_closing) ?d \<noteq> None"
      using run4 by (rule async_run_prefix)
    then show ?thesis
      by (auto simp: demo_run_def take_Suc_conv_app_nth [OF i] async_run_append split: Option.bind_splits)
  qed
  have idle: "async_step ?C ?ops s s" if "as_closed s" for s
    using step_record [of ?C ?ops s "[]" 0 "(\<lambda>_. 0, 0)" zero_event] that by (simp add: async_Record_def)
  have run: "is_run ?C ?ops demo_run"
    unfolding is_run_def
  proof
    fix i
    show "async_step ?C ?ops (demo_run i) (demo_run (Suc i))"
    proof (cases "i < 4")
      case True
      then show ?thesis by (rule async_exec_step [OF step])
    next
      case False
      then show ?thesis using idle [OF z(4)] late [of i] late [of "Suc i"] by simp
    qed
  qed
  have "writer_step ?C ?ops (demo_run 3) (demo_run (Suc 3))"
    using step [of 3] writer_flushes [OF w(4), of ?C ?ops "\<lambda>_. False"] w(4) by (simp add: demo_closing_def)
  moreover have "stopped (demo_run i)" if "4 \<le> i" for i using late [OF that] w(5) by (simp add: stopped_def)
  ultimately have live: "stopped (demo_run i) \<or> (\<exists>j \<ge> i. writer_step ?C ?ops (demo_run j) (demo_run (Suc j)))" for i
    by (cases "4 \<le> i") (auto intro: exI [of _ 3])
  have fair: "fair_run ?C ?ops demo_run"
    unfolding fair_run_def using run live z(2,5) by (metis One_nat_def)
  have 0: "demo_run 0 = ?d" by (simp add: demo_run_def)
  have before: "async_run ?C ?ops demo_before (NewAsyncRecorder (sample_repo DialectPostgres (\<lambda>_. Commit)) None) \<noteq> None"
    by code_simp
  have "async_ok ?C demo_open"
    unfolding demo_open_def by (rule async_steps_ok [OF async_run_Some [OF before] async_ok_normalized])
  then have ok: "async_ok ?C (demo_run 0)" by (simp add: 0)
  have "\<exists>i err. as_writer (demo_run i) = W_Stopped err \<and>
      prefix (as_flushed (demo_run 0) @ as_buffer (demo_run 0) @ as_items (demo_run 0))
        (as_flushed (demo_run i) @ as_buffer (demo_run i)) \<and>
      (err = None \<longrightarrow> as_buffer (demo_run i) = [])"
    by (rule close_reaches_stop [OF fair ok]) (use z w(1) in simp_all)
  with z(3) show ?thesis by blast
qed

text \<open>
  C25. One oversized event stops the audit log: PostgreSQL and MySQL refuse a batch with an event
  whose request identifier, remote address or actor is longer than its column.  Once such an event
  is in the writer's buffer it stays there, every flush fails as a whole and the tables never
  change again, whatever is recorded, flushed or closed afterwards.
\<close>

theorem oversized_event_blocks_log:
  assumes "async_steps (normalize_async_config cfg) (bun_ops env now) (NewAsyncRecorder repo policy) s"
    and "i \<in> set (as_buffer s)" and "ev_ID (it_event i) \<noteq> []" and "oversized (it_event i)"
    and "rp_dialect (as_repo s) \<noteq> DialectSQLite"
    and "async_steps (normalize_async_config cfg) (bun_ops env now) s t"
  shows "i \<in> set (as_buffer t) \<and> rp_tables (as_repo t) = rp_tables (as_repo s)"
  using poison_steps [OF assms(6) async_steps_ok [OF assms(1) async_ok_normalized]
      normalize_async_positive(3) assms(2-5)] by blast

definition long_request :: event where
  "long_request = (demo_event ''exchange.request'')\<lparr>ev_RequestID := replicate 129 CHR ''x''\<rparr>"

definition demo_poison :: "async_action list" where
  "demo_poison = [A_Record ''01'' 5 (\<lambda>_. 0, 0) long_request, A_Try 0, A_Receive]"

definition demo_later :: "async_action list" where
  "demo_later = [A_Record ''02'' 6 (\<lambda>_. 0, 0) (demo_event ''admin.reset''), A_Try 0, A_FlushCall,
     A_FlushRequest, A_Drain, A_Drain, A_Flush False]"

definition demo_poisoned :: "async_action list \<Rightarrow> repository async_state" where
  "demo_poisoned later = the (async_run (normalize_async_config small_config) (bun_ops (\<lambda>_. ([], 5)) 5) later
     (the (async_run (normalize_async_config small_config) (bun_ops (\<lambda>_. ([], 5)) 5) demo_poison
        (NewAsyncRecorder (sample_repo DialectPostgres (\<lambda>_. Commit)) None))))"

theorem oversized_event_blocks_log_witness:
  "tb_events (rp_tables (as_repo (demo_poisoned demo_later))) = []"
proof -
  let ?run = "async_run (normalize_async_config small_config) (bun_ops (\<lambda>_. ([], 5)) 5)"
  let ?repo = "sample_repo DialectPostgres (\<lambda>_. Commit)"
  let ?s = "the (?run demo_poison (NewAsyncRecorder ?repo None))"
  have 1: "?run demo_poison (NewAsyncRecorder ?repo None) \<noteq> None" by code_simp
  have 2: "length (as_buffer ?s) = 1" by code_simp
  have 3: "ev_ID (it_event (hd (as_buffer ?s))) \<noteq> []" by code_simp
  have 4: "oversized (it_event (hd (as_buffer ?s)))" by code_simp
  have 5: "rp_dialect (as_repo ?s) \<noteq> DialectSQLite" by code_simp
  have 6: "?run demo_later ?s \<noteq> None" by code_simp
  have 7: "hd (as_buffer ?s) \<in> set (as_buffer ?s)" using 2 by (cases "as_buffer ?s") auto
  have 8: "tb_events (rp_tables (as_repo ?s)) = []" by code_simp
  show ?thesis
    using oversized_event_blocks_log [OF async_run_Some [OF 1] 7 3 4 5 async_run_Some [OF 6]] 8
    unfolding demo_poisoned_def by simp
qed

text \<open>
  C26. An event can be lost without a trace at shutdown: a producer that passed the check of
  \<open>closed\<close> before \<open>Close\<close> can send to the channel after the writer has drained it.  Its \<open>Record\<close>
  call succeeds, \<open>Close\<close> succeeds, nothing is counted as dropped, and the event is never stored.
\<close>

definition demo_race :: "async_action list" where
  "demo_race = [A_Record ''01'' 5 (\<lambda>_. 0, 0) (demo_event ''admin.reset''), A_CloseCall, A_CloseRequest,
     A_Drain, A_Try 0, A_Flush False]"

theorem late_enqueue_lost:
  "\<exists>s. async_steps (normalize_async_config DefaultAsyncConfig) (bun_ops (\<lambda>_. ([], 5)) 5)
        (NewAsyncRecorder (sample_repo DialectPostgres (\<lambda>_. Commit)) None) s \<and>
     as_writer s = W_Stopped None \<and> as_pending s = [] \<and> st_EnqueueTotal (as_stats s) = 1 \<and>
     st_DroppedTotal (as_stats s) = 0 \<and>
     {event_ids (rp_tables (as_repo t)) |t.
        async_steps (normalize_async_config DefaultAsyncConfig) (bun_ops (\<lambda>_. ([], 5)) 5) s t} = {{}}"
proof -
  let ?C = "normalize_async_config DefaultAsyncConfig" and ?ops = "bun_ops (\<lambda>_. ([], 5)) 5"
  let ?r = "async_run ?C ?ops demo_race (NewAsyncRecorder (sample_repo DialectPostgres (\<lambda>_. Commit)) None)"
  have 1: "?r \<noteq> None" by code_simp
  have 2: "as_writer (the ?r) = W_Stopped None" by code_simp
  have 3: "as_pending (the ?r) = []" by code_simp
  have 4: "st_EnqueueTotal (as_stats (the ?r)) = 1" "st_DroppedTotal (as_stats (the ?r)) = 0" by code_simp+
  have 5: "event_ids (rp_tables (as_repo (the ?r))) = {}" by code_simp
  show ?thesis
    by (rule exI [of _ "the ?r"], intro conjI async_run_Some 1 2 3 4 stopped_repo_views [OF 2] 5)
qed

end
