(* ===== verification/Handlers.thy ===== *)
theory Handlers
  imports GoJson GoNet AuditEvent
begin

text \<open>
  The public handlers (\<open>internal/handlers\<close>) with the error envelope (\<open>internal/errors\<close>,
  \<open>internal/model\<close>).  A handler transforms a \<open>gin_context\<close>: the request, the response written so
  far, and the history of what the handler asked others to do: the events passed to the audit
  recorder and the upstream calls, both in order.  What gin provides about the request (client
  address, matched route) is part of the request.  The upstream services are the functions in the
  handler records; any answer is possible.  A recorder's error is only logged, so the events that
  a handler records do not depend on it.
\<close>

section \<open>Requests, responses and the context\<close>

record request =
  rq_Method :: string
  rq_Path :: string
  rq_FullPath :: string
  rq_Headers :: headers
  rq_RemoteAddr :: string
  rq_ClientIP :: string
  rq_Body :: string

datatype response_body =
    ErrorResponse string string
  | ExchangeResponse string int
  | GinError string

record VerifyRequest =
  vr_Token :: string
  vr_RemoteIP :: string

record VerifyResponse =
  vs_Success :: bool
  vs_ChallengeTS :: string
  vs_Hostname :: string
  vs_ErrorCodes :: "string list"
  vs_Action :: string
  vs_CData :: string

record ExchangeResult =
  xr_Token :: string
  xr_ExpireTimeMillis :: int
  xr_TTLMillis :: int

datatype upstream_call =
    CallTurnstile VerifyRequest
  | CallExchange bool
  | CallVerifyToken string

record gin_context =
  cx_Request :: request
  cx_Status :: int
  cx_Header :: headers
  cx_Body :: "response_body option"
  cx_Aborted :: bool
  cx_Clock :: "nat \<Rightarrow> time"
  cx_Ticks :: nat
  cx_Audit :: "event list"
  cx_Calls :: "upstream_call list"

definition new_context :: "request \<Rightarrow> (nat \<Rightarrow> time) \<Rightarrow> gin_context" where
  "new_context rq clock = \<lparr>cx_Request = rq, cx_Status = 200, cx_Header = [], cx_Body = None,
     cx_Aborted = False, cx_Clock = clock, cx_Ticks = 0, cx_Audit = [], cx_Calls = []\<rparr>"

definition read_clock :: "gin_context \<Rightarrow> time \<times> gin_context" where
  "read_clock c = (cx_Clock c (cx_Ticks c), c\<lparr>cx_Ticks := Suc (cx_Ticks c)\<rparr>)"

definition GetHeader :: "gin_context \<Rightarrow> string \<Rightarrow> string" where
  "GetHeader c k = header_get (rq_Headers (cx_Request c)) k"

definition call :: "upstream_call \<Rightarrow> gin_context \<Rightarrow> gin_context" where
  "call u c = c\<lparr>cx_Calls := cx_Calls c @ [u]\<rparr>"

text \<open>\<open>c.JSON\<close> sets the status and, where the status admits one, the body.\<close>

definition body_allowed :: "int \<Rightarrow> bool" where
  "body_allowed status \<longleftrightarrow> \<not> (100 \<le> status \<and> status \<le> 199) \<and> status \<noteq> 204 \<and> status \<noteq> 304"

definition write_json :: "int \<Rightarrow> response_body \<Rightarrow> gin_context \<Rightarrow> gin_context" where
  "write_json status b c =
     c\<lparr>cx_Status := status, cx_Body := (if body_allowed status then Some b else None)\<rparr>"

section \<open>Errors\<close>

record APIError =
  ae_Status :: int
  ae_Code :: string
  ae_Message :: string

definition New :: "int \<Rightarrow> string \<Rightarrow> string \<Rightarrow> APIError" where
  "New status code message = \<lparr>ae_Status = status, ae_Code = code, ae_Message = message\<rparr>"

definition BadRequest :: "string \<Rightarrow> string \<Rightarrow> APIError" where "BadRequest = New 400"
definition Unauthorized :: "string \<Rightarrow> string \<Rightarrow> APIError" where "Unauthorized = New 401"
definition Forbidden :: "string \<Rightarrow> string \<Rightarrow> APIError" where "Forbidden = New 403"
definition Internal :: "string \<Rightarrow> string \<Rightarrow> APIError" where "Internal = New 500"

definition WriteError :: "APIError option \<Rightarrow> gin_context \<Rightarrow> gin_context" where
  "WriteError err c =
     (let e = (case err of Some e \<Rightarrow> e
                         | None \<Rightarrow> Internal ''INTERNAL_ERROR'' ''Unexpected server error'')
      in write_json (ae_Status e) (ErrorResponse (ae_Code e) (ae_Message e)) c)"

lemmas error_defs = New_def BadRequest_def Unauthorized_def Forbidden_def Internal_def

section \<open>Helpers\<close>

record ExchangeRequest =
  xq_TurnstileToken :: string
  xq_LimitedUse :: bool

definition zero_exchange_request :: ExchangeRequest where
  "zero_exchange_request = \<lparr>xq_TurnstileToken = [], xq_LimitedUse = False\<rparr>"

text \<open>One member of the object; an unknown field or a value of the wrong type is an error.\<close>

definition decode_field :: "string \<Rightarrow> json \<Rightarrow> ExchangeRequest \<Rightarrow> ExchangeRequest option" where
  "decode_field k v q =
     (if fold_name k = ''turnstiletoken'' then
        (case v of JString s \<Rightarrow> Some (q\<lparr>xq_TurnstileToken := s\<rparr>) | JNull \<Rightarrow> Some q | _ \<Rightarrow> None)
      else if fold_name k = ''limiteduse'' then
        (case v of JBool b \<Rightarrow> Some (q\<lparr>xq_LimitedUse := b\<rparr>) | JNull \<Rightarrow> Some q | _ \<Rightarrow> None)
      else None)"

fun decode_fields :: "(string \<times> json) list \<Rightarrow> ExchangeRequest \<Rightarrow> ExchangeRequest option" where
  "decode_fields [] q = Some q"
| "decode_fields ((k, v) # kvs) q = Option.bind (decode_field k v q) (decode_fields kvs)"

definition maxJSONBodyBytes :: int where
  "maxJSONBodyBytes = 1048576"

text \<open>\<open>io.LimitReader\<close>.\<close>

fun limit_reader :: "int \<Rightarrow> string \<Rightarrow> string" where
  "limit_reader n [] = []"
| "limit_reader n (c # cs) = (if n \<le> 0 then [] else c # limit_reader (n - 1) cs)"

definition decodeJSONStrict :: "string \<Rightarrow> ExchangeRequest option" where
  "decodeJSONStrict body =
     (case parse_json (limit_reader maxJSONBodyBytes body) of
        Some (JObject kvs) \<Rightarrow> decode_fields kvs zero_exchange_request
      | Some JNull \<Rightarrow> Some zero_exchange_request
      | _ \<Rightarrow> None)"

definition hasJSONContentType :: "request \<Rightarrow> bool" where
  "hasJSONContentType r =
     (let ct = to_lower (trim_space (header_get (rq_Headers r) ''Content-Type''))
      in if ct = [] then False else has_prefix ct ''application/json'')"

fun proxy_ip :: "headers \<Rightarrow> string list \<Rightarrow> string option" where
  "proxy_ip h [] = None"
| "proxy_ip h (name # names) =
     (let v0 = trim_space (header_get h name)
      in if v0 = [] then proxy_ip h names
         else let v = (if name = ''X-Forwarded-For'' then trim_space (hd (split_on CHR '','' v0)) else v0)
              in if parse_ip v then Some v else proxy_ip h names)"

definition extractRemoteIP :: "request \<Rightarrow> bool \<Rightarrow> string" where
  "extractRemoteIP r trustProxyHeaders =
     (case (if trustProxyHeaders
            then proxy_ip (rq_Headers r) [''CF-Connecting-IP'', ''X-Forwarded-For'', ''X-Real-IP''] else None) of
        Some ip \<Rightarrow> ip
      | None \<Rightarrow>
          let addr = trim_space (rq_RemoteAddr r);
              direct = (if parse_ip addr then addr else [])
          in (case split_host_port addr of
                Some (host, port) \<Rightarrow> if parse_ip host then host else direct
              | None \<Rightarrow> direct))"

section \<open>Audit events of requests\<close>

definition firstHeader :: "gin_context \<Rightarrow> string list \<Rightarrow> string" where
  "firstHeader c names =
     (case find (\<lambda>n. trim_space (GetHeader c n) \<noteq> []) names of
        Some n \<Rightarrow> trim_space (GetHeader c n) | None \<Rightarrow> [])"

definition requestID :: "gin_context \<Rightarrow> string" where
  "requestID c = firstHeader c [''X-Request-ID'', ''X-Correlation-ID'', ''X-Amzn-Trace-Id'']"

definition clientAddress :: "gin_context \<Rightarrow> string" where
  "clientAddress c =
     (let xff = trim_space (GetHeader c ''X-Forwarded-For'');
          xri = trim_space (GetHeader c ''X-Real-IP'')
      in if xff \<noteq> [] then (case cut CHR '','' xff of Some (first, _) \<Rightarrow> trim_space first | None \<Rightarrow> xff)
         else if xri \<noteq> [] then xri
         else rq_ClientIP (cx_Request c))"

definition recordAudit :: "bool \<Rightarrow> event \<Rightarrow> gin_context \<Rightarrow> gin_context" where
  "recordAudit has_recorder e c = (if has_recorder then c\<lparr>cx_Audit := cx_Audit c @ [e]\<rparr> else c)"

definition requestAuditEvent :: "time \<Rightarrow> string \<Rightarrow> string \<Rightarrow> gin_context \<Rightarrow> event \<times> gin_context" where
  "requestAuditEvent start action message c =
     (let status = cx_Status c;
          (now, c') = read_clock c
      in (zero_event\<lparr>ev_Actor := ''public'', ev_ActorSource := ''public'', ev_Action := action,
            ev_Method := rq_Method (cx_Request c), ev_Path := rq_Path (cx_Request c),
            ev_Endpoint := rq_FullPath (cx_Request c), ev_StatusCode := status,
            ev_Result := (if 400 \<le> status then ResultFailure else ResultSuccess),
            ev_RemoteAddr := clientAddress c, ev_UserAgent := GetHeader c ''User-Agent'',
            ev_RequestID := requestID c, ev_DurationMS := duration_millis (time_sub now start),
            ev_Message := message\<rparr>, c'))"

definition record_step ::
    "bool \<Rightarrow> time \<Rightarrow> string \<Rightarrow> int \<Rightarrow> string \<Rightarrow> string \<Rightarrow> string \<Rightarrow> metadata \<Rightarrow> gin_context \<Rightarrow> gin_context" where
  "record_step has_recorder start action status result errorCode message md c =
     (let (e, c') = requestAuditEvent start action message c
      in recordAudit has_recorder
           (e\<lparr>ev_StatusCode := status, ev_Result := result, ev_ErrorCode := errorCode, ev_Metadata := md\<rparr>) c')"

section \<open>POST /api/v1/exchange\<close>

record ExchangeHandler =
  eh_TurnstileVerifier :: "VerifyRequest \<Rightarrow> string + VerifyResponse"
  eh_Exchanger :: "bool \<Rightarrow> string + ExchangeResult"
  eh_TrustProxyHeaders :: bool
  eh_OriginAllowed :: "(string \<Rightarrow> bool) option"
  eh_Audit :: bool

definition exchange_upstream :: "ExchangeHandler \<Rightarrow> time \<Rightarrow> ExchangeRequest \<Rightarrow> gin_context \<Rightarrow> gin_context" where
  "exchange_upstream h start req c0 =
     (let vreq = \<lparr>vr_Token = xq_TurnstileToken req,
                  vr_RemoteIP = extractRemoteIP (cx_Request c0) (eh_TrustProxyHeaders h)\<rparr>;
          c = call (CallTurnstile vreq) c0;
          ts = [(''service'', MString ''turnstile''), (''limitedUse'', MBool (xq_LimitedUse req))];
          fb = [(''service'', MString ''firebase_appcheck''), (''limitedUse'', MBool (xq_LimitedUse req))]
      in case eh_TurnstileVerifier h vreq of
           Inl err \<Rightarrow>
             WriteError (Some (New 502 ''TURNSTILE_UPSTREAM_ERROR'' ''Failed to validate Turnstile token''))
               (record_step (eh_Audit h) start ''turnstile.verify'' 502 ResultFailure
                  ''turnstile_upstream_error'' ''Turnstile verification failed'' ts c)
         | Inr resp \<Rightarrow>
             if \<not> vs_Success resp then
               WriteError (Some (BadRequest ''TURNSTILE_VALIDATION_FAILED'' ''Turnstile token is invalid or expired''))
                 (record_step (eh_Audit h) start ''turnstile.verify'' 400 ResultFailure
                    ''turnstile_validation_failed'' ''Turnstile token rejected''
                    (ts @ [(''errorCodes'', MStrings (vs_ErrorCodes resp))]) c)
             else
               (let c1 = record_step (eh_Audit h) start ''turnstile.verify'' 200 ResultSuccess []
                           ''Turnstile token verified'' ts c;
                    c2 = call (CallExchange (xq_LimitedUse req)) c1
                in case eh_Exchanger h (xq_LimitedUse req) of
                     Inl err \<Rightarrow>
                       WriteError (Some (New 502 ''FIREBASE_EXCHANGE_FAILED'' ''Failed to exchange App Check token''))
                         (record_step (eh_Audit h) start ''appcheck.exchange'' 502 ResultFailure
                            ''firebase_exchange_failed'' ''Firebase App Check custom token exchange failed'' fb c2)
                   | Inr x \<Rightarrow>
                       write_json 200 (ExchangeResponse (xr_Token x) (xr_ExpireTimeMillis x))
                         (record_step (eh_Audit h) start ''appcheck.exchange'' 200 ResultSuccess []
                            ''Firebase App Check token exchange succeeded'' fb c2)))"

text \<open>The body of the handler; the first component is the \<open>limitedUse\<close> that the deferred event reads.\<close>

definition exchange_body :: "ExchangeHandler \<Rightarrow> time \<Rightarrow> gin_context \<Rightarrow> bool \<times> gin_context" where
  "exchange_body h start c =
     (if \<not> hasJSONContentType (cx_Request c)
      then (False, WriteError (Some (New 415 ''UNSUPPORTED_CONTENT_TYPE'' ''Content-Type must be application/json'')) c)
      else if (case eh_OriginAllowed h of None \<Rightarrow> False | Some allowed \<Rightarrow> \<not> allowed (GetHeader c ''Origin''))
      then (False, WriteError (Some (Forbidden ''EXCHANGE_ORIGIN_NOT_ALLOWED'' ''Origin is not allowed'')) c)
      else case decodeJSONStrict (rq_Body (cx_Request c)) of
             None \<Rightarrow> (False, WriteError (Some (BadRequest ''INVALID_JSON'' ''Request body must be valid JSON'')) c)
           | Some req \<Rightarrow>
               if xq_TurnstileToken req = []
               then (False, WriteError (Some (BadRequest ''TURNSTILE_TOKEN_REQUIRED'' ''turnstileToken is required'')) c)
               else if 4096 < int (length (xq_TurnstileToken req))
               then (xq_LimitedUse req,
                     WriteError (Some (BadRequest ''TURNSTILE_TOKEN_TOO_LARGE'' ''turnstileToken is too large'')) c)
               else (xq_LimitedUse req, exchange_upstream h start req c))"

definition exchange_Handle :: "ExchangeHandler \<Rightarrow> gin_context \<Rightarrow> gin_context" where
  "exchange_Handle h c0 =
     (let (start, c1) = read_clock c0;
          (limitedUse, c2) = exchange_body h start c1;
          (e, c3) = requestAuditEvent start ''exchange.request'' ''Exchange request completed'' c2
      in recordAudit (eh_Audit h) (e\<lparr>ev_Metadata := [(''limitedUse'', MBool limitedUse)]\<rparr>) c3)"

section \<open>ANY /api/v1/verify\<close>

record VerifyHandler =
  vh_Verifier :: "string \<Rightarrow> string + string option"
  vh_HeaderName :: string
  vh_SuccessStatus :: int
  vh_FailureStatus :: int
  vh_Audit :: bool

definition recordVerifyStep ::
    "VerifyHandler \<Rightarrow> time \<Rightarrow> string \<Rightarrow> int \<Rightarrow> string \<Rightarrow> string \<Rightarrow> string \<Rightarrow> gin_context \<Rightarrow> gin_context" where
  "recordVerifyStep h start action status result errorCode message =
     record_step (vh_Audit h) start action status result errorCode message
       [(''service'', MString ''firebase_appcheck'')]"

definition verify_denied :: "VerifyHandler \<Rightarrow> time \<Rightarrow> string \<Rightarrow> string \<Rightarrow> gin_context \<Rightarrow> gin_context" where
  "verify_denied h start errorCode message c =
     WriteError (Some (New (vh_FailureStatus h) ''APPCHECK_INVALID'' ''Invalid or missing Firebase App Check token''))
       (recordVerifyStep h start ''forwardauth.denied'' (vh_FailureStatus h) ResultDenied
          ''forwardauth_denied'' ''Denied forwardAuth verification''
          (recordVerifyStep h start ''appcheck.verify'' (vh_FailureStatus h) ResultFailure errorCode message c))"

definition verify_body :: "VerifyHandler \<Rightarrow> time \<Rightarrow> gin_context \<Rightarrow> gin_context" where
  "verify_body h start c =
     (let token = GetHeader c (vh_HeaderName h)
      in if token = []
         then verify_denied h start ''appcheck_missing'' ''Firebase App Check token missing'' c
         else let c1 = call (CallVerifyToken token) c
              in case vh_Verifier h token of
                   Inl err \<Rightarrow> verify_denied h start ''appcheck_invalid''
                                ''Firebase App Check token verification failed'' c1
                 | Inr decoded \<Rightarrow>
                     let hd1 = header_set ''X-AppCheck-Verified'' ''true'' (cx_Header c1);
                         hd2 = (case decoded of
                                  Some app \<Rightarrow> if app \<noteq> [] then header_set ''X-AppCheck-AppID'' app hd1 else hd1
                                | None \<Rightarrow> hd1)
                     in recordVerifyStep h start ''appcheck.verify'' (vh_SuccessStatus h) ResultSuccess []
                          ''Firebase App Check token verified''
                          (c1\<lparr>cx_Header := hd2, cx_Status := vh_SuccessStatus h\<rparr>))"

definition verify_Handle :: "VerifyHandler \<Rightarrow> gin_context \<Rightarrow> gin_context" where
  "verify_Handle h c0 =
     (let (start, c1) = read_clock c0;
          c2 = verify_body h start c1;
          (e, c3) = requestAuditEvent start ''verify.request'' ''Verify request completed'' c2
      in recordAudit (vh_Audit h) e c3)"

section \<open>Facts\<close>

lemma read_clock_simps [simp]:
  "snd (read_clock c) = c\<lparr>cx_Ticks := Suc (cx_Ticks c)\<rparr>"
  "read_clock c = (cx_Clock c (cx_Ticks c), c\<lparr>cx_Ticks := Suc (cx_Ticks c)\<rparr>)"
  by (simp_all add: read_clock_def)

text \<open>Which fields an operation on the context leaves unchanged.\<close>

lemma write_json_simps [simp]:
  "cx_Request (write_json s b c) = cx_Request c" "cx_Status (write_json s b c) = s"
  "cx_Audit (write_json s b c) = cx_Audit c" "cx_Calls (write_json s b c) = cx_Calls c"
  "cx_Header (write_json s b c) = cx_Header c" "cx_Clock (write_json s b c) = cx_Clock c"
  "cx_Body (write_json s b c) = (if body_allowed s then Some b else None)"
  "cx_Aborted (write_json s b c) = cx_Aborted c" "cx_Ticks (write_json s b c) = cx_Ticks c"
  by (simp_all add: write_json_def)

lemma WriteError_simps [simp]:
  "WriteError (Some e) c = write_json (ae_Status e) (ErrorResponse (ae_Code e) (ae_Message e)) c"
  by (simp add: WriteError_def)

lemma error_simps [simp]:
  "ae_Status (New s code m) = s" "ae_Code (New s code m) = code" "ae_Message (New s code m) = m"
  "BadRequest = New 400" "Forbidden = New 403" "Unauthorized = New 401" "Internal = New 500"
  by (simp_all add: error_defs)

definition request_event :: "gin_context \<Rightarrow> time \<Rightarrow> string \<Rightarrow> string \<Rightarrow> event" where
  "request_event c start action message = fst (requestAuditEvent start action message c)"

lemma requestAuditEvent_eq:
  "requestAuditEvent start action message c =
     (request_event c start action message, c\<lparr>cx_Ticks := Suc (cx_Ticks c)\<rparr>)"
  by (simp add: request_event_def requestAuditEvent_def Let_def)

lemma request_event_simps [simp]:
  "ev_Action (request_event c start action message) = action"
  "ev_StatusCode (request_event c start action message) = cx_Status c"
  "ev_Result (request_event c start action message) = (if 400 \<le> cx_Status c then ResultFailure else ResultSuccess)"
  "ev_RemoteAddr (request_event c start action message) = clientAddress c"
  "ev_RequestID (request_event c start action message) = requestID c"
  "ev_ID (request_event c start action message) = []"
  by (simp_all add: request_event_def requestAuditEvent_def zero_event_def Let_def)

lemma recordAudit_simps [simp]:
  "cx_Request (recordAudit b e c) = cx_Request c" "cx_Status (recordAudit b e c) = cx_Status c"
  "cx_Calls (recordAudit b e c) = cx_Calls c" "cx_Header (recordAudit b e c) = cx_Header c"
  "cx_Body (recordAudit b e c) = cx_Body c" "cx_Clock (recordAudit b e c) = cx_Clock c"
  "cx_Ticks (recordAudit b e c) = cx_Ticks c" "cx_Aborted (recordAudit b e c) = cx_Aborted c"
  "cx_Audit (recordAudit b e c) = cx_Audit c @ (if b then [e] else [])"
  by (simp_all add: recordAudit_def)

definition step_event ::
    "gin_context \<Rightarrow> time \<Rightarrow> string \<Rightarrow> int \<Rightarrow> string \<Rightarrow> string \<Rightarrow> string \<Rightarrow> metadata \<Rightarrow> event" where
  "step_event c start action status result code message md =
     (request_event c start action message)
       \<lparr>ev_StatusCode := status, ev_Result := result, ev_ErrorCode := code, ev_Metadata := md\<rparr>"

lemma step_event_simps [simp]:
  "ev_Action (step_event c start action status result code message md) = action"
  "ev_StatusCode (step_event c start action status result code message md) = status"
  "ev_Result (step_event c start action status result code message md) = result"
  "ev_ErrorCode (step_event c start action status result code message md) = code"
  "ev_RemoteAddr (step_event c start action status result code message md) = clientAddress c"
  by (simp_all add: step_event_def)

lemma record_step_eq:
  "record_step b start action status result code message md c =
     recordAudit b (step_event c start action status result code message md)
       (c\<lparr>cx_Ticks := Suc (cx_Ticks c)\<rparr>)"
  by (simp add: record_step_def requestAuditEvent_eq step_event_def)

lemma call_simps [simp]:
  "cx_Request (call u c) = cx_Request c" "cx_Status (call u c) = cx_Status c"
  "cx_Audit (call u c) = cx_Audit c" "cx_Header (call u c) = cx_Header c"
  "cx_Body (call u c) = cx_Body c" "cx_Clock (call u c) = cx_Clock c" "cx_Ticks (call u c) = cx_Ticks c"
  "cx_Calls (call u c) = cx_Calls c @ [u]" "cx_Aborted (call u c) = cx_Aborted c"
  by (simp_all add: call_def)

text \<open>The address and the request identifier only depend on the request.\<close>

lemma clientAddress_cong: "cx_Request c = cx_Request d \<Longrightarrow> clientAddress c = clientAddress d"
  by (simp add: clientAddress_def GetHeader_def Let_def)

lemma requestID_cong: "cx_Request c = cx_Request d \<Longrightarrow> requestID c = requestID d"
  by (simp add: requestID_def firstHeader_def GetHeader_def)

lemma exchange_upstream_request [simp]: "cx_Request (exchange_upstream h start req c) = cx_Request c"
  by (simp add: exchange_upstream_def Let_def record_step_eq split: sum.split)

lemma exchange_body_request [simp]: "cx_Request (snd (exchange_body h start c)) = cx_Request c"
  by (simp add: exchange_body_def split: option.split)

lemma exchange_Handle_eq:
  "exchange_Handle h c =
     (let start = cx_Clock c (cx_Ticks c); b = exchange_body h start (c\<lparr>cx_Ticks := Suc (cx_Ticks c)\<rparr>)
      in recordAudit (eh_Audit h)
           ((request_event (snd b) start ''exchange.request'' ''Exchange request completed'')
              \<lparr>ev_Metadata := [(''limitedUse'', MBool (fst b))]\<rparr>)
           ((snd b)\<lparr>cx_Ticks := Suc (cx_Ticks (snd b))\<rparr>))"
  by (simp add: exchange_Handle_def requestAuditEvent_eq split_beta Let_def)

text \<open>What a request must satisfy before the upstream services are asked.\<close>

definition exchange_admissible :: "ExchangeHandler \<Rightarrow> request \<Rightarrow> ExchangeRequest \<Rightarrow> bool" where
  "exchange_admissible h rq req \<longleftrightarrow>
     hasJSONContentType rq \<and>
     (case eh_OriginAllowed h of None \<Rightarrow> True | Some allowed \<Rightarrow> allowed (header_get (rq_Headers rq) ''Origin'')) \<and>
     decodeJSONStrict (rq_Body rq) = Some req \<and>
     xq_TurnstileToken req \<noteq> [] \<and> int (length (xq_TurnstileToken req)) \<le> 4096"

definition turnstile_request :: "ExchangeHandler \<Rightarrow> request \<Rightarrow> ExchangeRequest \<Rightarrow> VerifyRequest" where
  "turnstile_request h rq req =
     \<lparr>vr_Token = xq_TurnstileToken req, vr_RemoteIP = extractRemoteIP rq (eh_TrustProxyHeaders h)\<rparr>"

lemma exchange_body_cases:
  obtains (reject) status code message b where
      "exchange_body h start c = (b, write_json status (ErrorResponse code message) c)"
      "status \<in> {400, 403, 415}" "\<not> (\<exists>req. exchange_admissible h (cx_Request c) req)"
  | (admit) req where "exchange_admissible h (cx_Request c) req"
      "exchange_body h start c = (xq_LimitedUse req, exchange_upstream h start req c)"
proof (cases "hasJSONContentType (cx_Request c)")
  case False
  then show ?thesis using reject [of False 415] by (simp add: exchange_body_def exchange_admissible_def)
next
  case ct: True
  show ?thesis
  proof (cases "case eh_OriginAllowed h of None \<Rightarrow> False | Some allowed \<Rightarrow> \<not> allowed (GetHeader c ''Origin'')")
    case True
    then show ?thesis using ct reject [of False 403]
      by (auto simp: exchange_body_def exchange_admissible_def GetHeader_def split: option.splits)
  next
    case og: False
    show ?thesis
    proof (cases "decodeJSONStrict (rq_Body (cx_Request c))")
      case None
      then show ?thesis using ct og reject [of False 400] by (simp add: exchange_body_def exchange_admissible_def)
    next
      case (Some req)
      have adm: "exchange_admissible h (cx_Request c) q \<longleftrightarrow>
          q = req \<and> xq_TurnstileToken req \<noteq> [] \<and> int (length (xq_TurnstileToken req)) \<le> 4096" for q
        using ct og Some by (auto simp: exchange_admissible_def GetHeader_def split: option.splits)
      consider "xq_TurnstileToken req = []" | "xq_TurnstileToken req \<noteq> []" "4096 < int (length (xq_TurnstileToken req))"
        | "xq_TurnstileToken req \<noteq> []" "int (length (xq_TurnstileToken req)) \<le> 4096" by linarith
      then show ?thesis
      proof cases
        case 1
        show ?thesis by (rule reject [of False 400]) (use 1 ct og Some adm in \<open>simp_all add: exchange_body_def\<close>)
      next
        case 2
        show ?thesis
          by (rule reject [of "xq_LimitedUse req" 400]) (use 2 ct og Some adm in \<open>simp_all add: exchange_body_def\<close>)
      next
        case 3
        show ?thesis by (rule admit [of req]) (use 3 ct og Some adm in \<open>simp_all add: exchange_body_def\<close>)
      qed
    qed
  qed
qed

lemma exchange_upstream_cases:
  fixes h start req c
  defines "v \<equiv> eh_TurnstileVerifier h (turnstile_request h (cx_Request c) req)"
    and "t \<equiv> exchange_upstream h start req c"
  obtains (unverified) "\<not> (\<exists>resp. v = Inr resp \<and> vs_Success resp)" "cx_Status t \<in> {400, 502}"
      "\<exists>code message. cx_Body t = Some (ErrorResponse code message)"
      "cx_Calls t = cx_Calls c @ [CallTurnstile (turnstile_request h (cx_Request c) req)]"
  | (failed) resp err where "v = Inr resp" "vs_Success resp" "eh_Exchanger h (xq_LimitedUse req) = Inl err"
      "cx_Status t = 502" "\<exists>code message. cx_Body t = Some (ErrorResponse code message)"
      "cx_Calls t = cx_Calls c @ [CallTurnstile (turnstile_request h (cx_Request c) req), CallExchange (xq_LimitedUse req)]"
  | (exchanged) resp x where "v = Inr resp" "vs_Success resp" "eh_Exchanger h (xq_LimitedUse req) = Inr x"
      "cx_Status t = 200" "cx_Body t = Some (ExchangeResponse (xr_Token x) (xr_ExpireTimeMillis x))"
      "cx_Calls t = cx_Calls c @ [CallTurnstile (turnstile_request h (cx_Request c) req), CallExchange (xq_LimitedUse req)]"
proof -
  note simps = exchange_upstream_def turnstile_request_def [symmetric] Let_def record_step_eq body_allowed_def
  show ?thesis
  proof (cases v)
    case (Inl err)
    then show ?thesis using unverified by (simp add: t_def simps v_def)
  next
    case (Inr resp)
    then show ?thesis
      using unverified failed exchanged
      by (cases "vs_Success resp"; cases "eh_Exchanger h (xq_LimitedUse req)") (simp_all add: t_def simps v_def)
  qed
qed

lemma exchange_Handle_simps:
  fixes h c
  defines "b \<equiv> exchange_body h (cx_Clock c (cx_Ticks c)) (c\<lparr>cx_Ticks := Suc (cx_Ticks c)\<rparr>)"
  shows "cx_Status (exchange_Handle h c) = cx_Status (snd b)"
    "cx_Body (exchange_Handle h c) = cx_Body (snd b)"
    "cx_Calls (exchange_Handle h c) = cx_Calls (snd b)"
    "cx_Request (exchange_Handle h c) = cx_Request c"
    "cx_Audit (exchange_Handle h c) = cx_Audit (snd b) @
       (if eh_Audit h
        then [(request_event (snd b) (cx_Clock c (cx_Ticks c)) ''exchange.request'' ''Exchange request completed'')
                \<lparr>ev_Metadata := [(''limitedUse'', MBool (fst b))]\<rparr>] else [])"
  by (simp_all add: exchange_Handle_eq Let_def b_def)

text \<open>The events that the body records before the deferred one.\<close>

lemma exchange_body_audit:
  "\<exists>es. cx_Audit (snd (exchange_body h start c)) = cx_Audit c @ es \<and>
     (\<not> eh_Audit h \<longrightarrow> es = []) \<and> list_all (\<lambda>e. ev_Action e \<in> {''turnstile.verify'', ''appcheck.exchange''}) es"
proof (cases rule: exchange_body_cases [of h start c])
  case (reject status code message b)
  then show ?thesis by simp
next
  case (admit req)
  then show ?thesis
    by (simp add: exchange_upstream_def record_step_eq Let_def split: sum.split)
qed

lemma verify_body_audit:
  "\<exists>es. cx_Audit (verify_body h start c) = cx_Audit c @ es \<and> cx_Request (verify_body h start c) = cx_Request c \<and>
     (\<not> vh_Audit h \<longrightarrow> es = []) \<and> list_all (\<lambda>e. ev_Action e \<in> {''appcheck.verify'', ''forwardauth.denied''}) es"
  by (simp add: verify_body_def verify_denied_def recordVerifyStep_def record_step_eq Let_def split: sum.split)

lemma verify_Handle_eq:
  "verify_Handle h c =
     (let start = cx_Clock c (cx_Ticks c); b = verify_body h start (c\<lparr>cx_Ticks := Suc (cx_Ticks c)\<rparr>)
      in recordAudit (vh_Audit h) (request_event b start ''verify.request'' ''Verify request completed'')
           (b\<lparr>cx_Ticks := Suc (cx_Ticks b)\<rparr>))"
  by (simp add: verify_Handle_def requestAuditEvent_eq split_beta Let_def)

lemma proxy_ip_valid: "proxy_ip h names = Some ip \<Longrightarrow> parse_ip ip"
  by (induction names) (auto simp: Let_def split: if_splits)

end
