(* ===== verification/HandlerProps.thy ===== *)
theory HandlerProps
  imports Handlers
begin

text \<open>
  The properties of the public handlers: no token without a Turnstile success, the gate of the
  verify handler, what is recorded about a request and what is kept out of the record, and where
  the client address comes from.
\<close>

section \<open>Properties\<close>

text \<open>An answer with a token, taken apart.\<close>

lemma exchange_issuesE:
  assumes "cx_Body c = None" and "cx_Body (exchange_Handle h c) = Some (ExchangeResponse token millis)"
  obtains req resp x where "exchange_admissible h (cx_Request c) req"
    "eh_TurnstileVerifier h (turnstile_request h (cx_Request c) req) = Inr resp" "vs_Success resp"
    "eh_Exchanger h (xq_LimitedUse req) = Inr x" "token = xr_Token x" "millis = xr_ExpireTimeMillis x"
    "cx_Status (exchange_Handle h c) = 200"
    "cx_Calls (exchange_Handle h c) = cx_Calls c @
      [CallTurnstile (turnstile_request h (cx_Request c) req), CallExchange (xq_LimitedUse req)]"
proof -
  define start where "start = cx_Clock c (cx_Ticks c)"
  define d where "d = c\<lparr>cx_Ticks := Suc (cx_Ticks c)\<rparr>"
  have d: "cx_Request d = cx_Request c" "cx_Calls d = cx_Calls c" by (simp_all add: d_def)
  note H = exchange_Handle_simps [of h c, folded start_def d_def]
  show ?thesis
  proof (cases rule: exchange_body_cases [of h start d])
    case (reject status code message b)
    then have "cx_Body (exchange_Handle h c) = Some (ErrorResponse code message)"
      unfolding H by (auto simp: body_allowed_def)
    then show ?thesis using assms(2) by simp
  next
    case (admit req)
    have B: "snd (exchange_body h start d) = exchange_upstream h start req d" by (simp add: admit(2))
    show ?thesis
    proof (cases rule: exchange_upstream_cases [of h d req start])
      case unverified
      then show ?thesis using assms(2) unfolding H B by auto
    next
      case (failed resp err)
      then show ?thesis using assms(2) unfolding H B by auto
    next
      case (exchanged resp x)
      then show ?thesis using that assms(2) admit(1) d unfolding H B by auto
    qed
  qed
qed

text \<open>
  C2. No App Check token without a Turnstile success: when the exchange handler answers with a
  token, the request had a JSON content type, an allowed origin and a well-formed body with a token
  of 1 to 4096 bytes, Turnstile accepted exactly that token, Firebase issued the answered one, and
  these two calls, in this order, are all that was asked upstream.
\<close>

theorem exchange_requires_turnstile:
  assumes "cx_Body c = None" and "cx_Body (exchange_Handle h c) = Some (ExchangeResponse token millis)"
  shows "\<exists>req resp x. exchange_admissible h (cx_Request c) req \<and>
    eh_TurnstileVerifier h (turnstile_request h (cx_Request c) req) = Inr resp \<and> vs_Success resp \<and>
    eh_Exchanger h (xq_LimitedUse req) = Inr x \<and> token = xr_Token x \<and> millis = xr_ExpireTimeMillis x \<and>
    cx_Status (exchange_Handle h c) = 200 \<and>
    cx_Calls (exchange_Handle h c) = cx_Calls c @
      [CallTurnstile (turnstile_request h (cx_Request c) req), CallExchange (xq_LimitedUse req)]"
  using assms(1) by (rule exchange_issuesE [OF _ assms(2)]) (intro exI conjI)

definition demo_exchange_handler :: ExchangeHandler where
  "demo_exchange_handler = \<lparr>eh_TurnstileVerifier = (\<lambda>r. Inr \<lparr>vs_Success = (vr_Token r = ''pass''), vs_ChallengeTS = [],
       vs_Hostname = [], vs_ErrorCodes = [], vs_Action = [], vs_CData = []\<rparr>),
     eh_Exchanger = (\<lambda>_. Inr \<lparr>xr_Token = ''app'', xr_ExpireTimeMillis = 7, xr_TTLMillis = 7\<rparr>),
     eh_TrustProxyHeaders = False, eh_OriginAllowed = Some (\<lambda>x. x = ''https://a.example''), eh_Audit = True\<rparr>"

definition demo_request :: "string \<Rightarrow> request" where
  "demo_request token = \<lparr>rq_Method = ''POST'', rq_Path = ''/api/v1/exchange'', rq_FullPath = ''/api/v1/exchange'',
     rq_Headers = [(''Content-Type'', [''application/json'']), (''Origin'', [''https://a.example''])],
     rq_RemoteAddr = ''10.0.0.1:99'', rq_ClientIP = ''10.0.0.1'',
     rq_Body = ''{'' @ [CHR 0x22] @ ''turnstileToken'' @ [CHR 0x22] @ '':'' @ [CHR 0x22] @ token @ [CHR 0x22] @ ''}''\<rparr>"

theorem exchange_requires_turnstile_witness:
  "cx_Status (exchange_Handle demo_exchange_handler (new_context (demo_request ''pass'') int)) = 200"
proof -
  let ?c = "new_context (demo_request ''pass'') int"
  have 1: "cx_Body ?c = None" by (simp add: new_context_def)
  have 2: "cx_Body (exchange_Handle demo_exchange_handler ?c) = Some (ExchangeResponse ''app'' 7)" by code_simp
  from exchange_requires_turnstile [OF 1 2] show ?thesis by (elim exE conjE)
qed

text \<open>
  C20. Every exchange request leaves exactly one request event, and it is the last one: it carries
  the status of the response, is a failure exactly for a status of 400 or more, and before it only
  the steps \<open>turnstile.verify\<close> and \<open>appcheck.exchange\<close> are recorded.  Without a recorder nothing is.
\<close>

theorem exchange_audited:
  "\<exists>es e. cx_Audit (exchange_Handle h c) = cx_Audit c @ es @ (if eh_Audit h then [e] else []) \<and>
    (eh_Audit h \<or> es = []) \<and>
    list_all (\<lambda>e. ev_Action e \<in> {''turnstile.verify'', ''appcheck.exchange''}) es \<and>
    ev_Action e = ''exchange.request'' \<and> ev_StatusCode e = cx_Status (exchange_Handle h c) \<and>
    ev_Result e = (if 400 \<le> cx_Status (exchange_Handle h c) then ResultFailure else ResultSuccess)"
proof -
  define start where "start = cx_Clock c (cx_Ticks c)"
  define d where "d = c\<lparr>cx_Ticks := Suc (cx_Ticks c)\<rparr>"
  note H = exchange_Handle_simps [of h c, folded start_def d_def]
  obtain es where es: "cx_Audit (snd (exchange_body h start d)) = cx_Audit d @ es" "\<not> eh_Audit h \<longrightarrow> es = []"
    "list_all (\<lambda>e. ev_Action e \<in> {''turnstile.verify'', ''appcheck.exchange''}) es"
    using exchange_body_audit by blast
  let ?b = "exchange_body h start d"
  let ?e = "(request_event (snd ?b) start ''exchange.request'' ''Exchange request completed'')
      \<lparr>ev_Metadata := [(''limitedUse'', MBool (fst ?b))]\<rparr>"
  show ?thesis
    using es unfolding H by (intro exI [of _ es] exI [of _ ?e]) (auto simp: d_def)
qed

text \<open>Everything in a context but the request body and the upstream calls.\<close>

definition hide :: "gin_context \<Rightarrow> gin_context" where
  "hide c = c\<lparr>cx_Request := (cx_Request c)\<lparr>rq_Body := []\<rparr>, cx_Calls := []\<rparr>"

lemma hide_request_event: "request_event (hide c) start a m = request_event c start a m"
  by (simp add: request_event_def requestAuditEvent_def hide_def clientAddress_def requestID_def
      firstHeader_def GetHeader_def Let_def)

lemma hide_step_event: "step_event (hide c) start a st r co m md = step_event c start a st r co m md"
  by (simp add: step_event_def hide_request_event)

lemma hide_ops:
  "hide (write_json st b c) = write_json st b (hide c)"
  "hide (call u c) = hide c"
  "hide (recordAudit r e c) = recordAudit r e (hide c)"
  "hide (c\<lparr>cx_Ticks := n\<rparr>) = (hide c)\<lparr>cx_Ticks := n\<rparr>"
  "cx_Ticks (hide c) = cx_Ticks c"
  by (simp_all add: hide_def write_json_def call_def recordAudit_def)

lemma hide_record_step:
  "hide (record_step b start a st r co m md c) = record_step b start a st r co m md (hide c)"
  by (simp add: record_step_eq hide_ops hide_step_event)

lemma hide_views: "cx_Audit (hide c) = cx_Audit c" "cx_Body (hide c) = cx_Body c"
  by (simp_all add: hide_def)

lemma hide_upstream:
  assumes "hide c = hide d" and "xq_LimitedUse q = xq_LimitedUse q'"
    and "eh_TurnstileVerifier h (turnstile_request h (cx_Request c) q) =
      eh_TurnstileVerifier h (turnstile_request h (cx_Request d) q')"
  shows "hide (exchange_upstream h start q c) = hide (exchange_upstream h start q' d)"
  using assms
  by (simp add: exchange_upstream_def turnstile_request_def [symmetric] Let_def hide_ops hide_record_step
      split: sum.split)

lemma hide_Handle:
  assumes "exchange_body h (cx_Clock c (cx_Ticks c)) (c\<lparr>cx_Ticks := Suc (cx_Ticks c)\<rparr>) = (lu, u)"
  shows "hide (exchange_Handle h c) =
    recordAudit (eh_Audit h)
      ((request_event (hide u) (cx_Clock c (cx_Ticks c)) ''exchange.request'' ''Exchange request completed'')
         \<lparr>ev_Metadata := [(''limitedUse'', MBool lu)]\<rparr>)
      ((hide u)\<lparr>cx_Ticks := Suc (cx_Ticks (hide u))\<rparr>)"
  using assms by (simp add: exchange_Handle_eq Let_def hide_ops hide_request_event)

lemma exchange_body_admissible:
  assumes "exchange_admissible h (cx_Request c) req"
  shows "exchange_body h start c = (xq_LimitedUse req, exchange_upstream h start req c)"
  using assms by (auto simp: exchange_body_def exchange_admissible_def GetHeader_def split: option.splits)

lemma extractRemoteIP_body: "extractRemoteIP (rq\<lparr>rq_Body := b\<rparr>) t = extractRemoteIP rq t"
  by (simp add: extractRemoteIP_def Let_def del: proxy_ip.simps cong: option.case_cong)

text \<open>
  C21. The Turnstile token never reaches the audit log: two requests that differ only in the body,
  both admissible with the same \<open>limitedUse\<close>, for whose tokens Turnstile gives the same answer, are
  answered alike and record exactly the same events.
\<close>

theorem exchange_audit_hides_token:
  assumes "exchange_admissible h (rq\<lparr>rq_Body := b1\<rparr>) q1" and "exchange_admissible h (rq\<lparr>rq_Body := b2\<rparr>) q2"
    and "xq_LimitedUse q1 = xq_LimitedUse q2"
    and "eh_TurnstileVerifier h (turnstile_request h rq q1) = eh_TurnstileVerifier h (turnstile_request h rq q2)"
  shows "cx_Audit (exchange_Handle h (new_context (rq\<lparr>rq_Body := b1\<rparr>) clock)) =
      cx_Audit (exchange_Handle h (new_context (rq\<lparr>rq_Body := b2\<rparr>) clock)) \<and>
    cx_Body (exchange_Handle h (new_context (rq\<lparr>rq_Body := b1\<rparr>) clock)) =
      cx_Body (exchange_Handle h (new_context (rq\<lparr>rq_Body := b2\<rparr>) clock))"
proof -
  let ?c = "\<lambda>b. new_context (rq\<lparr>rq_Body := b\<rparr>) clock"
  let ?d = "\<lambda>b. (?c b)\<lparr>cx_Ticks := Suc (cx_Ticks (?c b))\<rparr>"
  have d: "cx_Request (?d b) = rq\<lparr>rq_Body := b\<rparr>" "hide (?d b) = hide (?d [])" for b
    by (simp_all add: hide_def new_context_def)
  have "exchange_body h start (?d b1) = (xq_LimitedUse q1, exchange_upstream h start q1 (?d b1))" for start
    by (rule exchange_body_admissible) (simp only: d(1) assms(1))
  moreover have "exchange_body h start (?d b2) = (xq_LimitedUse q2, exchange_upstream h start q2 (?d b2))" for start
    by (rule exchange_body_admissible) (simp only: d(1) assms(2))
  moreover have T: "turnstile_request h (rq\<lparr>rq_Body := b\<rparr>) q = turnstile_request h rq q" for b q
    by (simp add: turnstile_request_def extractRemoteIP_body)
  moreover have "hide (exchange_upstream h start q1 (?d b1)) = hide (exchange_upstream h start q2 (?d b2))" for start
  proof (rule hide_upstream)
    show "hide (?d b1) = hide (?d b2)" by (metis d(2))
  qed (simp_all only: d(1) T assms(3,4))
  ultimately have "hide (exchange_Handle h (?c b1)) = hide (exchange_Handle h (?c b2))"
    using hide_Handle [of h "?c b1"] hide_Handle [of h "?c b2"] assms(3) by (simp add: new_context_def)
  then show ?thesis using hide_views by metis
qed

theorem exchange_audit_hides_token_witness:
  "cx_Audit (exchange_Handle demo_exchange_handler (new_context (demo_request ''a1'') int)) =
   cx_Audit (exchange_Handle demo_exchange_handler (new_context (demo_request ''b2'') int))"
proof -
  define base b1 b2 where "base = demo_request []"
    and "b1 = rq_Body (demo_request ''a1'')" and "b2 = rq_Body (demo_request ''b2'')"
  have rq: "demo_request ''a1'' = base\<lparr>rq_Body := b1\<rparr>" "demo_request ''b2'' = base\<lparr>rq_Body := b2\<rparr>"
    by (simp_all add: base_def b1_def b2_def demo_request_def)
  let ?q = "\<lambda>t. \<lparr>xq_TurnstileToken = t, xq_LimitedUse = False\<rparr>"
  have 1: "exchange_admissible demo_exchange_handler (demo_request ''a1'') (?q ''a1'')" by code_simp
  have 2: "exchange_admissible demo_exchange_handler (demo_request ''b2'') (?q ''b2'')" by code_simp
  have 3: "xq_LimitedUse (?q ''a1'') = xq_LimitedUse (?q ''b2'')" by simp
  have 4: "eh_TurnstileVerifier demo_exchange_handler (turnstile_request demo_exchange_handler base (?q ''a1'')) =
      eh_TurnstileVerifier demo_exchange_handler (turnstile_request demo_exchange_handler base (?q ''b2''))"
    by (simp add: demo_exchange_handler_def turnstile_request_def)
  show ?thesis unfolding rq
    by (rule conjunct1 [OF exchange_audit_hides_token [OF 1 [unfolded rq] 2 [unfolded rq] 3 4]])
qed

text \<open>
  C3. A request passes the forwardAuth check only with a verified App Check token: the header
  \<open>X-AppCheck-Verified\<close> is set exactly when the configured header carries a non-empty token that
  the verifier accepts; then the status is the success status, otherwise it is the failure status
  and the denial \<open>forwardauth.denied\<close> is recorded with it.
\<close>

theorem verify_gate:
  assumes "header_get (cx_Header c) ''X-AppCheck-Verified'' = []"
    and "token = header_get (rq_Headers (cx_Request c)) (vh_HeaderName h)"
  shows "if token \<noteq> [] \<and> (\<exists>app. vh_Verifier h token = Inr app)
    then header_get (cx_Header (verify_Handle h c)) ''X-AppCheck-Verified'' = ''true'' \<and>
      cx_Status (verify_Handle h c) = vh_SuccessStatus h
    else header_get (cx_Header (verify_Handle h c)) ''X-AppCheck-Verified'' = [] \<and>
      cx_Status (verify_Handle h c) = vh_FailureStatus h \<and>
      (vh_Audit h \<longrightarrow> (\<exists>e. e \<in> set (cx_Audit (verify_Handle h c)) \<and> ev_Action e = ''forwardauth.denied'' \<and>
         ev_StatusCode e = vh_FailureStatus h \<and> ev_Result e = ResultDenied))"
proof -
  define start where "start = cx_Clock c (cx_Ticks c)"
  define d where "d = c\<lparr>cx_Ticks := Suc (cx_Ticks c)\<rparr>"
  have d: "GetHeader d (vh_HeaderName h) = token" "cx_Header d = cx_Header c"
    by (simp_all add: d_def assms(2) GetHeader_def)
  have H: "cx_Header (verify_Handle h c) = cx_Header (verify_body h start d)"
    "cx_Status (verify_Handle h c) = cx_Status (verify_body h start d)"
    "set (cx_Audit (verify_body h start d)) \<subseteq> set (cx_Audit (verify_Handle h c))"
    by (auto simp: verify_Handle_eq Let_def start_def d_def)
  have keys: "canonical_key ''X-AppCheck-Verified'' \<noteq> canonical_key ''X-AppCheck-AppID''" by code_simp
  have denied: "cx_Header (verify_denied h start e m x) = cx_Header x \<and>
      cx_Status (verify_denied h start e m x) = vh_FailureStatus h \<and>
      (vh_Audit h \<longrightarrow> (\<exists>e' \<in> set (cx_Audit (verify_denied h start e m x)). ev_Action e' = ''forwardauth.denied'' \<and>
         ev_StatusCode e' = vh_FailureStatus h \<and> ev_Result e' = ResultDenied))" for e m x
    by (simp add: verify_denied_def recordVerifyStep_def record_step_eq)
  consider "token = []" | err where "token \<noteq> []" "vh_Verifier h token = Inl err"
    | app where "token \<noteq> []" "vh_Verifier h token = Inr app" by (cases "vh_Verifier h token") auto
  then show ?thesis
  proof cases
    case 1
    then have "verify_body h start d = verify_denied h start ''appcheck_missing'' ''Firebase App Check token missing'' d"
      by (simp add: verify_body_def d)
    then show ?thesis using 1 H denied [of "''appcheck_missing''" "''Firebase App Check token missing''" d] d(2) assms(1)
      by auto
  next
    case (2 err)
    then have "verify_body h start d = verify_denied h start ''appcheck_invalid''
        ''Firebase App Check token verification failed'' (call (CallVerifyToken token) d)"
      by (simp add: verify_body_def d)
    then show ?thesis
      using 2 H denied [of "''appcheck_invalid''" "''Firebase App Check token verification failed''" "call (CallVerifyToken token) d"]
        d(2) assms(1) by auto
  next
    case (3 app)
    then have "cx_Status (verify_body h start d) = vh_SuccessStatus h \<and>
        header_get (cx_Header (verify_body h start d)) ''X-AppCheck-Verified'' = ''true''"
      using keys by (auto simp: verify_body_def d Let_def recordVerifyStep_def record_step_eq header_get_set
          split: option.split)
    then show ?thesis using 3 H by simp
  qed
qed

definition demo_verify_handler :: VerifyHandler where
  "demo_verify_handler = \<lparr>vh_Verifier = (\<lambda>t. if t = ''good'' then Inr (Some ''app'') else Inl ''invalid''),
     vh_HeaderName = ''X-Firebase-AppCheck'', vh_SuccessStatus = 204, vh_FailureStatus = 401, vh_Audit = True\<rparr>"

definition demo_verify_request :: "string \<Rightarrow> request" where
  "demo_verify_request token = (demo_request [])\<lparr>rq_Headers := [(''X-Firebase-Appcheck'', [token])]\<rparr>"

theorem verify_gate_witness:
  "cx_Status (verify_Handle demo_verify_handler (new_context (demo_verify_request ''good'') int)) = 204 \<and>
   cx_Status (verify_Handle demo_verify_handler (new_context (demo_verify_request ''bad'') int)) = 401"
proof -
  have 1: "header_get (cx_Header (new_context rq clock)) ''X-AppCheck-Verified'' = []" for rq clock
    by (simp add: new_context_def header_get_def header_values_def)
  have 2: "header_get (rq_Headers (cx_Request (new_context (demo_verify_request ''good'') int)))
      (vh_HeaderName demo_verify_handler) = ''good''" by code_simp
  have 3: "header_get (rq_Headers (cx_Request (new_context (demo_verify_request ''bad'') int)))
      (vh_HeaderName demo_verify_handler) = ''bad''" by code_simp
  have 4: "vh_Verifier demo_verify_handler ''good'' = Inr (Some ''app'')" "vh_Verifier demo_verify_handler ''bad'' = Inl ''invalid''"
    "vh_SuccessStatus demo_verify_handler = 204" "vh_FailureStatus demo_verify_handler = 401"
    by (simp_all add: demo_verify_handler_def)
  show ?thesis
    using verify_gate [OF 1 2 [symmetric]] verify_gate [OF 1 3 [symmetric]] unfolding 4 by simp
qed

text \<open>
  C33. The address sent to Turnstile is an IP literal or absent, and without trust in proxy headers
  it is decided by the connection alone: requests with the same \<open>RemoteAddr\<close> get the same address,
  whatever their headers say.
\<close>

theorem remote_ip_sound:
  "(extractRemoteIP r t = [] \<or> parse_ip (extractRemoteIP r t)) \<and>
   extractRemoteIP r False = extractRemoteIP (r\<lparr>rq_Headers := hs\<rparr>) False"
  by (auto simp: extractRemoteIP_def Let_def dest: proxy_ip_valid simp del: proxy_ip.simps split: option.splits)

text \<open>
  C34. The address in the audit log is what the client says: whether or not proxy headers are
  trusted, and even if the request is rejected, the request event of an exchange carries the text
  of \<open>X-Forwarded-For\<close> up to the first comma, unchecked and unbounded.
\<close>

theorem audit_address_spoofed:
  assumes "eh_Audit h" and "header_get (rq_Headers rq) ''X-Forwarded-For'' = v" and "v \<noteq> []"
    and "trim_space v = v" and "CHR '','' \<notin> set v"
  shows "\<exists>es e. cx_Audit (exchange_Handle h (new_context rq clock)) = es @ [e] \<and>
    ev_Action e = ''exchange.request'' \<and> ev_RemoteAddr e = v"
proof -
  let ?c = "new_context rq clock"
  let ?b = "exchange_body h (cx_Clock ?c (cx_Ticks ?c)) (?c\<lparr>cx_Ticks := Suc (cx_Ticks ?c)\<rparr>)"
  have "cut CHR '','' v = None" using assms(5) by (simp add: cut_None_iff)
  then have addr: "clientAddress (snd ?b) = v"
    using assms(2-4) by (simp add: clientAddress_def GetHeader_def new_context_def Let_def)
  show ?thesis
    unfolding exchange_Handle_simps(5) using assms(1) addr
    by (intro exI [of _ "cx_Audit (snd ?b)"] exI conjI) auto
qed

theorem audit_address_spoofed_witness:
  "\<exists>es e. cx_Audit (exchange_Handle demo_exchange_handler (new_context
      ((demo_request [])\<lparr>rq_Headers := [(''X-Forwarded-For'', [''not an address''])]\<rparr>) int)) = es @ [e] \<and>
    ev_RemoteAddr e = ''not an address''"
proof -
  let ?rq = "(demo_request [])\<lparr>rq_Headers := [(''X-Forwarded-For'', [''not an address''])]\<rparr>"
  have 1: "eh_Audit demo_exchange_handler" by (simp add: demo_exchange_handler_def)
  have 2: "header_get (rq_Headers ?rq) ''X-Forwarded-For'' = ''not an address''" by code_simp
  have 3: "trim_space ''not an address'' = ''not an address''" by code_simp
  have 4: "''not an address'' \<noteq> []" "CHR '','' \<notin> set ''not an address''" by simp_all
  from audit_address_spoofed [OF 1 2 4(1) 3 4(2), of int] show ?thesis by (elim exE conjE) (intro exI conjI)
qed

end
