(* ===== verification/RateLimit.thy ===== *)
theory RateLimit
  imports GoTime
begin

text \<open>
  The in-memory fixed-window rate limiter of \<open>internal/middleware/rate_limit.go\<close>: its state,
  \<open>allow\<close> and \<open>pruneLocked\<close>.  The mutex makes each call of \<open>allow\<close> one atomic step, so the
  calls of concurrent requests are a sequence of steps in the order in which they take the mutex.
  The clock is read before the mutex is taken, so the readings along that sequence need not be
  sorted: \<open>lag_within d\<close> says that no call is overtaken by one whose reading is more than \<open>d\<close>
  later, which holds when no call waits longer than \<open>d\<close> between reading the clock and taking the
  mutex.
\<close>

section \<open>State and operations\<close>

record rate_entry =
  re_windowStart :: time
  re_count :: int

record fixedWindowLimiter =
  lim_window :: duration
  lim_entries :: "string \<Rightarrow> rate_entry option"

text \<open>The zero value that a read of an absent map key yields.\<close>

definition zero_rate_entry :: rate_entry where
  "zero_rate_entry = \<lparr>re_windowStart = zero_time, re_count = 0\<rparr>"

text \<open>\<open>NewRateLimiter\<close>: an empty map; a window that is not positive becomes one minute.\<close>

definition new_limiter :: "duration \<Rightarrow> fixedWindowLimiter" where
  "new_limiter window =
     \<lparr>lim_window = (if window \<le> 0 then minute else window), lim_entries = (\<lambda>_. None)\<rparr>"

text \<open>The product \<open>2*l.window\<close> is computed in \<open>int64\<close>.\<close>

definition pruneLocked :: "time \<Rightarrow> fixedWindowLimiter \<Rightarrow> fixedWindowLimiter" where
  "pruneLocked now l =
     l\<lparr>lim_entries := (\<lambda>key. case lim_entries l key of
         None \<Rightarrow> None
       | Some entry \<Rightarrow>
           if wrap64 (2 * lim_window l) < time_sub now (re_windowStart entry) then None
           else Some entry)\<rparr>"

definition allow :: "time \<Rightarrow> string \<Rightarrow> int \<Rightarrow> fixedWindowLimiter \<Rightarrow> bool \<times> fixedWindowLimiter" where
  "allow now key mx l =
     (let entry = (case lim_entries l key of None \<Rightarrow> zero_rate_entry | Some e \<Rightarrow> e)
      in if is_zero (re_windowStart entry) \<or> lim_window l \<le> time_sub now (re_windowStart entry)
         then (True, pruneLocked now
                 (l\<lparr>lim_entries := (lim_entries l)(key \<mapsto> \<lparr>re_windowStart = now, re_count = 1\<rparr>)\<rparr>))
         else if mx \<le> re_count entry then (False, l)
         else (True, l\<lparr>lim_entries := (lim_entries l)(key \<mapsto> entry\<lparr>re_count := re_count entry + 1\<rparr>)\<rparr>))"

text \<open>A sequence of calls: \<open>(now, key)\<close> pairs; the result lists the decisions.\<close>

fun run_allow :: "int \<Rightarrow> (time \<times> string) list \<Rightarrow> fixedWindowLimiter \<Rightarrow> bool list \<times> fixedWindowLimiter" where
  "run_allow mx [] l = ([], l)"
| "run_allow mx ((now, key) # reqs) l =
     (let (ok, l') = allow now key mx l; (oks, l'') = run_allow mx reqs l' in (ok # oks, l''))"

text \<open>The readings along the order of the mutex go back by at most \<open>d\<close>; with \<open>d = 0\<close> they are sorted.\<close>

definition lag_within :: "int \<Rightarrow> time list \<Rightarrow> bool" where
  "lag_within d ts = sorted_wrt (\<lambda>t u. t \<le> u + d) ts"

lemma lag_within_Cons:
  "lag_within d (t # ts) \<longleftrightarrow> list_all (\<lambda>u. t \<le> u + d) ts \<and> lag_within d ts"
  by (simp add: lag_within_def list_all_iff)

lemma lag_within_Nil: "lag_within d []"
  by (simp add: lag_within_def)

lemma lag_within_sorted: "sorted ts \<Longrightarrow> lag_within 0 ts"
  by (simp add: lag_within_def)

lemma lag_within_max:
  "lag_within d (m # t # ts) \<Longrightarrow> lag_within d (max m t # ts)"
  by (auto simp: lag_within_Cons list_all_iff)

section \<open>The contract of a fixed-window limiter\<close>

text \<open>
  What the middleware relies on.  \<open>view s k\<close> is the current window of key \<open>k\<close>, if the limiter
  remembers one.  A step decides from the key's window alone; it updates that window as a
  fixed-window counter does; and it may forget another key's window only when two windows have
  passed since it started, so that a reading late by up to one window still finds it run out.
\<close>

locale fixed_window =
  fixes step :: "time \<Rightarrow> 'k \<Rightarrow> 's \<Rightarrow> bool \<times> 's"
    and view :: "'s \<Rightarrow> 'k \<Rightarrow> rate_entry option"
    and good :: "'s \<Rightarrow> bool"
    and window :: int
    and mx :: int
  assumes good_bounds: "good s \<Longrightarrow> 0 < window \<and> 0 < mx"
    and good_step: "good s \<Longrightarrow> good (snd (step now k s))"
    and view_count: "good s \<Longrightarrow> view s k = Some e \<Longrightarrow> 1 \<le> re_count e \<and> re_count e \<le> mx"
    and step_reset: "good s \<Longrightarrow> 0 < now \<Longrightarrow>
        (case view s k of None \<Rightarrow> True | Some e \<Rightarrow> window \<le> now - re_windowStart e) \<Longrightarrow>
        fst (step now k s) \<and> view (snd (step now k s)) k = Some \<lparr>re_windowStart = now, re_count = 1\<rparr>"
    and step_count: "good s \<Longrightarrow> 0 < now \<Longrightarrow> view s k = Some e \<Longrightarrow> now - re_windowStart e < window \<Longrightarrow>
        fst (step now k s) = (re_count e < mx) \<and>
        view (snd (step now k s)) k =
          Some (if re_count e < mx then e\<lparr>re_count := re_count e + 1\<rparr> else e)"
    and step_other: "good s \<Longrightarrow> 0 < now \<Longrightarrow> j \<noteq> k \<Longrightarrow>
        view (snd (step now k s)) j = view s j \<or>
        (view (snd (step now k s)) j = None \<and>
         (\<exists>e. view s j = Some e \<and> 2 * window \<le> now - re_windowStart e))"
begin

text \<open>The times at which requests of key \<open>k\<close> are admitted by a run from \<open>s\<close>.\<close>

fun admitted :: "'k \<Rightarrow> (time \<times> 'k) list \<Rightarrow> 's \<Rightarrow> time list" where
  "admitted k [] s = []"
| "admitted k ((now, j) # reqs) s =
     (if j = k \<and> fst (step now j s) then [now] else []) @ admitted k reqs (snd (step now j s))"

definition hits :: "int \<Rightarrow> time list \<Rightarrow> int" where
  "hits a ts = int (length (filter (\<lambda>t. a \<le> t \<and> t < a + window) ts))"

text \<open>
  With readings that go back by at most \<open>d\<close>, a window that admits something in the interval
  \<open>[a, a + window)\<close> starts in \<open>(a - window, a + window + d)\<close>.  Starts are a window apart, so \<open>starts d a x\<close>
  bounds the number of such windows from \<open>x\<close> on.
\<close>

definition starts :: "int \<Rightarrow> int \<Rightarrow> int \<Rightarrow> int" where
  "starts d a x =
     (if a + window + d \<le> x then 0 else if a + d \<le> x then 1
      else if d = 0 \<or> a + d - window \<le> x then 2 else 3)"

text \<open>
  The most that can still be admitted in \<open>[a, a + window)\<close>, from the key's window when \<open>now\<close> is the
  latest reading so far.
\<close>

definition room :: "int \<Rightarrow> int \<Rightarrow> time \<Rightarrow> rate_entry option \<Rightarrow> int" where
  "room d a now v =
     (case v of
        None \<Rightarrow> mx * starts d a (now - d)
      | Some e \<Rightarrow>
          (if a < re_windowStart e + window \<and> re_windowStart e < a + window + d then mx - re_count e else 0) +
          mx * starts d a (re_windowStart e + window))"

lemma starts_bounds: "0 \<le> starts d a x" "starts d a x \<le> (if d = 0 then 2 else 3)"
  by (auto simp: starts_def)

lemma starts_mono: "0 < window \<Longrightarrow> x \<le> y \<Longrightarrow> starts d a y \<le> starts d a x"
  by (auto simp: starts_def)

lemma starts_next:
  "0 < window \<Longrightarrow> 0 \<le> d \<Longrightarrow> d \<le> window \<Longrightarrow> a - window < t \<Longrightarrow> t < a + window + d \<Longrightarrow>
   starts d a (t + window) + 1 \<le> starts d a t"
  by (auto simp: starts_def)

lemma hits_Nil [simp]: "hits a [] = 0"
  by (simp add: hits_def)

lemma hits_append [simp]: "hits a (ts @ us) = hits a ts + hits a us"
  by (simp add: hits_def)

lemma mx_starts_mono:
  assumes "good s" and "x \<le> y"
  shows "mx * starts d a y \<le> mx * starts d a x"
  using good_bounds [OF assms(1)] starts_mono [of x y d a] assms(2) by simp

lemma mx_starts_next:
  assumes "good s" and "0 \<le> d" and "d \<le> window" and "a - window < t" and "t < a + window + d"
  shows "mx * starts d a (t + window) + mx \<le> mx * starts d a t"
proof -
  have "mx * (starts d a (t + window) + 1) \<le> mx * starts d a t"
    using good_bounds [OF assms(1)] starts_next [of d a t] assms by simp
  then show ?thesis by (simp add: algebra_simps)
qed

lemma room_nonneg: "good s \<Longrightarrow> 0 \<le> room d a now (view s k)"
  using good_bounds [of s] view_count [of s k] starts_bounds(1) [of d a]
  by (cases "view s k") (auto simp: room_def)

lemma room_ge_starts:
  assumes "good s" and "view s k = Some e" and "re_windowStart e + window \<le> x"
  shows "mx * starts d a x \<le> room d a now (Some e)"
  using order_trans [OF mx_starts_mono [OF assms(1,3), of d a]] view_count [OF assms(1,2)]
  by (simp add: room_def)

text \<open>
  One step of the tracked key: what it admits in the interval plus what may still be admitted
  afterwards is within the room before.
\<close>

lemma room_reset:
  assumes g: "good s" and d: "0 \<le> d" "d \<le> window"
  shows "hits a [t] + room d a now (Some \<lparr>re_windowStart = t, re_count = 1\<rparr>) \<le> mx * starts d a t"
proof (cases "a - window < t \<and> t < a + window + d")
  case True
  with mx_starts_next [OF g d, of a t] good_bounds [OF g] d show ?thesis
    by (auto simp: room_def hits_def)
next
  case False
  with mx_starts_mono [OF g, of t "t + window" d a] good_bounds [OF g] d show ?thesis
    by (auto simp: room_def hits_def)
qed

lemma room_step_same:
  assumes g: "good s" and t: "0 < t" "now \<le> t + d" and d: "0 \<le> d" "d \<le> window"
    and past: "\<And>e. view s k = Some e \<Longrightarrow> re_windowStart e \<le> now"
  shows "hits a (if fst (step t k s) then [t] else []) + room d a (max now t) (view (snd (step t k s)) k)
     \<le> room d a now (view s k)"
proof (cases "case view s k of None \<Rightarrow> True | Some e \<Rightarrow> window \<le> t - re_windowStart e")
  case True
  with step_reset [OF g t(1)] have s: "fst (step t k s)"
    "view (snd (step t k s)) k = Some \<lparr>re_windowStart = t, re_count = 1\<rparr>" by auto
  have "mx * starts d a t \<le> room d a now (view s k)"
  proof (cases "view s k")
    case None
    then show ?thesis using mx_starts_mono [OF g, of "now - d" t d a] t(2) by (simp add: room_def)
  next
    case (Some e)
    with True have "re_windowStart e + window \<le> t" by simp
    from room_ge_starts [OF g Some this] show ?thesis by (simp add: Some)
  qed
  with room_reset [OF g d, of a t "max now t"] s show ?thesis by simp
next
  case False
  then obtain e where e: "view s k = Some e" "t - re_windowStart e < window"
    by (auto split: option.splits)
  from step_count [OF g t(1) e] past [OF e(1)] view_count [OF g e(1)] e t(2) show ?thesis
    by (auto simp: room_def hits_def)
qed

lemma room_step_other:
  assumes g: "good s" and t: "0 < t" and d: "d \<le> window" and "j \<noteq> k"
  shows "room d a (max now t) (view (snd (step t k s)) j) \<le> room d a now (view s j)"
proof (cases "view (snd (step t k s)) j = view s j")
  case True
  then show ?thesis
    using mx_starts_mono [OF g, of "now - d" "max now t - d" d a] by (cases "view s j") (auto simp: room_def)
next
  case False
  with step_other [OF g t \<open>j \<noteq> k\<close>] obtain e where e: "view (snd (step t k s)) j = None"
    "view s j = Some e" "2 * window \<le> t - re_windowStart e" by auto
  have "re_windowStart e + window \<le> max now t - d" using e(3) d by simp
  from room_ge_starts [OF g e(2) this, of d a now] show ?thesis
    by (simp add: room_def [of _ _ _ None] e(1,2))
qed

lemma view_past:
  assumes g: "good s" and t: "0 < t"
    and past: "\<And>j e. view s j = Some e \<Longrightarrow> re_windowStart e \<le> now"
    and e: "view (snd (step t k s)) j = Some e"
  shows "re_windowStart e \<le> max now t"
proof (cases "j = k")
  case False
  with step_other [OF g t False] e past show ?thesis by (auto simp: max.coboundedI1)
next
  case True
  show ?thesis
  proof (cases "case view s k of None \<Rightarrow> True | Some e \<Rightarrow> window \<le> t - re_windowStart e")
    case True
    with step_reset [OF g t True] e \<open>j = k\<close> show ?thesis by auto
  next
    case False
    then obtain e0 where e0: "view s k = Some e0" "t - re_windowStart e0 < window"
      by (auto split: option.splits)
    from step_count [OF g t e0] past [OF e0(1)] e \<open>j = k\<close> show ?thesis
      by (auto split: if_splits)
  qed
qed

lemma hits_le_room:
  assumes "good s" and "0 \<le> d" and "d \<le> window"
    and "\<And>j e. view s j = Some e \<Longrightarrow> re_windowStart e \<le> now"
    and "lag_within d (now # map fst reqs)" and "list_all (\<lambda>r. 0 < fst r) reqs"
  shows "hits a (admitted k reqs s) \<le> room d a now (view s k)"
  using assms
proof (induction reqs arbitrary: s now)
  case Nil
  then show ?case by (simp add: room_nonneg)
next
  case (Cons req reqs)
  obtain t j where req: "req = (t, j)" by (cases req)
  define s' where "s' = snd (step t j s)"
  have t: "0 < t" "now \<le> t + d" "lag_within d (max now t # map fst reqs)"
    using Cons.prems(5,6) lag_within_max [of d now t] req by (auto simp: lag_within_Cons)
  note g = Cons.prems(1) and d = Cons.prems(2,3) and past = Cons.prems(4)
  have IH: "hits a (admitted k reqs s') \<le> room d a (max now t) (view s' k)"
    by (rule Cons.IH) (use g d t view_past [OF g t(1) past] good_step Cons.prems(6) in
        \<open>auto simp: s'_def\<close>)
  show ?case
  proof (cases "j = k")
    case True
    with room_step_same [OF g t(1,2) d, of k a] past IH show ?thesis
      by (auto simp: req s'_def split: if_splits)
  next
    case False
    with room_step_other [OF g t(1) d(2), of k j a now] IH show ?thesis
      by (auto simp: req s'_def)
  qed
qed

text \<open>
  In any interval of one window's length at most twice the limit is admitted when the readings are
  sorted, and at most three times the limit when they go back by at most one window.
\<close>

lemma burst_bound:
  assumes "good s" and "\<And>j. view s j = None" and "0 \<le> d" and "d \<le> window"
    and "lag_within d (map fst reqs)" and "list_all (\<lambda>r. 0 < fst r) reqs"
  shows "hits a (admitted k reqs s) \<le> (if d = 0 then 2 else 3) * mx"
proof (cases reqs)
  case Nil
  then show ?thesis using good_bounds [OF assms(1)] by simp
next
  case (Cons r rs)
  have "lag_within d (fst r # map fst reqs)"
    using assms(3,5) Cons by (auto simp: lag_within_Cons)
  then have "hits a (admitted k reqs s) \<le> room d a (fst r) (view s k)"
    by (intro hits_le_room) (use assms in auto)
  also have "\<dots> \<le> mx * (if d = 0 then 2 else 3)"
    unfolding assms(2) room_def option.case
    by (rule mult_left_mono [OF starts_bounds(2)]) (use good_bounds [OF assms(1)] in simp)
  finally show ?thesis by (simp add: mult.commute)
qed

text \<open>The part of a key's window that still matters at time \<open>now\<close>.\<close>

definition live :: "time \<Rightarrow> rate_entry option \<Rightarrow> rate_entry option" where
  "live now v = (case v of
     None \<Rightarrow> None
   | Some e \<Rightarrow> if window \<le> now - re_windowStart e then None else Some e)"

lemma live_Some: "live now v = Some e \<longleftrightarrow> v = Some e \<and> now - re_windowStart e < window"
  by (auto simp: live_def split: option.splits if_splits)

lemma live_later: "now \<le> now' \<Longrightarrow> live now v = live now w \<Longrightarrow> live now' v = live now' w"
  by (cases v; cases w) (auto simp: live_def split: if_splits)

text \<open>The reference transition of one counter, on live windows.\<close>

definition counter_step :: "time \<Rightarrow> rate_entry option \<Rightarrow> bool \<times> rate_entry option" where
  "counter_step now v = (case v of
     None \<Rightarrow> (True, Some \<lparr>re_windowStart = now, re_count = 1\<rparr>)
   | Some e \<Rightarrow>
       (re_count e < mx, Some (if re_count e < mx then e\<lparr>re_count := re_count e + 1\<rparr> else e)))"

lemma step_refines_counter:
  assumes g: "good s" and t: "0 < t"
  shows "fst (step t k s) = fst (counter_step t (live t (view s k)))"
    and "view (snd (step t k s)) k = snd (counter_step t (live t (view s k)))"
    and "j \<noteq> k \<Longrightarrow> d \<le> window \<Longrightarrow> t - d \<le> low \<Longrightarrow> live low (view (snd (step t k s)) j) = live low (view s j)"
proof -
  have "fst (step t k s) = fst (counter_step t (live t (view s k))) \<and>
    view (snd (step t k s)) k = snd (counter_step t (live t (view s k)))"
  proof (cases "live t (view s k)")
    case None
    then have "case view s k of None \<Rightarrow> True | Some e \<Rightarrow> window \<le> t - re_windowStart e"
      by (auto simp: live_def split: option.splits if_splits)
    from step_reset [OF g t this] None show ?thesis by (simp add: counter_step_def)
  next
    case (Some e)
    then have "view s k = Some e" "t - re_windowStart e < window" by (auto simp: live_Some)
    from step_count [OF g t this] Some show ?thesis by (simp add: counter_step_def)
  qed
  then show "fst (step t k s) = fst (counter_step t (live t (view s k)))"
    and "view (snd (step t k s)) k = snd (counter_step t (live t (view s k)))" by auto
  show "live low (view (snd (step t k s)) j) = live low (view s j)"
    if "j \<noteq> k" "d \<le> window" "t - d \<le> low"
    using step_other [OF g t that(1)] that(2,3) by (auto simp: live_def)
qed

fun decisions :: "(time \<times> 'k) list \<Rightarrow> 's \<Rightarrow> bool list" where
  "decisions [] s = []"
| "decisions ((now, k) # reqs) s = fst (step now k s) # decisions reqs (snd (step now k s))"

end

text \<open>Two limiters with the same window and limit decide alike.\<close>

locale fixed_window_pair =
  A: fixed_window stepA viewA goodA window mx + B: fixed_window stepB viewB goodB window mx
  for stepA :: "time \<Rightarrow> 'k \<Rightarrow> 'a \<Rightarrow> bool \<times> 'a" and viewA goodA
    and stepB :: "time \<Rightarrow> 'k \<Rightarrow> 'b \<Rightarrow> bool \<times> 'b" and viewB goodB
    and window :: int and mx :: int
begin

lemma decisions_agree:
  assumes "goodA s" and "goodB t" and "d \<le> window"
    and "\<And>k. A.live (now - d) (viewA s k) = A.live (now - d) (viewB t k)"
    and "lag_within d (now # map fst reqs)" and "list_all (\<lambda>r. 0 < fst r) reqs"
  shows "A.decisions reqs s = B.decisions reqs t"
  using assms
proof (induction reqs arbitrary: s t now)
  case (Cons req reqs)
  obtain u j where req: "req = (u, j)" by (cases req)
  have u: "now - d \<le> u" "0 < u" "lag_within d (max now u # map fst reqs)"
    using Cons.prems(5,6) lag_within_max [of d now u] req by (auto simp: lag_within_Cons)
  have live: "A.live u (viewA s k) = A.live u (viewB t k)" for k
    by (rule A.live_later [OF u(1) Cons.prems(4)])
  have low: "u - d \<le> max now u - d" "now - d \<le> max now u - d" by simp_all
  note a = A.step_refines_counter [OF Cons.prems(1) u(2)]
    and b = B.step_refines_counter [OF Cons.prems(2) u(2)]
  have "A.live (max now u - d) (viewA (snd (stepA u j s)) k) =
      A.live (max now u - d) (viewB (snd (stepB u j t)) k)" for k
  proof (cases "k = j")
    case True
    then show ?thesis by (simp add: a(2) b(2) live)
  next
    case False
    from a(3) [OF False Cons.prems(3) low(1)] b(3) [OF False Cons.prems(3) low(1)]
      A.live_later [OF low(2) Cons.prems(4), of k]
    show ?thesis by simp
  qed
  then have "A.decisions reqs (snd (stepA u j s)) = B.decisions reqs (snd (stepB u j t))"
    by (intro Cons.IH [OF A.good_step [OF Cons.prems(1)] B.good_step [OF Cons.prems(2)] Cons.prems(3) _ u(3)])
      (use Cons.prems(6) in auto)
  then show ?case using a(1) b(1) live by (simp add: req)
qed simp

end

section \<open>The limiter of the code meets the contract\<close>

text \<open>
  An entry with a zero start counts as absent.  The bound on the window keeps \<open>2*l.window\<close>
  within \<open>int64\<close>; it is about 146 years.
\<close>

definition live_view :: "fixedWindowLimiter \<Rightarrow> string \<Rightarrow> rate_entry option" where
  "live_view l k = (case lim_entries l k of
     None \<Rightarrow> None
   | Some e \<Rightarrow> if is_zero (re_windowStart e) then None else Some e)"

definition limiter_ok :: "duration \<Rightarrow> int \<Rightarrow> fixedWindowLimiter \<Rightarrow> bool" where
  "limiter_ok window mx l \<longleftrightarrow>
     lim_window l = window \<and> 0 < window \<and> window \<le> 4611686018427387903 \<and> 0 < mx \<and>
     (\<forall>k e. lim_entries l k = Some e \<longrightarrow> 1 \<le> re_count e \<and> re_count e \<le> mx)"

text \<open>The reference: the same limiter that never forgets an entry.\<close>

definition allow_unpruned :: "time \<Rightarrow> string \<Rightarrow> int \<Rightarrow> fixedWindowLimiter \<Rightarrow> bool \<times> fixedWindowLimiter" where
  "allow_unpruned now key mx l =
     (let entry = (case lim_entries l key of None \<Rightarrow> zero_rate_entry | Some e \<Rightarrow> e)
      in if is_zero (re_windowStart entry) \<or> lim_window l \<le> time_sub now (re_windowStart entry)
         then (True,
                 l\<lparr>lim_entries := (lim_entries l)(key \<mapsto> \<lparr>re_windowStart = now, re_count = 1\<rparr>)\<rparr>)
         else if mx \<le> re_count entry then (False, l)
         else (True, l\<lparr>lim_entries := (lim_entries l)(key \<mapsto> entry\<lparr>re_count := re_count entry + 1\<rparr>)\<rparr>))"

lemma limiter_ok_sub:
  assumes "limiter_ok window mx l"
  shows "window \<le> time_sub t u \<longleftrightarrow> window \<le> t - u"
    and "wrap64 (2 * window) < time_sub t u \<longleftrightarrow> 2 * window < t - u"
proof -
  from assms have w: "0 < window" "window \<le> 4611686018427387903" by (auto simp: limiter_ok_def)
  then have "is_int64 window" "is_int64 (2 * window)" "2 * window < max_int64"
    by (auto simp: is_int64_def min_int64_def max_int64_def)
  with w show "window \<le> time_sub t u \<longleftrightarrow> window \<le> t - u"
    and "wrap64 (2 * window) < time_sub t u \<longleftrightarrow> 2 * window < t - u"
    by (simp_all add: time_sub_ge_iff time_sub_gt_iff wrap64_id)
qed

lemma lim_window_ok: "limiter_ok window mx l \<Longrightarrow> lim_window l = window"
  by (simp add: limiter_ok_def)

lemmas limiter_defs = allow_def allow_unpruned_def live_view_def zero_rate_entry_def
  is_zero_def zero_time_def Let_def

lemma allow_unpruned_ok:
  assumes "limiter_ok window mx l"
  shows "limiter_ok window mx (snd (allow_unpruned now k mx l))"
proof -
  from assms have count: "1 \<le> re_count e \<and> re_count e \<le> mx" if "lim_entries l j = Some e" for j e
    using that by (simp add: limiter_ok_def)
  from assms have "1 \<le> mx" by (simp add: limiter_ok_def)
  with assms show ?thesis
    unfolding limiter_ok_def
    by (auto simp: limiter_defs split: option.splits if_splits dest: count)
qed

lemma pruneLocked_ok: "limiter_ok window mx l \<Longrightarrow> limiter_ok window mx (pruneLocked now l)"
  by (auto simp: limiter_ok_def pruneLocked_def split: option.splits if_splits)

lemma allow_pruned:
  "allow now k mx l =
     (if (case live_view l k of None \<Rightarrow> True | Some e \<Rightarrow> lim_window l \<le> time_sub now (re_windowStart e))
      then (True, pruneLocked now (snd (allow_unpruned now k mx l)))
      else allow_unpruned now k mx l)"
  by (auto simp: limiter_defs split: option.splits)

lemma allow_ok: "limiter_ok window mx l \<Longrightarrow> limiter_ok window mx (snd (allow now k mx l))"
  by (simp add: allow_pruned allow_unpruned_ok pruneLocked_ok)

text \<open>Pruning keeps a window that has not run out for twice its length.\<close>

lemma live_view_pruneLocked:
  assumes "limiter_ok window mx l"
  shows "live_view (pruneLocked now l) j =
    (case live_view l j of
       None \<Rightarrow> None
     | Some e \<Rightarrow> if 2 * window < now - re_windowStart e then None else Some e)"
  using limiter_ok_sub(2) [OF assms] lim_window_ok [OF assms]
  by (auto simp: live_view_def pruneLocked_def split: option.splits)

lemma live_view_count:
  "limiter_ok window mx l \<Longrightarrow> live_view l k = Some e \<Longrightarrow> 1 \<le> re_count e \<and> re_count e \<le> mx"
  by (auto simp: limiter_ok_def live_view_def split: option.splits if_splits)

lemma unpruned_reset:
  assumes ok: "limiter_ok window mx l" and now: "0 < now"
    and old: "case live_view l k of None \<Rightarrow> True | Some e \<Rightarrow> window \<le> now - re_windowStart e"
  shows "fst (allow_unpruned now k mx l)"
    and "live_view (snd (allow_unpruned now k mx l)) k = Some \<lparr>re_windowStart = now, re_count = 1\<rparr>"
  using old now limiter_ok_sub(1) [OF ok] lim_window_ok [OF ok]
  by (auto simp: limiter_defs split: option.splits if_splits)

lemma unpruned_count:
  assumes ok: "limiter_ok window mx l" and e: "live_view l k = Some e" "now - re_windowStart e < window"
  shows "fst (allow_unpruned now k mx l) = (re_count e < mx)"
    and "live_view (snd (allow_unpruned now k mx l)) k =
      Some (if re_count e < mx then e\<lparr>re_count := re_count e + 1\<rparr> else e)"
  using e limiter_ok_sub(1) [OF ok] lim_window_ok [OF ok]
  by (auto simp: limiter_defs split: option.splits if_splits)

lemma unpruned_other:
  "j \<noteq> k \<Longrightarrow> live_view (snd (allow_unpruned now k mx l)) j = live_view l j"
  by (auto simp: limiter_defs split: option.splits if_splits)

lemma limiter_ok_bounds: "limiter_ok window mx l \<Longrightarrow> 0 < window \<and> 0 < mx"
  by (simp add: limiter_ok_def)

interpretation reference: fixed_window
  "\<lambda>now k l. allow_unpruned now k mx l" live_view "limiter_ok window mx" window mx
  for window mx
proof (unfold_locales, goal_cases)
  case (1 s) then show ?case by (rule limiter_ok_bounds)
next
  case (2 s now k) then show ?case by (rule allow_unpruned_ok)
next
  case (3 s k e) then show ?case by (rule live_view_count)
next
  case (4 s now k) then show ?case using unpruned_reset by blast
next
  case (5 s now k e) then show ?case using unpruned_count by blast
next
  case (6 s now j k) then show ?case using unpruned_other by blast
qed

interpretation limiter: fixed_window
  "\<lambda>now k l. allow now k mx l" live_view "limiter_ok window mx" window mx
  for window mx
proof (unfold_locales, goal_cases)
  case (1 s) then show ?case by (rule limiter_ok_bounds)
next
  case (2 s now k) then show ?case by (rule allow_ok)
next
  case (3 s k e) then show ?case by (rule live_view_count)
next
  case (4 s now k)
  from limiter_ok_bounds [OF 4(1)] unpruned_reset [OF 4]
    live_view_pruneLocked [OF allow_unpruned_ok [OF 4(1)], of now now k k] 4(3)
    limiter_ok_sub(1) [OF 4(1)] lim_window_ok [OF 4(1)]
  show ?case by (auto simp: allow_pruned split: option.splits)
next
  case (5 s now k e)
  with unpruned_count [OF 5(1,3,4)] limiter_ok_sub(1) [OF 5(1)] lim_window_ok [OF 5(1)]
  show ?case by (auto simp: allow_pruned)
next
  case (6 s now j k)
  from limiter_ok_bounds [OF 6(1)] unpruned_other [OF 6(3), of now mx s]
    live_view_pruneLocked [OF allow_unpruned_ok [OF 6(1)], of now now k j]
  show ?case by (auto simp: allow_pruned split: option.splits if_splits)
qed

interpretation pruning: fixed_window_pair
  "\<lambda>now k l. allow now k mx l" live_view "limiter_ok window mx"
  "\<lambda>now k l. allow_unpruned now k mx l" live_view "limiter_ok window mx" window mx
  for window mx ..

section \<open>Properties\<close>

fun run_allow_unpruned ::
    "int \<Rightarrow> (time \<times> string) list \<Rightarrow> fixedWindowLimiter \<Rightarrow> bool list \<times> fixedWindowLimiter" where
  "run_allow_unpruned mx [] l = ([], l)"
| "run_allow_unpruned mx ((now, key) # reqs) l =
     (let (ok, l') = allow_unpruned now key mx l; (oks, l'') = run_allow_unpruned mx reqs l'
      in (ok # oks, l''))"

lemma run_allow_decisions: "fst (run_allow mx reqs l) = limiter.decisions mx reqs l"
  by (induction reqs arbitrary: l) (auto simp: split_beta Let_def)

lemma run_allow_unpruned_decisions:
  "fst (run_allow_unpruned mx reqs l) = reference.decisions mx reqs l"
  by (induction reqs arbitrary: l) (auto simp: split_beta Let_def)

lemma new_limiter_ok:
  "0 < w \<Longrightarrow> w \<le> 4611686018427387903 \<Longrightarrow> 0 < mx \<Longrightarrow> limiter_ok w mx (new_limiter w)"
  by (simp add: new_limiter_def limiter_ok_def)

lemma new_limiter_view [simp]: "live_view (new_limiter w) k = None"
  by (simp add: new_limiter_def live_view_def)

text \<open>The times at which a run of the limiter admits key \<open>k\<close>.\<close>

definition admitted_times :: "string \<Rightarrow> (time \<times> string) list \<Rightarrow> bool list \<Rightarrow> time list" where
  "admitted_times k reqs oks = map (fst \<circ> fst) (filter (\<lambda>(r, ok). ok \<and> snd r = k) (zip reqs oks))"

lemma admitted_times_run:
  "admitted_times k reqs (fst (run_allow mx reqs l)) = limiter.admitted mx k reqs l"
  by (induction reqs arbitrary: l)
    (auto simp: admitted_times_def split_beta Let_def)

text \<open>The bound of the contract, for runs of the limiter.\<close>

lemma burst_bound_run:
  assumes "0 < window" and "window \<le> 4611686018427387903" and "0 < mx"
    and "0 \<le> d" and "d \<le> window" and "lag_within d (map fst reqs)" and "list_all (\<lambda>r. 0 < fst r) reqs"
  shows "int (length (filter (\<lambda>t. a \<le> t \<and> t < a + window)
           (admitted_times k reqs (fst (run_allow mx reqs (new_limiter window))))))
    \<le> (if d = 0 then 2 else 3) * mx"
  using limiter.burst_bound [OF new_limiter_ok [OF assms(1-3)] new_limiter_view assms(4-7)]
  by (simp add: admitted_times_run limiter.hits_def)

text \<open>
  C8. Rate limiting.  The requests are listed in the order in which they take the limiter's mutex,
  and each read the clock before that: suppose that no reading is overtaken by one more than \<open>d\<close>
  later, for some \<open>d\<close> of at most one window.  Then in any time interval as long as one window the
  limiter admits at most three times the configured number of requests of one client and route,
  and at most twice that number when the readings are in order (\<open>d = 0\<close>): a full window just before
  a boundary and another just after it.  The configured number itself bounds only what one fixed
  window admits.
\<close>

theorem rate_limit_burst_bound:
  assumes "0 < window" and "window \<le> 4611686018427387903" and "0 < mx"
    and "0 \<le> d" and "d \<le> window" and "lag_within d (map fst reqs)" and "list_all (\<lambda>r. 0 < fst r) reqs"
  shows "int (length (filter (\<lambda>t. a \<le> t \<and> t < a + window)
           (admitted_times k reqs (fst (run_allow mx reqs (new_limiter window))))))
    \<le> (if d = 0 then 2 else 3) * mx"
  by (rule burst_bound_run [OF assms])

text \<open>
  Two runs: readings in order, with limit 1, and readings up to 2 late, with limit 3.  The second
  admits 7 requests in the interval, more than twice the limit, so the third factor is needed.
\<close>

theorem rate_limit_burst_bound_witness:
  "int (length (filter (\<lambda>t. 100 \<le> t \<and> t < 100 + 60)
     (admitted_times ''k'' [(70, ''k''), (71, ''k''), (130, ''k''), (131, ''k''), (132, ''k'')]
       (fst (run_allow 1 [(70, ''k''), (71, ''k''), (130, ''k''), (131, ''k''), (132, ''k'')]
         (new_limiter 60)))))) \<le> (2::int) * 1 \<and>
   int (length (filter (\<lambda>t. 159 \<le> t \<and> t < 159 + 60)
     (admitted_times ''k'' (map (\<lambda>t. (t, ''k'')) [100, 159, 159, 160, 161, 162, 220, 218, 218])
       (fst (run_allow 3 (map (\<lambda>t. (t, ''k'')) [100, 159, 159, 160, 161, 162, 220, 218, 218])
         (new_limiter 60)))))) \<le> (3::int) * 3"
  using rate_limit_burst_bound [of 60 1 0 "[(70, ''k''), (71, ''k''), (130, ''k''), (131, ''k''), (132, ''k'')]"
      100 "''k''"]
    rate_limit_burst_bound [of 60 3 2 "map (\<lambda>t. (t, ''k'')) [100, 159, 159, 160, 161, 162, 220, 218, 218]"
      159 "''k''"]
  by (simp add: lag_within_def)

text \<open>
  Readings that are late by as little as 2 units let the limiter admit more than twice the limit
  in one window's length.
\<close>

lemma late_readings_exceed_twice:
  "lag_within 2 [100, 159, 159, 160, 161, 162, 220, 218, 218] \<and>
   length (filter (\<lambda>t. 159 \<le> t \<and> t < 159 + 60)
     (admitted_times ''k'' (map (\<lambda>t. (t, ''k'')) [100, 159, 159, 160, 161, 162, 220, 218, 218])
       (fst (run_allow 3 (map (\<lambda>t. (t, ''k'')) [100, 159, 159, 160, 161, 162, 220, 218, 218])
         (new_limiter 60))))) = 7"
  by code_simp

text \<open>
  C31. Pruning is invisible: with readings late by at most one window, the limiter, which forgets
  entries older than two windows, takes exactly the decisions of a limiter that never forgets one.
\<close>

theorem rate_limit_pruning_transparent:
  assumes "0 < window" and "window \<le> 4611686018427387903" and "0 < mx"
    and "0 \<le> d" and "d \<le> window" and "lag_within d (map fst reqs)" and "list_all (\<lambda>r. 0 < fst r) reqs"
  shows "fst (run_allow mx reqs (new_limiter window)) = fst (run_allow_unpruned mx reqs (new_limiter window))"
proof (cases reqs)
  case (Cons r rs)
  have ok: "limiter_ok window mx (new_limiter window)" by (rule new_limiter_ok [OF assms(1-3)])
  have "lag_within d (fst r # map fst reqs)"
    using assms(4,6) Cons by (auto simp: lag_within_Cons)
  then have "limiter.decisions mx reqs (new_limiter window) = reference.decisions mx reqs (new_limiter window)"
    by (intro pruning.decisions_agree [OF ok ok assms(5)]) (use assms(7) in auto)
  then show ?thesis by (simp add: run_allow_decisions run_allow_unpruned_decisions)
qed simp

theorem rate_limit_pruning_transparent_witness:
  "fst (run_allow 1 [(70, ''k''), (71, ''k''), (300, ''j''), (281, ''k'')] (new_limiter 60)) =
   fst (run_allow_unpruned 1 [(70, ''k''), (71, ''k''), (300, ''j''), (281, ''k'')] (new_limiter 60))"
  by (rule rate_limit_pruning_transparent [where d = 20]) (simp_all add: lag_within_def)

text \<open>
  C32. With a window above 2^62 - 1 nanoseconds (about 146 years), a value the configuration
  accepts, the product \<open>2*l.window\<close> overflows to a negative number: pruning then deletes the
  entry that was just stored, and the limiter admits every request.
\<close>

theorem rate_limit_disabled_by_overflow:
  assumes "4611686018427387903 < window" and "window \<le> max_int64"
  shows "run_allow mx reqs (new_limiter window) = (replicate (length reqs) True, new_limiter window)"
proof -
  have neg: "wrap64 (2 * window) < 0"
  proof -
    have "(2 * window + 9223372036854775808) mod 18446744073709551616
        = 2 * window + 9223372036854775808 - 18446744073709551616"
      by (rule mod_one_wrap) (use assms in \<open>simp_all add: max_int64_def\<close>)
    then show ?thesis using assms by (simp add: wrap64_def max_int64_def)
  qed
  have "allow now k mx (new_limiter window) = (True, new_limiter window)" for now k
    using neg assms
    by (auto simp: allow_def pruneLocked_def new_limiter_def zero_rate_entry_def is_zero_def
        time_sub_def sat64_def min_int64_def max_int64_def fun_eq_iff)
  then show ?thesis by (induction reqs) (auto simp: split_beta Let_def)
qed

theorem rate_limit_disabled_by_overflow_witness:
  "fst (run_allow 1 [(5, ''k''), (6, ''k''), (7, ''k'')] (new_limiter 4680000000000000000)) = [True, True, True]"
  using rate_limit_disabled_by_overflow [of 4680000000000000000 1 "[(5, ''k''), (6, ''k''), (7, ''k'')]"]
  by (simp add: max_int64_def)

end
