(* ===== verification/Config.thy ===== *)
theory Config
  imports GoUrl
begin

text \<open>
  The configuration (\<open>internal/config/config.go\<close>): the records, the defaults, the parsing helpers
  and \<open>loadFromMap\<close> as the list of its steps, each of which reads one variable or makes one check
  and may return early.  The environment is a map from names to values.  The texts of \<open>%q\<close>-quoted
  errors are represented by the name of the variable and the refused value.
\<close>

section \<open>Records\<close>

record E2EConfig =
  e2_UpstreamMode :: string
  e2_TurnstilePassToken :: string
  e2_TurnstileFailToken :: string
  e2_AppCheckToken :: string
  e2_AppCheckAppID :: string

record AdminDashboardConfig =
  da_Enabled :: bool
  da_BasePath :: string
  da_TimestampFormat :: string
  da_TimestampTimezone :: string

record AdminAuthConfig =
  aa_Mode :: string
  aa_UserHeader :: string
  aa_EmailHeader :: string
  aa_GroupsHeader :: string
  aa_AllowedUsers :: "string list"
  aa_AllowedGroups :: "string list"

record AdminConfig =
  ad_Dashboard :: AdminDashboardConfig
  ad_Auth :: AdminAuthConfig

record AuditConfig =
  au_Enabled :: bool
  au_StorageType :: string
  au_DSN :: string
  au_SQLitePath :: string
  au_DBMaxOpenConns :: int
  au_DBMaxIdleConns :: int
  au_DBConnMaxLifetime :: duration
  au_DBConnMaxIdleTime :: duration
  au_AsyncEnabled :: bool
  au_ChannelSize :: int
  au_BatchSize :: int
  au_FlushInterval :: duration
  au_ShutdownFlushTimeout :: duration
  au_DropOnFull :: bool
  au_EnqueueTimeout :: duration
  au_CriticalEnqueueTimeout :: duration
  au_RetryMaxAttempts :: int
  au_RetryInitialBackoff :: duration
  au_RetryMaxBackoff :: duration
  au_PublicMode :: string
  au_VerifySuccessSample :: float64
  au_VerifyFailureSample :: float64
  au_ExchangeSuccessSample :: float64
  au_ExchangeFailureSample :: float64
  au_RetentionDays :: int
  au_PruneInterval :: duration

record RateLimitConfig =
  rl_Enabled :: bool
  rl_RequestsPerWindow :: int
  rl_Window :: duration

record Config =
  cf_AppCheckSubpath :: string
  cf_HTTPAddr :: string
  cf_TurnstileSecretKey :: string
  cf_TurnstileSiteVerifyURL :: string
  cf_FirebaseProjectID :: string
  cf_FirebaseAppID :: string
  cf_FirebaseAppResource :: string
  cf_ServiceAccountJSON :: string
  cf_LogLevel :: string
  cf_RequestTimeout :: duration
  cf_AppCheckTokenTTL :: duration
  cf_AllowedExchangeOrigins :: "string list"
  cf_TrustProxyHeaders :: bool
  cf_VerifyHeaderName :: string
  cf_VerifySuccessStatus :: int
  cf_VerifyFailureStatus :: int
  cf_HealthPath :: string
  cf_ReadyPath :: string
  cf_E2E :: E2EConfig
  cf_Admin :: AdminConfig
  cf_Audit :: AuditConfig
  cf_RateLimit :: RateLimitConfig

datatype config_error =
    InvalidSetting string string
  | BadSetting string
  | InvalidOrigin string string
  | MissingConfig "string list"

section \<open>Parsing helpers\<close>

type_synonym env = "string \<Rightarrow> string option"

text \<open>Indexing a Go map yields the zero value for an absent key.\<close>

definition env_get :: "env \<Rightarrow> string \<Rightarrow> string" where
  "env_get env k = (case env k of None \<Rightarrow> [] | Some v \<Rightarrow> v)"

definition getOrDefault :: "env \<Rightarrow> string \<Rightarrow> string \<Rightarrow> string" where
  "getOrDefault env key fallback =
     (case env key of
        Some value \<Rightarrow> if trim_space value \<noteq> [] then value else fallback
      | None \<Rightarrow> fallback)"

definition defaultSubpath :: string where
  "defaultSubpath = ''/appcheck''"

definition normalizeSubpath :: "string \<Rightarrow> string" where
  "normalizeSubpath input =
     (let c0 = trim_space input;
          c1 = (if c0 = [] then defaultSubpath else c0);
          c2 = (if \<not> has_prefix c1 ''/'' then CHR ''/'' # c1 else c1);
          cleaned = path_clean c2
      in if cleaned = ''.'' then ''/''
         else if cleaned \<noteq> ''/'' then trim_suffix cleaned ''/'' else cleaned)"

definition normalizeHealthPath :: "string \<Rightarrow> string" where
  "normalizeHealthPath input =
     (let p = trim_space input
      in if p = [] then ''/''
         else path_clean (if \<not> has_prefix p ''/'' then CHR ''/'' # p else p))"

definition normalizeOrigin :: "string \<Rightarrow> string + string" where
  "normalizeOrigin raw =
     (case url_parse (trim_space raw) of
        None \<Rightarrow> Inl ''parse''
      | Some u \<Rightarrow>
          if u_Scheme u \<noteq> ''https'' \<and> u_Scheme u \<noteq> ''http'' then Inl ''scheme must be http or https''
          else if u_Host u = [] then Inl ''missing host''
          else if u_Path u \<noteq> [] \<and> u_Path u \<noteq> ''/'' then Inl ''path is not allowed''
          else if u_RawQuery u \<noteq> [] \<or> u_Fragment u \<noteq> [] \<or> u_User u
          then Inl ''origin must not include query, fragment or userinfo''
          else Inr (to_lower (u_Scheme u @ ''://'' @ u_Host u)))"

text \<open>The loop of \<open>parseAllowedOrigins\<close>; the set \<open>seen\<close> has the elements of \<open>origins\<close>.\<close>

fun origins_loop :: "string list \<Rightarrow> string list \<Rightarrow> config_error + string list" where
  "origins_loop [] origins = Inr origins"
| "origins_loop (part # parts) origins =
     (let v = trim_space part
      in if v = [] then origins_loop parts origins
         else case normalizeOrigin v of
           Inl e \<Rightarrow> Inl (InvalidOrigin v e)
         | Inr normalized \<Rightarrow>
             origins_loop parts (if normalized \<in> set origins then origins else origins @ [normalized]))"

definition parseAllowedOrigins :: "string \<Rightarrow> config_error + string list" where
  "parseAllowedOrigins raw = origins_loop (split_on CHR '','' raw) []"

fun csv_loop :: "string list \<Rightarrow> string list \<Rightarrow> string list \<Rightarrow> string list" where
  "csv_loop [] seen values = values"
| "csv_loop (part # parts) seen values =
     (let value = trim_space part; key = to_lower value
      in if value = [] \<or> key \<in> set seen then csv_loop parts seen values
         else csv_loop parts (seen @ [key]) (values @ [value]))"

definition parseCSV :: "string \<Rightarrow> string list" where
  "parseCSV raw = csv_loop (split_on CHR '','' raw) [] []"

definition parsePositiveInt :: "string \<Rightarrow> string \<Rightarrow> config_error + int" where
  "parsePositiveInt name raw =
     (case atoi raw of
        Some value \<Rightarrow> if value \<le> 0 then Inl (InvalidSetting name raw) else Inr value
      | None \<Rightarrow> Inl (InvalidSetting name raw))"

definition parseNonNegativeInt :: "string \<Rightarrow> string \<Rightarrow> config_error + int" where
  "parseNonNegativeInt name raw =
     (case atoi raw of
        Some value \<Rightarrow> if value < 0 then Inl (InvalidSetting name raw) else Inr value
      | None \<Rightarrow> Inl (InvalidSetting name raw))"

definition parsePositiveDuration :: "string \<Rightarrow> string \<Rightarrow> config_error + duration" where
  "parsePositiveDuration name raw =
     (case parse_duration raw of
        Some value \<Rightarrow> if value \<le> 0 then Inl (InvalidSetting name raw) else Inr value
      | None \<Rightarrow> Inl (InvalidSetting name raw))"

definition parseNonNegativeDuration :: "string \<Rightarrow> string \<Rightarrow> config_error + duration" where
  "parseNonNegativeDuration name raw =
     (case parse_duration raw of
        Some value \<Rightarrow> if value < 0 then Inl (InvalidSetting name raw) else Inr value
      | None \<Rightarrow> Inl (InvalidSetting name raw))"

definition parseSampleRate :: "string \<Rightarrow> string \<Rightarrow> config_error + float64" where
  "parseSampleRate name raw =
     (case parse_float raw of
        Some value \<Rightarrow> if flt value (Fin 0) \<or> flt (Fin 1) value then Inl (InvalidSetting name raw) else Inr value
      | None \<Rightarrow> Inl (InvalidSetting name raw))"

definition isValidAppResource :: "string \<Rightarrow> bool" where
  "isValidAppResource resource =
     (case split_on CHR ''/'' resource of
        [p0, p1, p2, p3] \<Rightarrow> p0 = ''projects'' \<and> p2 = ''apps'' \<and> p1 \<noteq> [] \<and> p3 \<noteq> []
      | _ \<Rightarrow> False)"

definition appIDFromResource :: "string \<Rightarrow> string" where
  "appIDFromResource resource =
     (case split_on CHR ''/'' resource of [p0, p1, p2, p3] \<Rightarrow> p3 | _ \<Rightarrow> [])"

definition readServiceAccountJSON :: "env \<Rightarrow> string + string" where
  "readServiceAccountJSON env =
     (let base64Value = trim_space (env_get env ''GOOGLE_SERVICE_ACCOUNT_JSON_BASE64'');
          raw = env_get env ''GOOGLE_SERVICE_ACCOUNT_JSON''
      in if base64Value \<noteq> [] then
           (case b64_decode base64Value of
              None \<Rightarrow> Inl ''GOOGLE_SERVICE_ACCOUNT_JSON_BASE64 is invalid base64''
            | Some decoded \<Rightarrow>
                if decoded = [] then Inl ''GOOGLE_SERVICE_ACCOUNT_JSON_BASE64 is empty'' else Inr decoded)
         else if trim_space raw = []
         then Inl ''GOOGLE_SERVICE_ACCOUNT_JSON or GOOGLE_SERVICE_ACCOUNT_JSON_BASE64 is required''
         else Inr raw)"

section \<open>loadFromMap\<close>

text \<open>\<open>Load\<close> splits the environment at the first equals sign; a later entry replaces an earlier one.\<close>

definition environ_map :: "string list \<Rightarrow> env" where
  "environ_map kvs =
     fold (\<lambda>kv m. case cut CHR ''='' kv of None \<Rightarrow> m | Some (k, v) \<Rightarrow> m(k \<mapsto> v)) kvs Map.empty"

definition minAppCheckTokenTTL :: duration where "minAppCheckTokenTTL = 30 * minute"
definition maxAppCheckTokenTTL :: duration where "maxAppCheckTokenTTL = 7 * 24 * hour"

definition initial_audit :: "env \<Rightarrow> AuditConfig" where
  "initial_audit env =
     \<lparr>au_Enabled = True,
      au_StorageType = to_lower (trim_space (getOrDefault env ''AUDIT_STORAGE_TYPE'' ''sqlite'')),
      au_DSN = trim_space (env_get env ''AUDIT_DSN''),
      au_SQLitePath = trim_space (getOrDefault env ''AUDIT_SQLITE_PATH'' ''/var/lib/turnstile-appcheck-gateway/audit.db''),
      au_DBMaxOpenConns = 0, au_DBMaxIdleConns = 0, au_DBConnMaxLifetime = 0, au_DBConnMaxIdleTime = 0,
      au_AsyncEnabled = True, au_ChannelSize = 50000, au_BatchSize = 1000,
      au_FlushInterval = 100 * millisecond, au_ShutdownFlushTimeout = 5 * second,
      au_DropOnFull = True, au_EnqueueTimeout = 5 * millisecond,
      au_CriticalEnqueueTimeout = 50 * millisecond, au_RetryMaxAttempts = 3,
      au_RetryInitialBackoff = 100 * millisecond, au_RetryMaxBackoff = 2 * second,
      au_PublicMode = ''failure_step'',
      au_VerifySuccessSample = Fin 0, au_VerifyFailureSample = Fin 1,
      au_ExchangeSuccessSample = Fin 1, au_ExchangeFailureSample = Fin 1,
      au_RetentionDays = 90, au_PruneInterval = 24 * hour\<rparr>"

definition initial_admin :: "env \<Rightarrow> AdminConfig" where
  "initial_admin env =
     \<lparr>ad_Dashboard =
        \<lparr>da_Enabled = True,
         da_BasePath = normalizeSubpath (getOrDefault env ''ADMIN_BASE_PATH'' ''/admin''),
         da_TimestampFormat = trim_space (getOrDefault env ''ADMIN_AUDIT_TIMESTAMP_FORMAT'' ''2006-01-02 15:04:05 MST''),
         da_TimestampTimezone = trim_space (getOrDefault env ''ADMIN_AUDIT_TIMESTAMP_TIMEZONE'' ''Asia/Tokyo'')\<rparr>,
      ad_Auth =
        \<lparr>aa_Mode = to_lower (trim_space (getOrDefault env ''ADMIN_AUTH_MODE'' ''header'')),
         aa_UserHeader = trim_space (getOrDefault env ''ADMIN_AUTH_USER_HEADER'' ''X-Forwarded-User''),
         aa_EmailHeader = trim_space (getOrDefault env ''ADMIN_AUTH_EMAIL_HEADER'' ''X-Forwarded-Email''),
         aa_GroupsHeader = trim_space (getOrDefault env ''ADMIN_AUTH_GROUPS_HEADER'' ''X-Forwarded-Groups''),
         aa_AllowedUsers = parseCSV (env_get env ''ADMIN_ALLOWED_USERS''),
         aa_AllowedGroups = parseCSV (getOrDefault env ''ADMIN_ALLOWED_GROUPS'' ''gateway-admins'')\<rparr>\<rparr>"

definition initial_config :: "env \<Rightarrow> Config" where
  "initial_config env =
     \<lparr>cf_AppCheckSubpath = normalizeSubpath (getOrDefault env ''APPCHECK_SUBPATH'' defaultSubpath),
      cf_HTTPAddr = trim_space (getOrDefault env ''HTTP_ADDR'' '':8080''),
      cf_TurnstileSecretKey = [],
      cf_TurnstileSiteVerifyURL = trim_space (getOrDefault env ''TURNSTILE_SITEVERIFY_URL''
         ''https://challenges.cloudflare.com/turnstile/v0/siteverify''),
      cf_FirebaseProjectID = [], cf_FirebaseAppID = [], cf_FirebaseAppResource = [],
      cf_ServiceAccountJSON = [],
      cf_LogLevel = to_lower (trim_space (getOrDefault env ''LOG_LEVEL'' ''info'')),
      cf_RequestTimeout = 10 * second, cf_AppCheckTokenTTL = 30 * minute,
      cf_AllowedExchangeOrigins = [], cf_TrustProxyHeaders = False,
      cf_VerifyHeaderName = trim_space (getOrDefault env ''VERIFY_HEADER_NAME'' ''X-Firebase-AppCheck''),
      cf_VerifySuccessStatus = 204, cf_VerifyFailureStatus = 401,
      cf_HealthPath = normalizeHealthPath (getOrDefault env ''HEALTH_PATH'' ''/healthz''),
      cf_ReadyPath = normalizeHealthPath (getOrDefault env ''READY_PATH'' ''/readyz''),
      cf_E2E =
        \<lparr>e2_UpstreamMode = to_lower (trim_space (env_get env ''E2E_UPSTREAM_MODE'')),
         e2_TurnstilePassToken = trim_space (getOrDefault env ''E2E_TURNSTILE_PASS_TOKEN'' ''e2e-turnstile-pass''),
         e2_TurnstileFailToken = trim_space (getOrDefault env ''E2E_TURNSTILE_FAIL_TOKEN'' ''e2e-turnstile-fail''),
         e2_AppCheckToken = trim_space (getOrDefault env ''E2E_APPCHECK_TOKEN'' ''e2e-appcheck-valid-token''),
         e2_AppCheckAppID = trim_space (getOrDefault env ''E2E_APPCHECK_APP_ID'' ''e2e-app-id'')\<rparr>,
      cf_Admin = initial_admin env,
      cf_Audit = initial_audit env,
      cf_RateLimit = \<lparr>rl_Enabled = True, rl_RequestsPerWindow = 120, rl_Window = minute\<rparr>\<rparr>"

definition IsMockUpstreamMode :: "Config \<Rightarrow> bool" where
  "IsMockUpstreamMode c \<longleftrightarrow> e2_UpstreamMode (cf_E2E c) = ''mock''"

text \<open>The forms of the steps: a check, and an optional variable with its parser.\<close>

type_synonym config_step = "Config \<Rightarrow> config_error + Config"

definition refuse_if :: "(Config \<Rightarrow> bool) \<Rightarrow> string \<Rightarrow> config_step" where
  "refuse_if P msg c = (if P c then Inl (BadSetting msg) else Inr c)"

definition trimmed :: "env \<Rightarrow> string \<Rightarrow> string" where
  "trimmed env name = trim_space (env_get env name)"

definition optional ::
    "env \<Rightarrow> string \<Rightarrow> (string \<Rightarrow> string \<Rightarrow> config_error + 'a) \<Rightarrow> ('a \<Rightarrow> Config \<Rightarrow> Config) \<Rightarrow> config_step" where
  "optional env name parse upd c =
     (let raw = trimmed env name
      in if raw = [] then Inr c
         else case parse name raw of Inl e \<Rightarrow> Inl e | Inr v \<Rightarrow> Inr (upd v c))"

text \<open>The parsers written out in \<open>loadFromMap\<close> itself.\<close>

definition read_bool :: "string \<Rightarrow> string \<Rightarrow> config_error + bool" where
  "read_bool name raw = (case parse_bool raw of None \<Rightarrow> Inl (InvalidSetting name raw) | Some b \<Rightarrow> Inr b)"

definition read_duration :: "string \<Rightarrow> string \<Rightarrow> config_error + duration" where
  "read_duration name raw = (case parse_duration raw of None \<Rightarrow> Inl (InvalidSetting name raw) | Some d \<Rightarrow> Inr d)"

definition read_text :: "string \<Rightarrow> string \<Rightarrow> config_error + string" where
  "read_text name raw = Inr raw"

definition read_lower :: "string \<Rightarrow> string \<Rightarrow> config_error + string" where
  "read_lower name raw = Inr (to_lower raw)"

definition read_success_status :: "string \<Rightarrow> string \<Rightarrow> config_error + int" where
  "read_success_status name raw =
     (case atoi raw of
        None \<Rightarrow> Inl (InvalidSetting name raw)
      | Some v \<Rightarrow>
          if v < 100 \<or> 599 < v then Inl (InvalidSetting name raw)
          else if v < 200 \<or> 299 < v
          then Inl (BadSetting ''VERIFY_SUCCESS_STATUS must be 2xx for forwardAuth allow semantics'')
          else Inr v)"

definition read_failure_status :: "string \<Rightarrow> string \<Rightarrow> config_error + int" where
  "read_failure_status name raw =
     (case atoi raw of
        None \<Rightarrow> Inl (InvalidSetting name raw)
      | Some v \<Rightarrow>
          if v < 100 \<or> 599 < v then Inl (InvalidSetting name raw)
          else if 200 \<le> v \<and> v \<le> 299
          then Inl (BadSetting ''VERIFY_FAILURE_STATUS must be non-2xx for forwardAuth deny semantics'')
          else Inr v)"

definition read_origins :: "string \<Rightarrow> string \<Rightarrow> config_error + string list" where
  "read_origins name raw = parseAllowedOrigins raw"

definition set_audit :: "(AuditConfig \<Rightarrow> AuditConfig) \<Rightarrow> Config \<Rightarrow> Config" where
  "set_audit f c = c\<lparr>cf_Audit := f (cf_Audit c)\<rparr>"

definition set_rate :: "(RateLimitConfig \<Rightarrow> RateLimitConfig) \<Rightarrow> Config \<Rightarrow> Config" where
  "set_rate f c = c\<lparr>cf_RateLimit := f (cf_RateLimit c)\<rparr>"

definition set_auth :: "(AdminAuthConfig \<Rightarrow> AdminAuthConfig) \<Rightarrow> Config \<Rightarrow> Config" where
  "set_auth f c = c\<lparr>cf_Admin := (cf_Admin c)\<lparr>ad_Auth := f (ad_Auth (cf_Admin c))\<rparr>\<rparr>"

definition set_dashboard :: "(AdminDashboardConfig \<Rightarrow> AdminDashboardConfig) \<Rightarrow> Config \<Rightarrow> Config" where
  "set_dashboard f c = c\<lparr>cf_Admin := (cf_Admin c)\<lparr>ad_Dashboard := f (ad_Dashboard (cf_Admin c))\<rparr>\<rparr>"

text \<open>The end-to-end mode.\<close>

definition e2e_steps :: "config_step list" where
  "e2e_steps =
     [refuse_if (\<lambda>c. e2_UpstreamMode (cf_E2E c) \<noteq> [] \<and> e2_UpstreamMode (cf_E2E c) \<noteq> ''mock'')
        ''E2E_UPSTREAM_MODE must be empty or mock'',
      refuse_if (\<lambda>c. IsMockUpstreamMode c \<and> e2_TurnstilePassToken (cf_E2E c) = [])
        ''E2E_TURNSTILE_PASS_TOKEN is required when E2E_UPSTREAM_MODE=mock'',
      refuse_if (\<lambda>c. IsMockUpstreamMode c \<and> e2_TurnstileFailToken (cf_E2E c) = [])
        ''E2E_TURNSTILE_FAIL_TOKEN is required when E2E_UPSTREAM_MODE=mock'',
      refuse_if (\<lambda>c. IsMockUpstreamMode c \<and> e2_TurnstilePassToken (cf_E2E c) = e2_TurnstileFailToken (cf_E2E c))
        ''E2E_TURNSTILE_PASS_TOKEN and E2E_TURNSTILE_FAIL_TOKEN must differ'',
      refuse_if (\<lambda>c. IsMockUpstreamMode c \<and> e2_AppCheckToken (cf_E2E c) = [])
        ''E2E_APPCHECK_TOKEN is required when E2E_UPSTREAM_MODE=mock'',
      refuse_if (\<lambda>c. IsMockUpstreamMode c \<and> e2_AppCheckAppID (cf_E2E c) = [])
        ''E2E_APPCHECK_APP_ID is required when E2E_UPSTREAM_MODE=mock'']"

text \<open>The required variables: the fields, and the names of what is missing.\<close>

definition required_config :: "env \<Rightarrow> Config \<Rightarrow> Config" where
  "required_config env c0 =
     (let project = trimmed env ''FIREBASE_PROJECT_ID''; app = trimmed env ''FIREBASE_APP_ID'';
          resource = trimmed env ''FIREBASE_APP_RESOURCE'';
          c = c0\<lparr>cf_FirebaseProjectID := project, cf_FirebaseAppID := app, cf_FirebaseAppResource := resource\<rparr>
      in if IsMockUpstreamMode c0 then c
         else c\<lparr>cf_TurnstileSecretKey := trimmed env ''TURNSTILE_SECRET_KEY'',
                cf_ServiceAccountJSON := (case readServiceAccountJSON env of Inl e \<Rightarrow> [] | Inr json \<Rightarrow> json),
                cf_FirebaseAppResource :=
                  (if resource = [] \<and> project \<noteq> [] \<and> app \<noteq> []
                   then ''projects/'' @ project @ ''/apps/'' @ app else resource)\<rparr>)"

definition missing_config :: "env \<Rightarrow> Config \<Rightarrow> string list" where
  "missing_config env c0 =
     (if IsMockUpstreamMode c0 then []
      else (if trimmed env ''TURNSTILE_SECRET_KEY'' = [] then [''TURNSTILE_SECRET_KEY''] else []) @
           (if trimmed env ''FIREBASE_PROJECT_ID'' = [] then [''FIREBASE_PROJECT_ID''] else []) @
           (if trimmed env ''FIREBASE_APP_RESOURCE'' = [] \<and> trimmed env ''FIREBASE_APP_ID'' = []
            then [''FIREBASE_APP_ID (required when FIREBASE_APP_RESOURCE is not set)''] else []) @
           (case readServiceAccountJSON env of Inl e \<Rightarrow> [e] | Inr json \<Rightarrow> []))"

definition timing_steps :: "env \<Rightarrow> config_step list" where
  "timing_steps env =
     [optional env ''REQUEST_TIMEOUT'' parsePositiveDuration (\<lambda>v c. c\<lparr>cf_RequestTimeout := v\<rparr>),
      optional env ''APPCHECK_TOKEN_TTL'' read_duration (\<lambda>v c. c\<lparr>cf_AppCheckTokenTTL := v\<rparr>),
      refuse_if (\<lambda>c. cf_AppCheckTokenTTL c < minAppCheckTokenTTL \<or> maxAppCheckTokenTTL < cf_AppCheckTokenTTL c)
        ''APPCHECK_TOKEN_TTL must be between 30m0s and 168h0m0s'',
      optional env ''TRUST_PROXY_HEADERS'' read_bool (\<lambda>v c. c\<lparr>cf_TrustProxyHeaders := v\<rparr>)]"

definition admin_steps :: "env \<Rightarrow> config_step list" where
  "admin_steps env =
     [optional env ''ADMIN_DASHBOARD_ENABLED'' read_bool (\<lambda>v. set_dashboard (da_Enabled_update (\<lambda>_. v))),
      refuse_if (\<lambda>c. da_BasePath (ad_Dashboard (cf_Admin c)) = ''/'') ''ADMIN_BASE_PATH must not be /'',
      refuse_if (\<lambda>c. aa_Mode (ad_Auth (cf_Admin c)) \<noteq> ''header'' \<and> aa_Mode (ad_Auth (cf_Admin c)) \<noteq> ''none'')
        ''ADMIN_AUTH_MODE must be header or none'',
      Inr \<circ> set_auth (aa_UserHeader_update (\<lambda>h. if h = [] then ''X-Forwarded-User'' else h)),
      Inr \<circ> set_auth (aa_EmailHeader_update (\<lambda>h. if h = [] then ''X-Forwarded-Email'' else h)),
      Inr \<circ> set_auth (aa_GroupsHeader_update (\<lambda>h. if h = [] then ''X-Forwarded-Groups'' else h))]"

definition storage_types :: "string list" where
  "storage_types = [[], ''sqlite'', ''postgres'', ''postgresql'', ''mariadb'', ''mysql'']"

definition storage_steps :: "env \<Rightarrow> config_step list" where
  "storage_steps env =
     [optional env ''AUDIT_ENABLED'' read_bool (\<lambda>v. set_audit (au_Enabled_update (\<lambda>_. v))),
      optional env ''AUDIT_STORAGE_TYPE'' read_lower (\<lambda>v. set_audit (au_StorageType_update (\<lambda>_. v))),
      refuse_if (\<lambda>c. au_StorageType (cf_Audit c) \<notin> set storage_types)
        ''AUDIT_STORAGE_TYPE must be sqlite, postgres, postgresql, mariadb, or mysql'',
      Inr \<circ> set_audit (au_StorageType_update (\<lambda>t. if t = [] then ''sqlite'' else t)),
      Inr \<circ> set_audit (au_DSN_update (\<lambda>_. trimmed env ''AUDIT_DSN'')),
      optional env ''AUDIT_SQLITE_PATH'' read_text (\<lambda>v. set_audit (au_SQLitePath_update (\<lambda>_. v))),
      optional env ''AUDIT_DB_MAX_OPEN_CONNS'' parseNonNegativeInt (\<lambda>v. set_audit (au_DBMaxOpenConns_update (\<lambda>_. v))),
      optional env ''AUDIT_DB_MAX_IDLE_CONNS'' parseNonNegativeInt (\<lambda>v. set_audit (au_DBMaxIdleConns_update (\<lambda>_. v))),
      optional env ''AUDIT_DB_CONN_MAX_LIFETIME'' parseNonNegativeDuration (\<lambda>v. set_audit (au_DBConnMaxLifetime_update (\<lambda>_. v))),
      optional env ''AUDIT_DB_CONN_MAX_IDLE_TIME'' parseNonNegativeDuration (\<lambda>v. set_audit (au_DBConnMaxIdleTime_update (\<lambda>_. v)))]"

definition queue_steps :: "env \<Rightarrow> config_step list" where
  "queue_steps env =
     [optional env ''AUDIT_ASYNC_ENABLED'' read_bool (\<lambda>v. set_audit (au_AsyncEnabled_update (\<lambda>_. v))),
      optional env ''AUDIT_CHANNEL_SIZE'' parsePositiveInt (\<lambda>v. set_audit (au_ChannelSize_update (\<lambda>_. v))),
      optional env ''AUDIT_BATCH_SIZE'' parsePositiveInt (\<lambda>v. set_audit (au_BatchSize_update (\<lambda>_. v))),
      optional env ''AUDIT_FLUSH_INTERVAL'' parsePositiveDuration (\<lambda>v. set_audit (au_FlushInterval_update (\<lambda>_. v))),
      optional env ''AUDIT_SHUTDOWN_FLUSH_TIMEOUT'' parsePositiveDuration (\<lambda>v. set_audit (au_ShutdownFlushTimeout_update (\<lambda>_. v))),
      optional env ''AUDIT_DROP_ON_FULL'' read_bool (\<lambda>v. set_audit (au_DropOnFull_update (\<lambda>_. v))),
      optional env ''AUDIT_ENQUEUE_TIMEOUT'' parsePositiveDuration (\<lambda>v. set_audit (au_EnqueueTimeout_update (\<lambda>_. v))),
      optional env ''AUDIT_CRITICAL_ENQUEUE_TIMEOUT'' parsePositiveDuration (\<lambda>v. set_audit (au_CriticalEnqueueTimeout_update (\<lambda>_. v))),
      optional env ''AUDIT_RETRY_MAX_ATTEMPTS'' parsePositiveInt (\<lambda>v. set_audit (au_RetryMaxAttempts_update (\<lambda>_. v))),
      optional env ''AUDIT_RETRY_INITIAL_BACKOFF'' parsePositiveDuration (\<lambda>v. set_audit (au_RetryInitialBackoff_update (\<lambda>_. v))),
      optional env ''AUDIT_RETRY_MAX_BACKOFF'' parsePositiveDuration (\<lambda>v. set_audit (au_RetryMaxBackoff_update (\<lambda>_. v)))]"

definition sampling_steps :: "env \<Rightarrow> config_step list" where
  "sampling_steps env =
     [optional env ''AUDIT_PUBLIC_MODE'' read_lower (\<lambda>v. set_audit (au_PublicMode_update (\<lambda>_. v))),
      refuse_if (\<lambda>c. au_PublicMode (cf_Audit c) \<notin> set [''summary'', ''step'', ''failure_step''])
        ''AUDIT_PUBLIC_MODE must be summary, step, or failure_step'',
      optional env ''AUDIT_VERIFY_SUCCESS_SAMPLE_RATE'' parseSampleRate (\<lambda>v. set_audit (au_VerifySuccessSample_update (\<lambda>_. v))),
      optional env ''AUDIT_VERIFY_FAILURE_SAMPLE_RATE'' parseSampleRate (\<lambda>v. set_audit (au_VerifyFailureSample_update (\<lambda>_. v))),
      optional env ''AUDIT_EXCHANGE_SUCCESS_SAMPLE_RATE'' parseSampleRate (\<lambda>v. set_audit (au_ExchangeSuccessSample_update (\<lambda>_. v))),
      optional env ''AUDIT_EXCHANGE_FAILURE_SAMPLE_RATE'' parseSampleRate (\<lambda>v. set_audit (au_ExchangeFailureSample_update (\<lambda>_. v))),
      optional env ''AUDIT_RETENTION_DAYS'' parseNonNegativeInt (\<lambda>v. set_audit (au_RetentionDays_update (\<lambda>_. v))),
      optional env ''AUDIT_PRUNE_INTERVAL'' parseNonNegativeDuration (\<lambda>v. set_audit (au_PruneInterval_update (\<lambda>_. v)))]"

definition public_steps :: "env \<Rightarrow> config_step list" where
  "public_steps env =
     [optional env ''RATE_LIMIT_ENABLED'' read_bool (\<lambda>v. set_rate (rl_Enabled_update (\<lambda>_. v))),
      optional env ''RATE_LIMIT_REQUESTS'' parsePositiveInt (\<lambda>v. set_rate (rl_RequestsPerWindow_update (\<lambda>_. v))),
      optional env ''RATE_LIMIT_WINDOW'' parsePositiveDuration (\<lambda>v. set_rate (rl_Window_update (\<lambda>_. v))),
      optional env ''VERIFY_SUCCESS_STATUS'' read_success_status (\<lambda>v c. c\<lparr>cf_VerifySuccessStatus := v\<rparr>),
      optional env ''VERIFY_FAILURE_STATUS'' read_failure_status (\<lambda>v c. c\<lparr>cf_VerifyFailureStatus := v\<rparr>),
      optional env ''ALLOWED_EXCHANGE_ORIGINS'' read_origins (\<lambda>v c. c\<lparr>cf_AllowedExchangeOrigins := v\<rparr>),
      (\<lambda>c. Inr (c\<lparr>cf_HTTPAddr := (if cf_HTTPAddr c = [] then '':8080'' else cf_HTTPAddr c)\<rparr>)),
      (\<lambda>c. Inr (c\<lparr>cf_VerifyHeaderName := (if cf_VerifyHeaderName c = [] then ''X-Firebase-AppCheck'' else cf_VerifyHeaderName c)\<rparr>))]"

text \<open>The last checks.\<close>

definition final_checks :: "string list \<Rightarrow> config_step" where
  "final_checks missing c =
     (if missing \<noteq> [] then Inl (MissingConfig missing)
      else if IsMockUpstreamMode c then Inr c
      else if \<not> isValidAppResource (cf_FirebaseAppResource c)
      then Inl (InvalidSetting ''FIREBASE_APP_RESOURCE'' (cf_FirebaseAppResource c))
      else Inr (c\<lparr>cf_FirebaseAppID :=
                    (if cf_FirebaseAppID c = [] then appIDFromResource (cf_FirebaseAppResource c) else cf_FirebaseAppID c)\<rparr>))"

definition optional_steps :: "env \<Rightarrow> config_step list" where
  "optional_steps env =
     timing_steps env @ admin_steps env @ storage_steps env @ queue_steps env @ sampling_steps env @ public_steps env"

definition loadFromMap :: "env \<Rightarrow> config_error + Config" where
  "loadFromMap env =
     rbind (run_steps e2e_steps (initial_config env)) (\<lambda>c0.
     rbind (run_steps (optional_steps env) (required_config env c0))
       (final_checks (missing_config env c0)))"

definition Load :: "string list \<Rightarrow> config_error + Config" where
  "Load environ = loadFromMap (environ_map environ)"

section \<open>The origin allow-list\<close>

definition IsExchangeOriginAllowed :: "Config \<Rightarrow> string \<Rightarrow> bool" where
  "IsExchangeOriginAllowed c origin0 =
     (if cf_AllowedExchangeOrigins c = [] then True
      else let origin = trim_space origin0
           in if origin = [] then False
              else case normalizeOrigin origin of
                Inl e \<Rightarrow> False
              | Inr normalized \<Rightarrow> normalized \<in> set (cf_AllowedExchangeOrigins c))"

section \<open>What the steps keep and establish\<close>

definition keeps :: "(Config \<Rightarrow> bool) \<Rightarrow> config_step \<Rightarrow> bool" where
  "keeps Q f \<longleftrightarrow> (\<forall>c c'. Q c \<longrightarrow> f c = Inr c' \<longrightarrow> Q c')"

lemma keeps_optional [valid_intros]:
  "(\<And>v c. p n (trimmed env n) = Inr v \<Longrightarrow> Q c \<Longrightarrow> Q (u v c)) \<Longrightarrow> keeps Q (optional env n p u)"
  by (auto simp: keeps_def optional_def Let_def split: if_splits sum.splits)

lemma keeps_refuse_if [valid_intros]: "keeps Q (refuse_if P m)"
  by (auto simp: keeps_def refuse_if_def split: if_splits)

lemma keeps_pure [valid_intros]: "(\<And>c. Q c \<Longrightarrow> Q (g c)) \<Longrightarrow> keeps Q (Inr \<circ> g)"
  by (auto simp: keeps_def)

lemma keeps_lambda [valid_intros]: "(\<And>c. Q c \<Longrightarrow> Q (g c)) \<Longrightarrow> keeps Q (\<lambda>c. Inr (g c))"
  by (auto simp: keeps_def)

lemma run_keeps: "list_all (keeps Q) fs \<Longrightarrow> Q c \<Longrightarrow> run_steps fs c = Inr c' \<Longrightarrow> Q c'"
  by (rule run_steps_invariant [of fs Q c c']) (auto simp: list_all_iff keeps_def)

lemma optional_Inr:
  "optional env n p u c = Inr c' \<longleftrightarrow>
     (trimmed env n = [] \<and> c' = c) \<or>
     (trimmed env n \<noteq> [] \<and> (\<exists>v. p n (trimmed env n) = Inr v \<and> c' = u v c))"
  by (auto simp: optional_def Let_def split: sum.splits)

lemma refuse_if_Inr: "refuse_if P m c = Inr c' \<longleftrightarrow> \<not> P c \<and> c' = c"
  by (auto simp: refuse_if_def)

lemmas step_lists = timing_steps_def admin_steps_def storage_steps_def queue_steps_def
  sampling_steps_def public_steps_def optional_steps_def

lemmas set_defs = set_audit_def set_rate_def set_auth_def set_dashboard_def

text \<open>The ranges of what the parsers return.\<close>

definition sample_ok :: "float64 \<Rightarrow> bool" where
  "sample_ok r \<longleftrightarrow> \<not> flt r (Fin 0) \<and> \<not> flt (Fin 1) r"

lemma parser_ranges:
  "parsePositiveInt n r = Inr v \<Longrightarrow> 0 < v \<and> is_int64 v"
  "parseNonNegativeInt n r = Inr v \<Longrightarrow> 0 \<le> v \<and> is_int64 v"
  "parsePositiveDuration n r = Inr v \<Longrightarrow> 0 < v \<and> is_int64 v"
  "parseNonNegativeDuration n r = Inr v \<Longrightarrow> 0 \<le> v \<and> is_int64 v"
  "parseSampleRate n r = Inr s \<Longrightarrow> sample_ok s"
  "read_success_status n r = Inr v \<Longrightarrow> 200 \<le> v \<and> v \<le> 299"
  "read_failure_status n r = Inr v \<Longrightarrow> 100 \<le> v \<and> v \<le> 599 \<and> \<not> (200 \<le> v \<and> v \<le> 299)"
  by (auto simp: parsePositiveInt_def parseNonNegativeInt_def parsePositiveDuration_def
      parseNonNegativeDuration_def parseSampleRate_def sample_ok_def read_success_status_def
      read_failure_status_def dest: atoi_range parse_duration_range split: option.splits if_splits)

section \<open>Well-formed configurations\<close>

definition audit_ranges :: "AuditConfig \<Rightarrow> bool" where
  "audit_ranges a \<longleftrightarrow>
     0 \<le> au_DBMaxOpenConns a \<and> 0 \<le> au_DBMaxIdleConns a \<and>
     0 \<le> au_DBConnMaxLifetime a \<and> 0 \<le> au_DBConnMaxIdleTime a \<and>
     0 < au_ChannelSize a \<and> 0 < au_BatchSize a \<and> 0 < au_FlushInterval a \<and>
     0 < au_ShutdownFlushTimeout a \<and> 0 < au_EnqueueTimeout a \<and> 0 < au_CriticalEnqueueTimeout a \<and>
     0 < au_RetryMaxAttempts a \<and> 0 < au_RetryInitialBackoff a \<and> 0 < au_RetryMaxBackoff a \<and>
     sample_ok (au_VerifySuccessSample a) \<and> sample_ok (au_VerifyFailureSample a) \<and>
     sample_ok (au_ExchangeSuccessSample a) \<and> sample_ok (au_ExchangeFailureSample a) \<and>
     0 \<le> au_RetentionDays a \<and> 0 \<le> au_PruneInterval a"

definition rate_ok :: "RateLimitConfig \<Rightarrow> bool" where
  "rate_ok r \<longleftrightarrow> 0 < rl_RequestsPerWindow r \<and> 0 < rl_Window r \<and> is_int64 (rl_Window r)"

definition status_ok :: "Config \<Rightarrow> bool" where
  "status_ok c \<longleftrightarrow>
     200 \<le> cf_VerifySuccessStatus c \<and> cf_VerifySuccessStatus c \<le> 299 \<and>
     100 \<le> cf_VerifyFailureStatus c \<and> cf_VerifyFailureStatus c \<le> 599 \<and>
     \<not> (200 \<le> cf_VerifyFailureStatus c \<and> cf_VerifyFailureStatus c \<le> 299)"

definition paths_ok :: "Config \<Rightarrow> bool" where
  "paths_ok c \<longleftrightarrow> clean_path (cf_AppCheckSubpath c) \<and> clean_path (cf_HealthPath c) \<and> clean_path (cf_ReadyPath c) \<and>
     clean_path (da_BasePath (ad_Dashboard (cf_Admin c)))"

definition timing_ok :: "Config \<Rightarrow> bool" where
  "timing_ok c \<longleftrightarrow> 0 < cf_RequestTimeout c \<and>
     minAppCheckTokenTTL \<le> cf_AppCheckTokenTTL c \<and> cf_AppCheckTokenTTL c \<le> maxAppCheckTokenTTL"

definition admin_ok :: "AdminConfig \<Rightarrow> bool" where
  "admin_ok a \<longleftrightarrow> da_BasePath (ad_Dashboard a) \<noteq> ''/'' \<and> aa_Mode (ad_Auth a) \<in> {''header'', ''none''} \<and>
     aa_UserHeader (ad_Auth a) \<noteq> [] \<and> aa_EmailHeader (ad_Auth a) \<noteq> [] \<and> aa_GroupsHeader (ad_Auth a) \<noteq> []"

definition storage_ok :: "AuditConfig \<Rightarrow> bool" where
  "storage_ok a \<longleftrightarrow> au_StorageType a \<in> set (tl storage_types)"

definition mode_ok :: "AuditConfig \<Rightarrow> bool" where
  "mode_ok a \<longleftrightarrow> au_PublicMode a \<in> {''summary'', ''step'', ''failure_step''}"

definition names_ok :: "Config \<Rightarrow> bool" where
  "names_ok c \<longleftrightarrow> cf_HTTPAddr c \<noteq> [] \<and> cf_VerifyHeaderName c \<noteq> []"

definition upstream_ok :: "Config \<Rightarrow> bool" where
  "upstream_ok c \<longleftrightarrow>
     (if IsMockUpstreamMode c
      then e2_TurnstilePassToken (cf_E2E c) \<noteq> [] \<and> e2_TurnstileFailToken (cf_E2E c) \<noteq> [] \<and>
           e2_TurnstilePassToken (cf_E2E c) \<noteq> e2_TurnstileFailToken (cf_E2E c) \<and>
           e2_AppCheckToken (cf_E2E c) \<noteq> [] \<and> e2_AppCheckAppID (cf_E2E c) \<noteq> []
      else e2_UpstreamMode (cf_E2E c) = [] \<and> cf_TurnstileSecretKey c \<noteq> [] \<and> cf_FirebaseProjectID c \<noteq> [] \<and>
           cf_FirebaseAppID c \<noteq> [] \<and> isValidAppResource (cf_FirebaseAppResource c) \<and> cf_ServiceAccountJSON c \<noteq> [])"

definition config_ok :: "Config \<Rightarrow> bool" where
  "config_ok c \<longleftrightarrow> upstream_ok c \<and> timing_ok c \<and> admin_ok (cf_Admin c) \<and> paths_ok c \<and>
     storage_ok (cf_Audit c) \<and> audit_ranges (cf_Audit c) \<and> mode_ok (cf_Audit c) \<and>
     rate_ok (cf_RateLimit c) \<and> status_ok c \<and> names_ok c"

text \<open>What holds of the initial configuration and is kept by every step.\<close>

definition ranges_ok :: "Config \<Rightarrow> bool" where
  "ranges_ok c \<longleftrightarrow> paths_ok c \<and> audit_ranges (cf_Audit c) \<and> rate_ok (cf_RateLimit c) \<and> status_ok c \<and>
     0 < cf_RequestTimeout c"

lemma normalizeSubpath_clean: "clean_path (normalizeSubpath s)"
proof -
  define c where "c = (let c0 = trim_space s; c1 = (if c0 = [] then defaultSubpath else c0)
    in if \<not> has_prefix c1 ''/'' then CHR ''/'' # c1 else c1)"
  have p: "has_prefix c ''/''" by (simp add: c_def Let_def has_prefix_def)
  then have cl: "clean_path (path_clean c)" by (rule path_clean_rooted)
  then have nd: "path_clean c \<noteq> ''.''" by (auto dest: clean_path_prefix simp: has_prefix_def)
  have "trim_suffix (path_clean c) ''/'' = path_clean c" if "path_clean c \<noteq> ''/''"
    using clean_path_last [OF cl that]
    by (auto simp: trim_suffix_def has_suffix_iff)
  then have "normalizeSubpath s = path_clean c"
    using nd by (simp add: normalizeSubpath_def c_def Let_def)
  with cl show ?thesis by simp
qed

lemma normalizeHealthPath_clean: "clean_path (normalizeHealthPath s)"
proof (cases "trim_space s = []")
  case True
  then have "normalizeHealthPath s = CHR ''/'' # join ''/'' []" by (simp add: normalizeHealthPath_def)
  then show ?thesis unfolding clean_path_def by (metis list.pred_inject(1))
next
  case False
  then show ?thesis by (simp add: normalizeHealthPath_def Let_def path_clean_rooted has_prefix_def)
qed

lemma initial_ranges: "ranges_ok (initial_config env)"
  by (simp add: ranges_ok_def paths_ok_def audit_ranges_def rate_ok_def status_ok_def initial_config_def
      initial_audit_def initial_admin_def normalizeSubpath_clean normalizeHealthPath_clean sample_ok_def
      duration_units is_int64_def min_int64_def max_int64_def)

lemma required_frame:
  "cf_E2E (required_config env c) = cf_E2E c" "cf_Admin (required_config env c) = cf_Admin c"
  "cf_Audit (required_config env c) = cf_Audit c" "cf_RateLimit (required_config env c) = cf_RateLimit c"
  "ranges_ok (required_config env c) = ranges_ok c" "IsMockUpstreamMode (required_config env c) = IsMockUpstreamMode c"
  "cf_AllowedExchangeOrigins (required_config env c) = cf_AllowedExchangeOrigins c"
  by (simp_all add: required_config_def Let_def ranges_ok_def paths_ok_def status_ok_def IsMockUpstreamMode_def)

lemma optional_keeps_ranges: "list_all (keeps ranges_ok) (optional_steps env)"
  unfolding step_lists
  by (simp only: append.simps list.pred_inject)
    (intro conjI TrueI valid_intros;
      simp add: set_defs ranges_ok_def paths_ok_def audit_ranges_def rate_ok_def status_ok_def parser_ranges
        del: o_apply)

lemma timing_establishes: "run_steps (timing_steps env) c = Inr c' \<Longrightarrow> 0 < cf_RequestTimeout c \<Longrightarrow> timing_ok c'"
  by (auto simp: timing_steps_def rbind_Inr_iff optional_Inr refuse_if_Inr timing_ok_def parser_ranges)

lemma admin_establishes: "run_steps (admin_steps env) c = Inr c' \<Longrightarrow> admin_ok (cf_Admin c')"
  by (auto simp: admin_steps_def rbind_Inr_iff optional_Inr refuse_if_Inr admin_ok_def set_defs split: if_splits)

lemma run_steps_split:
  assumes "run_steps fs c = Inr c'"
  obtains c1 where "run_steps (take n fs) c = Inr c1" "run_steps (drop n fs) c1 = Inr c'"
proof -
  have "rbind (run_steps (take n fs) c) (run_steps (drop n fs)) = Inr c'"
    using assms run_steps_append [of "take n fs" "drop n fs" c] by simp
  with that show thesis by (elim rbind_InrE)
qed

lemma storage_establishes: "run_steps (storage_steps env) c = Inr c' \<Longrightarrow> storage_ok (cf_Audit c')"
proof -
  assume a: "run_steps (storage_steps env) c = Inr c'"
  let ?k = "list_all (keeps (\<lambda>c. storage_ok (cf_Audit c)))"
  obtain c1 where c1: "run_steps (take 4 (storage_steps env)) c = Inr c1"
      "run_steps (drop 4 (storage_steps env)) c1 = Inr c'"
    using run_steps_split [OF a] .
  have "storage_ok (cf_Audit c1)"
    using c1(1)
    by (auto simp: storage_steps_def rbind_Inr_iff refuse_if_Inr storage_ok_def storage_types_def set_defs)
  moreover have "?k (drop 4 (storage_steps env))"
    by (simp add: storage_steps_def del: o_apply)
      (intro conjI valid_intros; simp add: set_defs storage_ok_def)
  ultimately show ?thesis using run_keeps [of "\<lambda>c. storage_ok (cf_Audit c)"] c1(2) by blast
qed

lemma mode_establishes: "run_steps (sampling_steps env) c = Inr c' \<Longrightarrow> mode_ok (cf_Audit c')"
proof -
  assume a: "run_steps (sampling_steps env) c = Inr c'"
  obtain c1 where c1: "run_steps (take 2 (sampling_steps env)) c = Inr c1"
      "run_steps (drop 2 (sampling_steps env)) c1 = Inr c'"
    using run_steps_split [OF a] .
  have "mode_ok (cf_Audit c1)"
    using c1(1) by (auto simp: sampling_steps_def rbind_Inr_iff refuse_if_Inr mode_ok_def)
  moreover have "list_all (keeps (\<lambda>c. mode_ok (cf_Audit c))) (drop 2 (sampling_steps env))"
    by (simp add: sampling_steps_def del: o_apply)
      (intro conjI valid_intros; simp add: set_defs mode_ok_def)
  ultimately show ?thesis using run_keeps [of "\<lambda>c. mode_ok (cf_Audit c)"] c1(2) by blast
qed

lemma names_establishes: "run_steps (public_steps env) c = Inr c' \<Longrightarrow> names_ok c'"
proof -
  assume a: "run_steps (public_steps env) c = Inr c'"
  obtain c1 where "run_steps (drop 6 (public_steps env)) c1 = Inr c'"
    using run_steps_split [OF a] .
  then show ?thesis by (auto simp: public_steps_def names_ok_def split: if_splits)
qed

text \<open>The later groups leave what the earlier ones established.\<close>

lemma groups_keep:
  "list_all (keeps timing_ok) (admin_steps env @ storage_steps env @ queue_steps env @ sampling_steps env @ public_steps env)"
  "list_all (keeps (\<lambda>c. admin_ok (cf_Admin c))) (storage_steps env @ queue_steps env @ sampling_steps env @ public_steps env)"
  "list_all (keeps (\<lambda>c. storage_ok (cf_Audit c))) (queue_steps env @ sampling_steps env @ public_steps env)"
  "list_all (keeps (\<lambda>c. mode_ok (cf_Audit c))) (public_steps env)"
  unfolding step_lists
  by (simp_all only: append.simps list.pred_inject)
    (intro conjI TrueI valid_intros;
      simp add: set_defs timing_ok_def storage_ok_def mode_ok_def del: o_apply)+

text \<open>The upstream fields are set before the optional variables and not touched by them.\<close>

definition upstream_view where
  "upstream_view c = (cf_E2E c, cf_TurnstileSecretKey c, cf_FirebaseProjectID c, cf_FirebaseAppID c,
     cf_FirebaseAppResource c, cf_ServiceAccountJSON c)"

lemma optional_keeps_upstream: "list_all (keeps (\<lambda>c. upstream_view c = v)) (optional_steps env)"
  unfolding step_lists
  by (simp only: append.simps list.pred_inject)
    (intro conjI TrueI valid_intros; simp add: set_defs upstream_view_def del: o_apply)

lemma optional_establish:
  assumes "run_steps (optional_steps env) c = Inr c'" and "0 < cf_RequestTimeout c"
  shows "timing_ok c' \<and> admin_ok (cf_Admin c') \<and> storage_ok (cf_Audit c') \<and> mode_ok (cf_Audit c') \<and> names_ok c'"
proof -
  note ra = run_steps_append rbind_Inr_iff
  from assms(1) obtain c1 c2 c3 c4 c5 where
    r1: "run_steps (timing_steps env) c = Inr c1"
      "run_steps (admin_steps env @ storage_steps env @ queue_steps env @ sampling_steps env @ public_steps env) c1 = Inr c'"
    and r2: "run_steps (admin_steps env) c1 = Inr c2"
      "run_steps (storage_steps env @ queue_steps env @ sampling_steps env @ public_steps env) c2 = Inr c'"
    and r3: "run_steps (storage_steps env) c2 = Inr c3"
      "run_steps (queue_steps env @ sampling_steps env @ public_steps env) c3 = Inr c'"
    and r4: "run_steps (queue_steps env) c3 = Inr c4" "run_steps (sampling_steps env) c4 = Inr c5"
      "run_steps (public_steps env) c5 = Inr c'"
    unfolding optional_steps_def by (auto simp: ra)
  show ?thesis
  proof (intro conjI)
    show "timing_ok c'" by (rule run_keeps [OF groups_keep(1) _ r1(2)]) (rule timing_establishes [OF r1(1) assms(2)])
    show "admin_ok (cf_Admin c')" by (rule run_keeps [OF groups_keep(2) _ r2(2)]) (rule admin_establishes [OF r2(1)])
    show "storage_ok (cf_Audit c')" by (rule run_keeps [OF groups_keep(3) _ r3(2)]) (rule storage_establishes [OF r3(1)])
    show "mode_ok (cf_Audit c')" by (rule run_keeps [OF groups_keep(4) _ r4(3)]) (rule mode_establishes [OF r4(2)])
    show "names_ok c'" by (rule names_establishes [OF r4(3)])
  qed
qed

lemma e2e_Inr:
  "run_steps e2e_steps c = Inr c' \<longleftrightarrow> c' = c \<and>
     (e2_UpstreamMode (cf_E2E c) = [] \<or> e2_UpstreamMode (cf_E2E c) = ''mock'') \<and>
     (IsMockUpstreamMode c \<longrightarrow>
        e2_TurnstilePassToken (cf_E2E c) \<noteq> [] \<and> e2_TurnstileFailToken (cf_E2E c) \<noteq> [] \<and>
        e2_TurnstilePassToken (cf_E2E c) \<noteq> e2_TurnstileFailToken (cf_E2E c) \<and>
        e2_AppCheckToken (cf_E2E c) \<noteq> [] \<and> e2_AppCheckAppID (cf_E2E c) \<noteq> [])"
  by (auto simp: e2e_steps_def rbind_Inr_iff refuse_if_Inr)

lemma readServiceAccountJSON_nonempty: "readServiceAccountJSON env = Inr j \<Longrightarrow> j \<noteq> []"
  by (auto simp: readServiceAccountJSON_def Let_def split: if_splits option.splits)

lemma missing_config_Nil:
  "missing_config env c = [] \<Longrightarrow> \<not> IsMockUpstreamMode c \<Longrightarrow>
     trimmed env ''TURNSTILE_SECRET_KEY'' \<noteq> [] \<and> trimmed env ''FIREBASE_PROJECT_ID'' \<noteq> [] \<and>
     (\<exists>j. readServiceAccountJSON env = Inr j)"
  by (auto simp: missing_config_def split: if_splits sum.splits)

lemma appID_nonempty: "isValidAppResource r \<Longrightarrow> appIDFromResource r \<noteq> []"
  by (auto simp: isValidAppResource_def appIDFromResource_def split: list.splits)

text \<open>The shape of a successful load.\<close>

lemma load_cases:
  assumes "loadFromMap env = Inr c"
  obtains c1 where "run_steps e2e_steps (initial_config env) = Inr (initial_config env)"
    "run_steps (optional_steps env) (required_config env (initial_config env)) = Inr c1"
    "final_checks (missing_config env (initial_config env)) c1 = Inr c"
  using assms by (auto simp: loadFromMap_def rbind_Inr_iff e2e_Inr)

lemma upstream_established:
  assumes e: "run_steps e2e_steps c0 = Inr c0"
    and r: "run_steps (optional_steps env) (required_config env c0) = Inr c1"
    and f: "final_checks (missing_config env c0) c1 = Inr c"
  shows "upstream_ok c"
proof -
  have v: "upstream_view c1 = upstream_view (required_config env c0)"
    using run_keeps [OF optional_keeps_upstream [of "upstream_view (required_config env c0)" env] refl r] .
  then have mock: "IsMockUpstreamMode c1 = IsMockUpstreamMode c0"
    by (simp add: upstream_view_def IsMockUpstreamMode_def required_frame)
  show ?thesis
  proof (cases "IsMockUpstreamMode c0")
    case True
    with f mock have "c = c1" by (auto simp: final_checks_def split: if_splits)
    with True mock v e show ?thesis
      by (simp add: upstream_ok_def e2e_Inr upstream_view_def required_frame)
  next
    case False
    with f mock have m: "missing_config env c0 = []" and val: "isValidAppResource (cf_FirebaseAppResource c1)"
      and c: "c = c1\<lparr>cf_FirebaseAppID :=
                    (if cf_FirebaseAppID c1 = [] then appIDFromResource (cf_FirebaseAppResource c1) else cf_FirebaseAppID c1)\<rparr>"
      by (auto simp: final_checks_def split: if_splits)
    from missing_config_Nil [OF m False] obtain j where
      mc: "trimmed env ''TURNSTILE_SECRET_KEY'' \<noteq> []" "trimmed env ''FIREBASE_PROJECT_ID'' \<noteq> []"
        "readServiceAccountJSON env = Inr j" by blast
    have nm: "\<not> IsMockUpstreamMode c" using False mock by (simp add: c IsMockUpstreamMode_def)
    have "e2_UpstreamMode (cf_E2E c0) = []" using e False by (simp add: e2e_Inr IsMockUpstreamMode_def)
    moreover have "cf_ServiceAccountJSON c1 = j" "cf_TurnstileSecretKey c1 = trimmed env ''TURNSTILE_SECRET_KEY''"
        "cf_FirebaseProjectID c1 = trimmed env ''FIREBASE_PROJECT_ID''" "cf_E2E c1 = cf_E2E c0"
      using v mc False by (simp_all add: upstream_view_def required_config_def Let_def)
    ultimately show ?thesis
      using nm mc val readServiceAccountJSON_nonempty [OF mc(3)] appID_nonempty [OF val]
      by (simp add: upstream_ok_def c)
  qed
qed

section \<open>Properties\<close>

lemma loaded_config_ok:
  assumes "loadFromMap env = Inr c"
  shows "config_ok c"
proof -
  obtain c1 where e: "run_steps e2e_steps (initial_config env) = Inr (initial_config env)"
    and r: "run_steps (optional_steps env) (required_config env (initial_config env)) = Inr c1"
    and f: "final_checks (missing_config env (initial_config env)) c1 = Inr c"
    using load_cases [OF assms] .
  have ranges: "ranges_ok c1"
    by (rule run_keeps [OF optional_keeps_ranges _ r]) (simp add: required_frame initial_ranges)
  have "0 < cf_RequestTimeout (required_config env (initial_config env))"
    using initial_ranges [of env] required_frame(5) [of env "initial_config env"] by (simp add: ranges_ok_def)
  from optional_establish [OF r this]
  have est: "timing_ok c1 \<and> admin_ok (cf_Admin c1) \<and> storage_ok (cf_Audit c1) \<and> mode_ok (cf_Audit c1) \<and> names_ok c1" .
  obtain app where c: "c = c1\<lparr>cf_FirebaseAppID := app\<rparr>"
    using f by (cases c1) (auto simp: final_checks_def split: if_splits)
  show ?thesis
    using upstream_established [OF e r f] ranges est
    by (simp add: config_ok_def c ranges_ok_def paths_ok_def status_ok_def timing_ok_def names_ok_def)
qed

text \<open>
  C15. Every configuration that \<open>loadFromMap\<close> returns is well formed: the mock mode has distinct
  non-empty tokens, the real mode a secret, a project, a service account and a valid app resource;
  the paths are rooted and clean and the administration path is not the root; durations, sizes,
  statuses and modes are in their ranges; storage type and authentication mode are known ones.
\<close>

theorem load_config_ok:
  assumes "loadFromMap env = Inr c"
  shows "config_ok c"
  using assms by (rule loaded_config_ok)

text \<open>A production environment with the required variables and some optional ones.\<close>

definition demo_env :: env where
  "demo_env = map_of
     [(''TURNSTILE_SECRET_KEY'', ''secret''), (''FIREBASE_PROJECT_ID'', ''demo''),
      (''FIREBASE_APP_ID'', ''1:2:web:3''), (''GOOGLE_SERVICE_ACCOUNT_JSON'', ''{}''),
      (''RATE_LIMIT_REQUESTS'', ''5''),
      (''ALLOWED_EXCHANGE_ORIGINS'', ''https://Example.com, https://b.test:8443'')]"

lemma demo_load: "\<not> isl (loadFromMap demo_env)"
  by code_simp

theorem load_config_ok_witness: "config_ok (projr (loadFromMap demo_env))"
  using load_config_ok [of demo_env "projr (loadFromMap demo_env)"] demo_load
  by (cases "loadFromMap demo_env") simp_all

text \<open>The variables with a syntax of their own, by the form their values must have.\<close>

datatype setting_kind = KBool | KPositiveInt | KNonNegativeInt | KPositiveDuration | KNonNegativeDuration | KSample

definition settings :: "(string \<times> setting_kind) list" where
  "settings =
     [(''TRUST_PROXY_HEADERS'', KBool), (''ADMIN_DASHBOARD_ENABLED'', KBool), (''AUDIT_ENABLED'', KBool),
      (''AUDIT_ASYNC_ENABLED'', KBool), (''AUDIT_DROP_ON_FULL'', KBool), (''RATE_LIMIT_ENABLED'', KBool),
      (''AUDIT_CHANNEL_SIZE'', KPositiveInt), (''AUDIT_BATCH_SIZE'', KPositiveInt),
      (''AUDIT_RETRY_MAX_ATTEMPTS'', KPositiveInt), (''RATE_LIMIT_REQUESTS'', KPositiveInt),
      (''AUDIT_DB_MAX_OPEN_CONNS'', KNonNegativeInt), (''AUDIT_DB_MAX_IDLE_CONNS'', KNonNegativeInt),
      (''AUDIT_RETENTION_DAYS'', KNonNegativeInt),
      (''REQUEST_TIMEOUT'', KPositiveDuration), (''RATE_LIMIT_WINDOW'', KPositiveDuration),
      (''AUDIT_FLUSH_INTERVAL'', KPositiveDuration), (''AUDIT_SHUTDOWN_FLUSH_TIMEOUT'', KPositiveDuration),
      (''AUDIT_ENQUEUE_TIMEOUT'', KPositiveDuration), (''AUDIT_CRITICAL_ENQUEUE_TIMEOUT'', KPositiveDuration),
      (''AUDIT_RETRY_INITIAL_BACKOFF'', KPositiveDuration), (''AUDIT_RETRY_MAX_BACKOFF'', KPositiveDuration),
      (''AUDIT_DB_CONN_MAX_LIFETIME'', KNonNegativeDuration), (''AUDIT_DB_CONN_MAX_IDLE_TIME'', KNonNegativeDuration),
      (''AUDIT_PRUNE_INTERVAL'', KNonNegativeDuration),
      (''AUDIT_VERIFY_SUCCESS_SAMPLE_RATE'', KSample), (''AUDIT_VERIFY_FAILURE_SAMPLE_RATE'', KSample),
      (''AUDIT_EXCHANGE_SUCCESS_SAMPLE_RATE'', KSample), (''AUDIT_EXCHANGE_FAILURE_SAMPLE_RATE'', KSample)]"

fun acceptable :: "setting_kind \<Rightarrow> string \<Rightarrow> bool" where
  "acceptable KBool raw = (parse_bool raw \<noteq> None)"
| "acceptable KPositiveInt raw = (case atoi raw of Some v \<Rightarrow> 0 < v | None \<Rightarrow> False)"
| "acceptable KNonNegativeInt raw = (case atoi raw of Some v \<Rightarrow> 0 \<le> v | None \<Rightarrow> False)"
| "acceptable KPositiveDuration raw = (case parse_duration raw of Some v \<Rightarrow> 0 < v | None \<Rightarrow> False)"
| "acceptable KNonNegativeDuration raw = (case parse_duration raw of Some v \<Rightarrow> 0 \<le> v | None \<Rightarrow> False)"
| "acceptable KSample raw = (case parse_float raw of Some v \<Rightarrow> sample_ok v | None \<Rightarrow> False)"

text \<open>A run of steps succeeds only when each of its steps did.\<close>

definition succeeds :: "config_step \<Rightarrow> bool" where
  "succeeds f \<longleftrightarrow> (\<exists>t t'. f t = Inr t')"

lemma run_steps_succeed: "run_steps fs c = Inr c' \<Longrightarrow> list_all succeeds fs"
proof (induction fs arbitrary: c)
  case (Cons f fs)
  from Cons.prems obtain t where t: "f c = Inr t" "run_steps fs t = Inr c'"
    by (simp add: rbind_Inr_iff) blast
  have "succeeds f" unfolding succeeds_def using t(1) by blast
  with Cons.IH [OF t(2)] show ?case by simp
qed simp

lemma succeeds_optional: "succeeds (optional env n p u) \<longleftrightarrow> trimmed env n = [] \<or> (\<exists>v. p n (trimmed env n) = Inr v)"
  by (auto simp: succeeds_def optional_Inr)

lemma parser_acceptable:
  "(\<exists>v. read_bool n r = Inr v) \<longleftrightarrow> acceptable KBool r"
  "(\<exists>v. parsePositiveInt n r = Inr v) \<longleftrightarrow> acceptable KPositiveInt r"
  "(\<exists>v. parseNonNegativeInt n r = Inr v) \<longleftrightarrow> acceptable KNonNegativeInt r"
  "(\<exists>v. parsePositiveDuration n r = Inr v) \<longleftrightarrow> acceptable KPositiveDuration r"
  "(\<exists>v. parseNonNegativeDuration n r = Inr v) \<longleftrightarrow> acceptable KNonNegativeDuration r"
  "(\<exists>v. parseSampleRate n r = Inr v) \<longleftrightarrow> acceptable KSample r"
  by (auto simp: read_bool_def parsePositiveInt_def parseNonNegativeInt_def parsePositiveDuration_def
      parseNonNegativeDuration_def parseSampleRate_def sample_ok_def not_le split: option.splits)

lemma settings_checked:
  assumes "list_all succeeds (optional_steps env)"
  shows "list_all (\<lambda>(n, k). trimmed env n = [] \<or> acceptable k (trimmed env n)) settings"
  using assms unfolding step_lists settings_def
  by (simp only: append.simps list.pred_inject succeeds_optional parser_acceptable prod.case simp_thms)

text \<open>
  C35. No malformed variable is ignored: if one of the boolean, integer, duration or sample-rate
  variables is set and its trimmed value does not have the form its kind requires, loading fails.
\<close>

theorem malformed_setting_refused:
  assumes "(name, kind) \<in> set settings" and "trimmed env name \<noteq> []" and "\<not> acceptable kind (trimmed env name)"
  shows "\<exists>e. loadFromMap env = Inl e"
proof (cases "loadFromMap env")
  case (Inr c)
  obtain c1 where "run_steps (optional_steps env) (required_config env (initial_config env)) = Inr c1"
    using load_cases [OF Inr] .
  from settings_checked [OF run_steps_succeed [OF this]] assms show ?thesis
    by (auto simp: list_all_iff)
qed simp

theorem malformed_setting_refused_witness:
  "\<exists>e. loadFromMap (demo_env(''RATE_LIMIT_REQUESTS'' \<mapsto> ''0'')) = Inl e"
proof (rule malformed_setting_refused [of "''RATE_LIMIT_REQUESTS''" KPositiveInt])
  show "(''RATE_LIMIT_REQUESTS'', KPositiveInt) \<in> set settings" by code_simp
  show "trimmed (demo_env(''RATE_LIMIT_REQUESTS'' \<mapsto> ''0'')) ''RATE_LIMIT_REQUESTS'' \<noteq> []" by code_simp
  show "\<not> acceptable KPositiveInt (trimmed (demo_env(''RATE_LIMIT_REQUESTS'' \<mapsto> ''0'')) ''RATE_LIMIT_REQUESTS'')" by code_simp
qed

section \<open>The allowed origins\<close>

definition origin_entries :: "env \<Rightarrow> string list" where
  "origin_entries env =
     filter (\<lambda>v. v \<noteq> []) (map trim_space (split_on CHR '','' (trimmed env ''ALLOWED_EXCHANGE_ORIGINS'')))"

lemma normalizeOrigin_trim [simp]: "normalizeOrigin (trim_space s) = normalizeOrigin s"
  by (simp add: normalizeOrigin_def)

lemma normalizeOrigin_blank: "trim_space s = [] \<Longrightarrow> \<not> (\<exists>n. normalizeOrigin s = Inr n)"
proof -
  assume "trim_space s = []"
  moreover have "url_parse [] = Some \<lparr>u_Scheme = [], u_Opaque = [], u_User = False, u_Host = [], u_Path = [], u_RawQuery = [], u_Fragment = []\<rparr>"
    by code_simp
  ultimately show ?thesis by (simp add: normalizeOrigin_def)
qed

lemma origins_loop_set:
  "origins_loop parts os = Inr res \<Longrightarrow>
     set res = set os \<union> {n. \<exists>p \<in> set parts. trim_space p \<noteq> [] \<and> normalizeOrigin p = Inr n}"
proof (induction parts os rule: origins_loop.induct)
  case (2 part parts os)
  show ?case
  proof (cases "trim_space part = []")
    case True
    with 2 show ?thesis by auto
  next
    case False
    with 2(3) obtain n where n: "normalizeOrigin part = Inr n"
        "origins_loop parts (if n \<in> set os then os else os @ [n]) = Inr res"
      by (auto simp: Let_def split: sum.splits)
    with 2(2) [OF refl False, of n] False show ?thesis by auto
  qed
qed simp

lemma load_origins:
  assumes "loadFromMap env = Inr c"
  shows "(trimmed env ''ALLOWED_EXCHANGE_ORIGINS'' = [] \<and> cf_AllowedExchangeOrigins c = []) \<or>
    parseAllowedOrigins (trimmed env ''ALLOWED_EXCHANGE_ORIGINS'') = Inr (cf_AllowedExchangeOrigins c)"
proof -
  obtain c1 where r: "run_steps (optional_steps env) (required_config env (initial_config env)) = Inr c1"
    and f: "final_checks (missing_config env (initial_config env)) c1 = Inr c"
    using load_cases [OF assms] .
  obtain c2 where r1: "run_steps (take 44 (optional_steps env)) (required_config env (initial_config env)) = Inr c2"
    and r2: "run_steps (drop 44 (optional_steps env)) c2 = Inr c1"
    using run_steps_split [OF r] .
  have "list_all (keeps (\<lambda>c. cf_AllowedExchangeOrigins c = [])) (take 44 (optional_steps env))"
    unfolding step_lists
    by (simp del: o_apply) (intro conjI valid_intros; simp add: set_defs del: o_apply)
  from run_keeps [OF this _ r1] have c2: "cf_AllowedExchangeOrigins c2 = []"
    by (simp add: required_frame initial_config_def)
  have "cf_AllowedExchangeOrigins c = cf_AllowedExchangeOrigins c1"
    using f by (auto simp: final_checks_def split: if_splits)
  with r2 c2 show ?thesis
    unfolding step_lists
    by (auto simp: rbind_Inr_iff optional_Inr read_origins_def)
qed

text \<open>
  C36. The allow-list of the exchange endpoint: a loaded configuration admits an origin exactly
  when \<open>ALLOWED_EXCHANGE_ORIGINS\<close> has no entry at all, or the origin is a well-formed HTTP origin
  and has the same normal form as one of the entries.  A variable that holds only separators has
  no entry and so admits every origin.
\<close>

theorem origin_allowed_iff:
  assumes "loadFromMap env = Inr c"
  shows "IsExchangeOriginAllowed c origin \<longleftrightarrow>
    origin_entries env = [] \<or>
    (\<exists>v \<in> set (origin_entries env). \<exists>n. normalizeOrigin v = Inr n \<and> normalizeOrigin origin = Inr n)"
proof -
  let ?raw = "trimmed env ''ALLOWED_EXCHANGE_ORIGINS''"
  have entries: "set (origin_entries env) = {v. v \<noteq> [] \<and> (\<exists>p \<in> set (split_on CHR '','' ?raw). v = trim_space p)}"
    by (auto simp: origin_entries_def)
  have bex: "(\<exists>v \<in> set (origin_entries env). P v) \<longleftrightarrow>
      (\<exists>p \<in> set (split_on CHR '','' ?raw). trim_space p \<noteq> [] \<and> P (trim_space p))" for P
    by (auto simp: origin_entries_def)
  have allowed: "set (cf_AllowedExchangeOrigins c) = {n. \<exists>v \<in> set (origin_entries env). normalizeOrigin v = Inr n}"
    using load_origins [OF assms]
  proof
    assume a: "?raw = [] \<and> cf_AllowedExchangeOrigins c = []"
    then show ?thesis by (simp add: origin_entries_def)
  next
    assume "parseAllowedOrigins ?raw = Inr (cf_AllowedExchangeOrigins c)"
    then show ?thesis
      unfolding parseAllowedOrigins_def bex by (drule_tac origins_loop_set) simp
  qed
  have some: "\<exists>n. normalizeOrigin v = Inr n" if "v \<in> set (origin_entries env)" for v
    using load_origins [OF assms]
  proof
    assume "?raw = [] \<and> cf_AllowedExchangeOrigins c = []"
    then show ?thesis using that by (simp add: origin_entries_def)
  next
    assume p: "parseAllowedOrigins ?raw = Inr (cf_AllowedExchangeOrigins c)"
    have "\<exists>n. normalizeOrigin q = Inr n"
      if "origins_loop parts os = Inr res" "q \<in> set parts" "trim_space q \<noteq> []" for parts os res q
      using that
      by (induction parts os arbitrary: res rule: origins_loop.induct) (auto simp: Let_def split: if_splits sum.splits)
    with p that entries show ?thesis unfolding parseAllowedOrigins_def by auto
  qed
  have none: "cf_AllowedExchangeOrigins c = [] \<longleftrightarrow> origin_entries env = []"
  proof
    assume "cf_AllowedExchangeOrigins c = []"
    with allowed some show "origin_entries env = []" by (cases "origin_entries env") auto
  next
    assume "origin_entries env = []"
    with allowed show "cf_AllowedExchangeOrigins c = []" by simp
  qed
  show ?thesis
  proof (cases "normalizeOrigin origin")
    case (Inl e)
    then show ?thesis by (simp add: IsExchangeOriginAllowed_def none)
  next
    case (Inr n)
    then have "trim_space origin \<noteq> []" using normalizeOrigin_blank by blast
    with Inr show ?thesis using allowed by (simp add: IsExchangeOriginAllowed_def none)
  qed
qed

theorem origin_allowed_iff_witness:
  "IsExchangeOriginAllowed (projr (loadFromMap demo_env)) ''HTTPS://B.test:8443/'' \<and>
   \<not> IsExchangeOriginAllowed (projr (loadFromMap demo_env)) ''https://evil.test''"
proof -
  have l: "loadFromMap demo_env = Inr (projr (loadFromMap demo_env))"
    using demo_load by (cases "loadFromMap demo_env") simp_all
  have e: "origin_entries demo_env = [''https://Example.com'', ''https://b.test:8443'']" by code_simp
  have n: "normalizeOrigin ''https://Example.com'' = Inr ''https://example.com''"
    "normalizeOrigin ''https://b.test:8443'' = Inr ''https://b.test:8443''"
    "normalizeOrigin ''HTTPS://B.test:8443/'' = Inr ''https://b.test:8443''"
    "normalizeOrigin ''https://evil.test'' = Inr ''https://evil.test''" by code_simp+
  show ?thesis
    unfolding origin_allowed_iff [OF l] e by (simp add: n)
qed

text \<open>The range check of \<open>parseSampleRate\<close> lets NaN pass: both comparisons with it are false.\<close>

lemma sample_rate_nan: "parseSampleRate name ''NaN'' = Inr NaN"
proof -
  have "parse_float ''NaN'' = Some NaN" by code_simp
  then show ?thesis by (simp add: parseSampleRate_def)
qed

end
