(* ===== verification/Middleware.thy ===== *)
theory Middleware
  imports Handlers RateLimit Config
begin

text \<open>
  The middleware of the public routes (\<open>internal/middleware\<close>) and the exchange and verify routes
  that \<open>internal/httpserver/server.go\<close> builds from it.  A middleware takes the rest of the chain
  as its argument \<open>next\<close>; it either runs it (\<open>c.Next()\<close>) or aborts.  The state is the shared
  limiter with the context of the request.  A panic is a value, so that \<open>Recovery\<close> can catch it.
\<close>

section \<open>Aborting and panicking\<close>

definition abort_json :: "int \<Rightarrow> response_body \<Rightarrow> gin_context \<Rightarrow> gin_context" where
  "abort_json status b c = (write_json status b c)\<lparr>cx_Aborted := True\<rparr>"

definition abort_status :: "int \<Rightarrow> gin_context \<Rightarrow> gin_context" where
  "abort_status status c = c\<lparr>cx_Status := status, cx_Aborted := True\<rparr>"

datatype 's outcome = Returned 's | Panicked 's

definition Recovery :: "('s \<Rightarrow> gin_context outcome) \<Rightarrow> 's \<Rightarrow> gin_context" where
  "Recovery next s =
     (case next s of
        Returned c \<Rightarrow> c
      | Panicked c \<Rightarrow> abort_json 500 (ErrorResponse ''INTERNAL_ERROR'' ''Unexpected server error'') c)"

type_synonym server = "fixedWindowLimiter \<times> gin_context"

section \<open>Rate limiting\<close>

definition recordRateLimit :: "bool \<Rightarrow> gin_context \<Rightarrow> gin_context" where
  "recordRateLimit has_recorder c =
     recordAudit has_recorder
       (zero_event\<lparr>ev_Actor := ''public'', ev_ActorSource := ''public'', ev_Action := ''rate_limit.denied'',
          ev_Method := rq_Method (cx_Request c), ev_Path := rq_Path (cx_Request c),
          ev_Endpoint := rq_FullPath (cx_Request c), ev_StatusCode := 429, ev_Result := ResultDenied,
          ev_RemoteAddr := rq_ClientIP (cx_Request c), ev_UserAgent := GetHeader c ''User-Agent'',
          ev_RequestID := firstHeader c [''X-Request-ID'', ''X-Correlation-ID'', ''X-Amzn-Trace-Id''],
          ev_ErrorCode := ''rate_limit_exceeded'', ev_Message := ''Public endpoint rate limit exceeded''\<rparr>) c"

definition rate_limit_key :: "gin_context \<Rightarrow> string" where
  "rate_limit_key c = rq_ClientIP (cx_Request c) @ ''|'' @ rq_FullPath (cx_Request c)"

definition rate_limiter :: "RateLimitConfig \<Rightarrow> bool \<Rightarrow> (server \<Rightarrow> server) \<Rightarrow> server \<Rightarrow> server" where
  "rate_limiter cfg has_recorder next s =
     (let (l, c) = s in
      if \<not> rl_Enabled cfg \<or> rl_RequestsPerWindow cfg \<le> 0 then next (l, c)
      else let (now, c1) = read_clock c;
               (ok, l1) = allow now (rate_limit_key c) (rl_RequestsPerWindow cfg) l
           in if \<not> ok then (l1, abort_json 429 (GinError ''rate limit exceeded'') (recordRateLimit has_recorder c1))
              else next (l1, c1))"

section \<open>Cross-origin requests\<close>

definition addVaryHeader :: "string \<Rightarrow> headers \<Rightarrow> headers" where
  "addVaryHeader v h =
     (if list_ex (\<lambda>existing. list_ex (\<lambda>part. equal_fold (trim_space part) v) (split_on CHR '','' existing))
           (header_values h ''Vary'')
      then h else header_add ''Vary'' v h)"

definition ExchangeCORS :: "(string \<Rightarrow> bool) option \<Rightarrow> (server \<Rightarrow> server) \<Rightarrow> server \<Rightarrow> server" where
  "ExchangeCORS originAllowed next s =
     (let (l, c) = s;
          origin = trim_space (GetHeader c ''Origin'');
          options = (rq_Method (cx_Request c) = ''OPTIONS'')
      in if origin = [] then next (l, c)
         else if (case originAllowed of None \<Rightarrow> False | Some allowed \<Rightarrow> \<not> allowed origin)
         then (if options then (l, abort_status 403 c) else next (l, c))
         else
           let h1 = addVaryHeader ''Origin'' (cx_Header c);
               h2 = header_set ''Access-Control-Allow-Origin'' origin h1;
               h3 = header_set ''Access-Control-Allow-Methods'' ''POST, OPTIONS'' h2;
               requested = trim_space (GetHeader c ''Access-Control-Request-Headers'');
               h4 = (if requested = [] then h3 else addVaryHeader ''Access-Control-Request-Headers'' h3);
               h5 = header_set ''Access-Control-Allow-Headers'' (if requested = [] then ''Content-Type'' else requested) h4;
               requestMethod = trim_space (GetHeader c ''Access-Control-Request-Method'')
           in if options
              then (if requestMethod \<noteq> [] \<and> \<not> equal_fold requestMethod ''POST''
                    then (l, abort_status 405 (c\<lparr>cx_Header := h5\<rparr>))
                    else (l, abort_status 204 (c\<lparr>cx_Header := addVaryHeader ''Access-Control-Request-Method'' h5\<rparr>)))
              else next (l, c\<lparr>cx_Header := h5\<rparr>))"

section \<open>The public routes\<close>

definition options_handler :: "server \<Rightarrow> server" where
  "options_handler s = (let (l, c) = s in (l, c\<lparr>cx_Status := 204\<rparr>))"

text \<open>
  The path has handlers for \<open>OPTIONS\<close> and \<open>POST\<close>; to any other method the router answers 404
  without running the group's middleware.
\<close>

definition exchange_route :: "Config \<Rightarrow> bool \<Rightarrow> ExchangeHandler \<Rightarrow> server \<Rightarrow> server" where
  "exchange_route cfg has_recorder h s =
     (if rq_Method (cx_Request (snd s)) = ''OPTIONS''
      then ExchangeCORS (Some (IsExchangeOriginAllowed cfg)) options_handler s
      else if rq_Method (cx_Request (snd s)) = ''POST''
      then ExchangeCORS (Some (IsExchangeOriginAllowed cfg))
             (rate_limiter (cf_RateLimit cfg) has_recorder (\<lambda>(l, c). (l, exchange_Handle h c))) s
      else (let (l, c) = s in (l, c\<lparr>cx_Status := 404\<rparr>)))"

definition verify_route :: "Config \<Rightarrow> bool \<Rightarrow> VerifyHandler \<Rightarrow> server \<Rightarrow> server" where
  "verify_route cfg has_recorder h =
     rate_limiter (cf_RateLimit cfg) has_recorder (\<lambda>(l, c). (l, verify_Handle h c))"

section \<open>Facts\<close>

lemma abort_simps [simp]:
  "cx_Request (abort_json s b c) = cx_Request c" "cx_Request (abort_status s c) = cx_Request c"
  "cx_Status (abort_json s b c) = s" "cx_Status (abort_status s c) = s"
  "cx_Header (abort_json s b c) = cx_Header c" "cx_Header (abort_status s c) = cx_Header c"
  "cx_Calls (abort_json s b c) = cx_Calls c" "cx_Calls (abort_status s c) = cx_Calls c"
  "cx_Audit (abort_json s b c) = cx_Audit c" "cx_Audit (abort_status s c) = cx_Audit c"
  "cx_Aborted (abort_json s b c)" "cx_Aborted (abort_status s c)"
  by (simp_all add: abort_json_def abort_status_def)

lemma recordRateLimit_simps [simp]:
  "cx_Request (recordRateLimit b c) = cx_Request c" "cx_Calls (recordRateLimit b c) = cx_Calls c"
  "cx_Header (recordRateLimit b c) = cx_Header c"
  by (simp_all add: recordRateLimit_def)

lemma exchange_Handle_header [simp]: "cx_Header (exchange_Handle h c) = cx_Header c"
  by (simp add: exchange_Handle_eq exchange_body_def exchange_upstream_def record_step_eq Let_def
      split: option.split sum.split)

text \<open>The limiter either answers 429 itself or runs the rest of the chain on an untouched request.\<close>

lemma rate_limiter_cases:
  obtains (denied) l' where "rate_limiter cfg b nxt (l, c) =
      (l', abort_json 429 (GinError ''rate limit exceeded'') (recordRateLimit b (c\<lparr>cx_Ticks := Suc (cx_Ticks c)\<rparr>)))"
  | (admitted) l' n where "rate_limiter cfg b nxt (l, c) = nxt (l', c\<lparr>cx_Ticks := n\<rparr>)"
proof (cases "\<not> rl_Enabled cfg \<or> rl_RequestsPerWindow cfg \<le> 0")
  case True
  then show ?thesis using admitted [of l "cx_Ticks c"] by (simp add: rate_limiter_def)
next
  case False
  obtain ok l1 where a: "allow (cx_Clock c (cx_Ticks c)) (rate_limit_key c) (rl_RequestsPerWindow cfg) l = (ok, l1)"
    by fastforce
  show ?thesis
  proof (cases ok)
    case True
    then show ?thesis using admitted [of l1] False a by (simp add: rate_limiter_def)
  next
    case nok: False
    then show ?thesis using denied [of l1] False a by (simp add: rate_limiter_def)
  qed
qed

text \<open>The handler refuses a request whose origin is not allowed, without asking anybody.\<close>

lemma exchange_Handle_refused:
  assumes "eh_OriginAllowed h = Some allowed" and "\<not> allowed (GetHeader c ''Origin'')"
  shows "cx_Calls (exchange_Handle h c) = cx_Calls c \<and> cx_Status (exchange_Handle h c) \<in> {403, 415}"
  using assms by (simp add: exchange_Handle_eq exchange_body_def Let_def GetHeader_def)

lemma addVaryHeader_values:
  "canonical_key k \<noteq> ''Vary'' \<Longrightarrow> header_values (addVaryHeader v h) k = header_values h k"
proof -
  assume "canonical_key k \<noteq> ''Vary''"
  moreover have "canonical_key ''Vary'' = ''Vary''" by code_simp
  ultimately show ?thesis by (simp add: addVaryHeader_def header_values_add)
qed

lemma cors_keys:
  "canonical_key ''Access-Control-Allow-Origin'' = ''Access-Control-Allow-Origin''"
  "canonical_key ''Access-Control-Allow-Methods'' = ''Access-Control-Allow-Methods''"
  "canonical_key ''Access-Control-Allow-Headers'' = ''Access-Control-Allow-Headers''"
  by code_simp+

lemma IsExchangeOriginAllowed_trim [simp]:
  "IsExchangeOriginAllowed cfg (trim_space origin) = IsExchangeOriginAllowed cfg origin"
  by (simp add: IsExchangeOriginAllowed_def)

text \<open>The cross-origin headers on a context, as the middleware adds them.\<close>

definition cors_headers :: "gin_context \<Rightarrow> string \<Rightarrow> headers" where
  "cors_headers c origin =
     (let h3 = header_set ''Access-Control-Allow-Methods'' ''POST, OPTIONS''
                 (header_set ''Access-Control-Allow-Origin'' origin (addVaryHeader ''Origin'' (cx_Header c)));
          requested = trim_space (GetHeader c ''Access-Control-Request-Headers'')
      in header_set ''Access-Control-Allow-Headers'' (if requested = [] then ''Content-Type'' else requested)
           (if requested = [] then h3 else addVaryHeader ''Access-Control-Request-Headers'' h3))"

lemma cors_headers_origin:
  "header_values (cors_headers c origin) ''Access-Control-Allow-Origin'' = [origin]"
  "header_values (addVaryHeader v (cors_headers c origin)) ''Access-Control-Allow-Origin'' = [origin]"
  by (simp_all add: cors_headers_def Let_def header_values_set addVaryHeader_values cors_keys)

lemma ExchangeCORS_cases:
  fixes nxt l c
  defines "origin \<equiv> trim_space (GetHeader c ''Origin'')"
    and "options \<equiv> rq_Method (cx_Request c) = ''OPTIONS''"
  obtains (plain) "origin = []" "ExchangeCORS (Some allowed) nxt (l, c) = nxt (l, c)"
  | (preflight_refused) "origin \<noteq> []" "\<not> allowed origin" "options"
      "ExchangeCORS (Some allowed) nxt (l, c) = (l, abort_status 403 c)"
  | (refused) "origin \<noteq> []" "\<not> allowed origin" "\<not> options" "ExchangeCORS (Some allowed) nxt (l, c) = nxt (l, c)"
  | (preflight) v st where "origin \<noteq> []" "allowed origin" "options"
      "ExchangeCORS (Some allowed) nxt (l, c) =
         (l, abort_status st (c\<lparr>cx_Header := (if v then addVaryHeader ''Access-Control-Request-Method'' else id) (cors_headers c origin)\<rparr>))"
  | (granted) "origin \<noteq> []" "allowed origin" "\<not> options"
      "ExchangeCORS (Some allowed) nxt (l, c) = nxt (l, c\<lparr>cx_Header := cors_headers c origin\<rparr>)"
proof -
  note d = ExchangeCORS_def Let_def origin_def options_def
  let ?bad = "trim_space (GetHeader c ''Access-Control-Request-Method'') \<noteq> [] \<and>
    \<not> equal_fold (trim_space (GetHeader c ''Access-Control-Request-Method'')) ''POST''"
  have ok: "ExchangeCORS (Some allowed) nxt (l, c) =
      (if options
       then if ?bad then (l, abort_status 405 (c\<lparr>cx_Header := cors_headers c origin\<rparr>))
            else (l, abort_status 204 (c\<lparr>cx_Header := addVaryHeader ''Access-Control-Request-Method'' (cors_headers c origin)\<rparr>))
       else nxt (l, c\<lparr>cx_Header := cors_headers c origin\<rparr>))" if "origin \<noteq> []" "allowed origin"
    using that by (simp add: d cors_headers_def)
  consider "origin = []" | "origin \<noteq> []" "\<not> allowed origin" "options" | "origin \<noteq> []" "\<not> allowed origin" "\<not> options"
    | "origin \<noteq> []" "allowed origin" "options" | "origin \<noteq> []" "allowed origin" "\<not> options" by blast
  then show ?thesis
  proof cases
    case 1 show ?thesis by (rule plain) (use 1 in \<open>simp_all add: d\<close>)
  next
    case 2 show ?thesis by (rule preflight_refused) (use 2 in \<open>simp_all add: d\<close>)
  next
    case 3 show ?thesis by (rule refused) (use 3 in \<open>simp_all add: d\<close>)
  next
    case 4
    note e = ok [OF 4(1,2), unfolded if_P [OF 4(3)]]
    show ?thesis
    proof (cases "?bad")
      case True
      note e' = e [unfolded if_P [OF True]]
      show ?thesis by (rule preflight [of 405 False, OF 4]) (simp add: e')
    next
      case False
      note e' = e [unfolded if_not_P [OF False]]
      show ?thesis by (rule preflight [of 204 True, OF 4]) (simp add: e')
    qed
  next
    case 5 show ?thesis by (rule granted [OF 5]) (use ok [OF 5(1,2)] 5(3) in simp)
  qed
qed

text \<open>The rest of the chain leaves the headers alone, and refuses what is not allowed.\<close>

lemma options_handler_header: "cx_Header (snd (options_handler (l, c))) = cx_Header c"
  by (simp add: options_handler_def)

lemma exchange_chain:
  fixes rl b h l c
  defines "r \<equiv> snd (rate_limiter rl b (\<lambda>(l, c). (l, exchange_Handle h c)) (l, c))"
  shows "cx_Header r = cx_Header c"
    and "eh_OriginAllowed h = Some allowed \<Longrightarrow> \<not> allowed (GetHeader c ''Origin'') \<Longrightarrow>
      cx_Calls r = cx_Calls c \<and> cx_Status r \<in> {403, 415, 429}"
proof -
  let ?next = "\<lambda>(l, c). (l, exchange_Handle h c)"
  show "cx_Header r = cx_Header c"
    by (cases rule: rate_limiter_cases [where cfg = rl and b = b and nxt = ?next and l = l and c = c])
      (simp_all add: r_def)
  assume a: "eh_OriginAllowed h = Some allowed" "\<not> allowed (GetHeader c ''Origin'')"
  show "cx_Calls r = cx_Calls c \<and> cx_Status r \<in> {403, 415, 429}"
  proof (cases rule: rate_limiter_cases [where cfg = rl and b = b and nxt = ?next and l = l and c = c])
    case (denied l1)
    then show ?thesis by (simp add: r_def)
  next
    case (admitted l1 n)
    have "\<not> allowed (GetHeader (c\<lparr>cx_Ticks := n\<rparr>) ''Origin'')" using a(2) by (simp add: GetHeader_def)
    from exchange_Handle_refused [OF a(1) this] admitted show ?thesis by (auto simp: r_def)
  qed
qed

section \<open>Properties\<close>

text \<open>The origins that the response to a request grants cross-origin access.\<close>

definition granted_origins :: "gin_context \<Rightarrow> string list" where
  "granted_origins c = header_values (cx_Header c) ''Access-Control-Allow-Origin''"

text \<open>What the two registered chains of the exchange path answer, behind \<open>ExchangeCORS\<close>.\<close>

lemma cors_chain_answer:
  fixes cfg b h c
  defines "chain \<equiv> if rq_Method (cx_Request c) = ''OPTIONS'' then options_handler
    else rate_limiter (cf_RateLimit cfg) b (\<lambda>(l, c). (l, exchange_Handle h c))"
  assumes "cx_Header c = []" and "eh_OriginAllowed h = Some (IsExchangeOriginAllowed cfg)"
    and r: "(l', c') = ExchangeCORS (Some (IsExchangeOriginAllowed cfg)) chain (l, c)"
  shows "granted_origins c' =
      (if trim_space (GetHeader c ''Origin'') \<noteq> [] \<and> IsExchangeOriginAllowed cfg (GetHeader c ''Origin'')
       then [trim_space (GetHeader c ''Origin'')] else []) \<and>
    (trim_space (GetHeader c ''Origin'') \<noteq> [] \<and> \<not> IsExchangeOriginAllowed cfg (GetHeader c ''Origin'') \<longrightarrow>
      cx_Calls c' = cx_Calls c \<and> cx_Status c' \<in> {403, 415, 429})"
proof -
  show ?thesis
  proof (cases rule: ExchangeCORS_cases [where c = c and l = l and nxt = chain and allowed = "IsExchangeOriginAllowed cfg"])
    case plain
    have "c' = snd (chain (l, c))" using arg_cong [OF trans [OF r plain(2)], of snd] unfolding snd_conv .
    then have "cx_Header c' = []" unfolding chain_def
      by (cases "rq_Method (cx_Request c) = ''OPTIONS''")
        (simp_all only: if_True if_False simp_thms options_handler_header exchange_chain(1) assms(2))
    with plain(1) show ?thesis by (simp add: granted_origins_def header_values_def)
  next
    case preflight_refused
    have "c' = abort_status 403 c" using trans [OF r preflight_refused(4)] by simp
    with preflight_refused(1,2) assms(2) show ?thesis by (simp add: granted_origins_def header_values_def)
  next
    case refused
    have "c' = snd (rate_limiter (cf_RateLimit cfg) b (\<lambda>(l, c). (l, exchange_Handle h c)) (l, c))"
      using arg_cong [OF trans [OF r refused(4)], of snd] unfolding chain_def if_not_P [OF refused(3)] snd_conv .
    with exchange_chain [where rl = "cf_RateLimit cfg" and b = b and h = h and l = l and c = c] assms(2,3) refused(1,2)
    show ?thesis by (simp add: granted_origins_def header_values_def)
  next
    case (preflight v st)
    have "c' = abort_status st (c\<lparr>cx_Header := (if v then addVaryHeader ''Access-Control-Request-Method'' else id)
        (cors_headers c (trim_space (GetHeader c ''Origin'')))\<rparr>)" using trans [OF r preflight(4)] by simp
    with preflight(1,2) show ?thesis by (simp add: granted_origins_def cors_headers_origin)
  next
    case granted
    have "c' = snd (rate_limiter (cf_RateLimit cfg) b (\<lambda>(l, c). (l, exchange_Handle h c))
        (l, c\<lparr>cx_Header := cors_headers c (trim_space (GetHeader c ''Origin''))\<rparr>))"
      using arg_cong [OF trans [OF r granted(4)], of snd] unfolding chain_def if_not_P [OF granted(3)] snd_conv .
    then have "cx_Header c' = cors_headers c (trim_space (GetHeader c ''Origin''))"
      by (simp add: exchange_chain(1))
    with granted(1,2) show ?thesis by (simp add: granted_origins_def cors_headers_origin)
  qed
qed

text \<open>
  C16. Cross-origin access to the exchange endpoint: for the registered methods \<open>OPTIONS\<close> and
  \<open>POST\<close>, the response names the (trimmed) origin of the request in \<open>Access-Control-Allow-Origin\<close>
  exactly when it is an allowed one that is not blank, whatever the limiter and the handler answer,
  and nothing otherwise; and a request from an origin that is not allowed is refused without any
  upstream call.  A request with any other method is granted nothing and answered 404, without
  any upstream call.
\<close>

theorem exchange_cors:
  assumes "cx_Header c = []" and "eh_OriginAllowed h = Some (IsExchangeOriginAllowed cfg)"
    and "exchange_route cfg b h (l, c) = (l', c')"
  shows "granted_origins c' =
      (if rq_Method (cx_Request c) \<in> {''OPTIONS'', ''POST''} \<and>
          trim_space (GetHeader c ''Origin'') \<noteq> [] \<and> IsExchangeOriginAllowed cfg (GetHeader c ''Origin'')
       then [trim_space (GetHeader c ''Origin'')] else []) \<and>
    (trim_space (GetHeader c ''Origin'') \<noteq> [] \<and> \<not> IsExchangeOriginAllowed cfg (GetHeader c ''Origin'') \<longrightarrow>
      cx_Calls c' = cx_Calls c \<and>
      cx_Status c' \<in> (if rq_Method (cx_Request c) \<in> {''OPTIONS'', ''POST''} then {403, 415, 429} else {404})) \<and>
    (rq_Method (cx_Request c) \<notin> {''OPTIONS'', ''POST''} \<longrightarrow> cx_Calls c' = cx_Calls c \<and> cx_Status c' = 404)"
proof (cases "rq_Method (cx_Request c) \<in> {''OPTIONS'', ''POST''}")
  case False
  with assms show ?thesis by (auto simp: exchange_route_def granted_origins_def header_values_def)
next
  case True
  then have "(l', c') = ExchangeCORS (Some (IsExchangeOriginAllowed cfg))
      (if rq_Method (cx_Request c) = ''OPTIONS'' then options_handler
       else rate_limiter (cf_RateLimit cfg) b (\<lambda>(l, c). (l, exchange_Handle h c))) (l, c)"
    unfolding assms(3) [symmetric] exchange_route_def snd_conv
    by (cases "rq_Method (cx_Request c) = ''OPTIONS''") (simp_all only: if_True if_False simp_thms insert_iff empty_iff)
  note answer = cors_chain_answer [OF assms(1,2) this]
  show ?thesis using conjunct1 [OF answer] conjunct2 [OF answer] True by (simp only: if_True simp_thms)
qed

definition demo_cors_config :: Config where
  "demo_cors_config = (initial_config Map.empty)\<lparr>cf_AllowedExchangeOrigins := [''https://example.com'']\<rparr>"

definition demo_cors_handler :: ExchangeHandler where
  "demo_cors_handler = \<lparr>eh_TurnstileVerifier = (\<lambda>_. Inl ''down''), eh_Exchanger = (\<lambda>_. Inl ''down''),
     eh_TrustProxyHeaders = False, eh_OriginAllowed = Some (IsExchangeOriginAllowed demo_cors_config), eh_Audit = True\<rparr>"

definition demo_cors_context :: "string \<Rightarrow> gin_context" where
  "demo_cors_context origin = new_context
     \<lparr>rq_Method = ''POST'', rq_Path = ''/appcheck/api/v1/exchange'', rq_FullPath = ''/appcheck/api/v1/exchange'',
      rq_Headers = [(''Origin'', [origin])], rq_RemoteAddr = ''192.0.2.1:1'', rq_ClientIP = ''192.0.2.1'', rq_Body = []\<rparr>
     (\<lambda>n. 1000 + int n)"

theorem exchange_cors_witness:
  "granted_origins (snd (exchange_route demo_cors_config True demo_cors_handler
      (new_limiter 60, demo_cors_context ''https://example.com''))) = [''https://example.com''] \<and>
   granted_origins (snd (exchange_route demo_cors_config True demo_cors_handler
      (new_limiter 60, demo_cors_context ''https://evil.test''))) = [] \<and>
   cx_Calls (snd (exchange_route demo_cors_config True demo_cors_handler
      (new_limiter 60, demo_cors_context ''https://evil.test''))) = []"
proof -
  have h: "cx_Header (demo_cors_context o1) = []" "cx_Calls (demo_cors_context o1) = []"
      "eh_OriginAllowed demo_cors_handler = Some (IsExchangeOriginAllowed demo_cors_config)" for o1
    by (simp_all add: demo_cors_context_def new_context_def demo_cors_handler_def)
  have v: "trim_space (GetHeader (demo_cors_context ''https://example.com'') ''Origin'') = ''https://example.com''"
    "trim_space (GetHeader (demo_cors_context ''https://evil.test'') ''Origin'') = ''https://evil.test''"
    "IsExchangeOriginAllowed demo_cors_config (GetHeader (demo_cors_context ''https://example.com'') ''Origin'')"
    "\<not> IsExchangeOriginAllowed demo_cors_config (GetHeader (demo_cors_context ''https://evil.test'') ''Origin'')"
    by code_simp+
  have m: "rq_Method (cx_Request (demo_cors_context o1)) = ''POST''" for o1
    by (simp add: demo_cors_context_def new_context_def)
  have t: "granted_origins (snd (exchange_route demo_cors_config True demo_cors_handler (new_limiter 60, demo_cors_context o1))) =
      (if rq_Method (cx_Request (demo_cors_context o1)) \<in> {''OPTIONS'', ''POST''} \<and> trim_space (GetHeader (demo_cors_context o1) ''Origin'') \<noteq> [] \<and>
          IsExchangeOriginAllowed demo_cors_config (GetHeader (demo_cors_context o1) ''Origin'')
       then [trim_space (GetHeader (demo_cors_context o1) ''Origin'')] else []) \<and>
    (trim_space (GetHeader (demo_cors_context o1) ''Origin'') \<noteq> [] \<and>
       \<not> IsExchangeOriginAllowed demo_cors_config (GetHeader (demo_cors_context o1) ''Origin'') \<longrightarrow>
      cx_Calls (snd (exchange_route demo_cors_config True demo_cors_handler (new_limiter 60, demo_cors_context o1))) =
        cx_Calls (demo_cors_context o1) \<and>
      cx_Status (snd (exchange_route demo_cors_config True demo_cors_handler (new_limiter 60, demo_cors_context o1)))
        \<in> (if rq_Method (cx_Request (demo_cors_context o1)) \<in> {''OPTIONS'', ''POST''} then {403, 415, 429} else {404})) \<and>
    (rq_Method (cx_Request (demo_cors_context o1)) \<notin> {''OPTIONS'', ''POST''} \<longrightarrow>
      cx_Calls (snd (exchange_route demo_cors_config True demo_cors_handler (new_limiter 60, demo_cors_context o1))) =
        cx_Calls (demo_cors_context o1) \<and>
      cx_Status (snd (exchange_route demo_cors_config True demo_cors_handler (new_limiter 60, demo_cors_context o1))) = 404)"
    for o1
    by (rule exchange_cors [OF h(1) h(3) prod.collapse [symmetric]])
  show ?thesis
    using t [of "''https://example.com''"] t [of "''https://evil.test''"]
    unfolding v(1,2) m by (simp only: v if_True if_False simp_thms h insert_iff) simp
qed

section \<open>A route under load\<close>

text \<open>
  Concurrent requests of a route.  Their handlers share nothing but the limiter, whose mutex orders
  their calls of \<open>allow\<close>; the list holds the requests in that order, and the limiter passes from each
  to the next.  Everything else of a request runs on its own context.
\<close>

fun serve_all :: "(server \<Rightarrow> server) \<Rightarrow> gin_context list \<Rightarrow> fixedWindowLimiter \<Rightarrow> gin_context list" where
  "serve_all route [] l = []"
| "serve_all route (c # cs) l = (let (l', c') = route (l, c) in c' # serve_all route cs l')"

text \<open>The instant of a request, as the limiter sees it.\<close>

definition request_time :: "gin_context \<Rightarrow> time" where
  "request_time c = cx_Clock c (cx_Ticks c)"

text \<open>The instants of the requests of one client and route that caused an upstream call.\<close>

definition upstream_times :: "string \<Rightarrow> gin_context list \<Rightarrow> gin_context list \<Rightarrow> time list" where
  "upstream_times k cs rs =
     map (request_time \<circ> fst) (filter (\<lambda>(c, r). rate_limit_key c = k \<and> cx_Calls r \<noteq> cx_Calls c) (zip cs rs))"

lemma upstream_le_admitted:
  fixes cfg b h a w
  defines "route \<equiv> rate_limiter cfg b (\<lambda>(l, c). (l, h c))"
  assumes "rl_Enabled cfg" and "0 < rl_RequestsPerWindow cfg"
  shows "length (filter (\<lambda>t. a \<le> t \<and> t < a + w) (upstream_times k cs (serve_all route cs l))) \<le>
    length (filter (\<lambda>t. a \<le> t \<and> t < a + w)
      (admitted_times k (map (\<lambda>c. (request_time c, rate_limit_key c)) cs)
        (fst (run_allow (rl_RequestsPerWindow cfg) (map (\<lambda>c. (request_time c, rate_limit_key c)) cs) l))))"
proof (induction cs arbitrary: l)
  case Nil
  then show ?case by (simp add: upstream_times_def)
next
  case (Cons c cs)
  obtain ok l' where a: "allow (request_time c) (rate_limit_key c) (rl_RequestsPerWindow cfg) l = (ok, l')"
    by fastforce
  have r: "route (l, c) = (l', if ok then h (c\<lparr>cx_Ticks := Suc (cx_Ticks c)\<rparr>)
      else abort_json 429 (GinError ''rate limit exceeded'') (recordRateLimit b (c\<lparr>cx_Ticks := Suc (cx_Ticks c)\<rparr>)))"
    using a assms(2,3) by (simp add: route_def rate_limiter_def request_time_def)
  show ?case
    using Cons.IH [of l']
    by (cases ok) (simp_all add: r a upstream_times_def admitted_times_def split_beta Let_def)
qed

text \<open>
  C13. The upstream services are shielded: with rate limiting on and a window of at most 2^62 - 1
  nanoseconds, take any requests of a rate-limited route in the order in which they take the
  limiter's mutex, each with the clock reading it took before that, none of them overtaken by a
  reading more than \<open>d\<close> later, for some \<open>d\<close> of at most one window.  Then in any time interval as
  long as one window at most three times the configured number of requests of one client and route
  cause an upstream call, and at most twice that number when the readings are in order (\<open>d = 0\<close>),
  whatever the handler behind the limiter does.
\<close>

theorem upstream_calls_bounded:
  assumes "rl_Enabled cfg" and "0 < rl_RequestsPerWindow cfg"
    and "0 < rl_Window cfg" and "rl_Window cfg \<le> 4611686018427387903"
    and "0 \<le> d" and "d \<le> rl_Window cfg"
    and "lag_within d (map request_time cs)" and "list_all (\<lambda>c. 0 < request_time c) cs"
  shows "int (length (filter (\<lambda>t. a \<le> t \<and> t < a + rl_Window cfg)
      (upstream_times k cs (serve_all (rate_limiter cfg b (\<lambda>(l, c). (l, h c))) cs (new_limiter (rl_Window cfg))))))
    \<le> (if d = 0 then 2 else 3) * rl_RequestsPerWindow cfg"
proof -
  let ?reqs = "map (\<lambda>c. (request_time c, rate_limit_key c)) cs"
  have "lag_within d (map fst ?reqs)" "list_all (\<lambda>r. 0 < fst r) ?reqs"
    using assms(7,8) by (simp_all add: comp_def list_all_iff)
  from burst_bound_run [OF assms(3,4,2,5,6) this, of a k]
    upstream_le_admitted [OF assms(1,2), of a "rl_Window cfg" k cs b h "new_limiter (rl_Window cfg)"]
  show ?thesis by linarith
qed

theorem upstream_calls_bounded_witness:
  "int (length (filter (\<lambda>t. 1000 \<le> t \<and> t < 1000 + 60)
      (upstream_times ''192.0.2.1|/appcheck/api/v1/exchange'' (replicate 4 (demo_cors_context ''https://example.com''))
         (serve_all (rate_limiter \<lparr>rl_Enabled = True, rl_RequestsPerWindow = 1, rl_Window = 60\<rparr> True
             (\<lambda>(l, c). (l, exchange_Handle demo_cors_handler c)))
           (replicate 4 (demo_cors_context ''https://example.com'')) (new_limiter 60))))) \<le> 2 * 1"
  using upstream_calls_bounded [of "\<lparr>rl_Enabled = True, rl_RequestsPerWindow = 1, rl_Window = 60\<rparr>" 0
      "replicate 4 (demo_cors_context ''https://example.com'')" 1000
      "''192.0.2.1|/appcheck/api/v1/exchange''" True "exchange_Handle demo_cors_handler"]
  by (simp add: lag_within_def request_time_def demo_cors_context_def new_context_def eval_nat_numeral)

end
