(* ===== verification/AuditQuery.thy ===== *)
theory AuditQuery
  imports AuditRepo GoStrconv "HOL-Library.Product_Lexorder"
begin

text \<open>
  The read side of the audit repository: \<open>List\<close> with its cursor pagination
  (\<open>internal/audit/cursor.go\<close>), \<open>Summary\<close> and \<open>Metrics\<close>, with the filters and the bucket
  arithmetic of \<open>repository.go\<close> and \<open>dialect.go\<close>.  A query asks the environment for its outcome
  like a transaction does.  The text of a cursor, URL-safe base64 of a JSON object, is represented
  by what decoding it yields.  Text columns compare byte by byte, in MySQL/MariaDB without regard
  to ASCII case (the schema's \<open>utf8mb4_unicode_ci\<close>).
\<close>

section \<open>Cursors\<close>

record Cursor =
  cu_Timestamp :: time
  cu_Seq :: int

datatype cursor_text = CtBlank | CtBadEncoding | CtBadPayload | CtPayload Cursor

text \<open>\<open>time.Time\<close> marshals to JSON in the years 0 to 9999 only.\<close>

definition json_time :: "time \<Rightarrow> bool" where
  "json_time t \<longleftrightarrow> - (366 * (24 * hour)) \<le> t \<and> t < 3652059 * (24 * hour)"

definition EncodeCursor :: "Cursor \<Rightarrow> audit_error + cursor_text" where
  "EncodeCursor cursor =
     (if is_zero (cu_Timestamp cursor) \<or> cu_Seq cursor \<le> 0 then Inl InvalidCursor
      else if \<not> json_time (cu_Timestamp cursor) then Inl MarshalMetadataError
      else Inr (CtPayload cursor))"

definition zero_cursor :: Cursor where
  "zero_cursor = \<lparr>cu_Timestamp = zero_time, cu_Seq = 0\<rparr>"

fun DecodeCursor :: "cursor_text \<Rightarrow> audit_error + Cursor" where
  "DecodeCursor CtBlank = Inr zero_cursor"
| "DecodeCursor CtBadEncoding = Inl InvalidCursorEncoding"
| "DecodeCursor CtBadPayload = Inl InvalidCursorPayload"
| "DecodeCursor (CtPayload cursor) =
     (if is_zero (cu_Timestamp cursor) \<or> cu_Seq cursor \<le> 0 then Inl InvalidCursor else Inr cursor)"

section \<open>Filters\<close>

record Filter =
  fl_From :: time
  fl_To :: time
  fl_Actor :: string
  fl_Action :: string
  fl_Endpoint :: string
  fl_Path :: string
  fl_Method :: string
  fl_Result :: string
  fl_StatusCode :: int
  fl_StatusClass :: string
  fl_RequestID :: string
  fl_Limit :: int
  fl_Cursor :: cursor_text
  fl_IncludeTotal :: bool
  fl_Offset :: int

record Page =
  pg_Items :: "event list"
  pg_Total :: int
  pg_NextCursor :: "cursor_text option"
  pg_HasNext :: bool

record Summary =
  sm_Total :: int
  sm_Successful :: int
  sm_Failed :: int
  sm_ExchangeSuccesses :: int
  sm_ExchangeFailures :: int
  sm_VerifySuccesses :: int
  sm_VerifyFailures :: int
  sm_Count4xx :: int
  sm_Count5xx :: int

record MetricsFilter =
  mf_From :: time
  mf_To :: time
  mf_Bucket :: duration
  mf_Endpoint :: string
  mf_Method :: string
  mf_Result :: string
  mf_StatusClass :: string

record MetricPoint =
  mp_Timestamp :: time
  mp_Count :: int

record Metrics =
  me_From :: time
  me_To :: time
  me_Bucket :: duration
  me_Points :: "MetricPoint list"
  me_Summary :: Summary

definition normalizeFilter :: "Filter \<Rightarrow> Filter" where
  "normalizeFilter f =
     f\<lparr>fl_Limit := (if fl_Limit f \<le> 0 then 50 else if 200 < fl_Limit f then 200 else fl_Limit f),
       fl_Method := to_upper (trim_space (fl_Method f)),
       fl_Result := to_lower (trim_space (fl_Result f)),
       fl_StatusClass := to_lower (trim_space (fl_StatusClass f))\<rparr>"

definition chooseBucket :: "duration \<Rightarrow> duration" where
  "chooseBucket window =
     (if window \<le> hour then 5 * minute
      else if window \<le> 6 * hour then 15 * minute
      else if window \<le> 24 * hour then hour
      else if window \<le> 7 * 24 * hour then 6 * hour
      else 24 * hour)"

definition normalizeMetricsFilter :: "MetricsFilter \<Rightarrow> time \<Rightarrow> MetricsFilter" where
  "normalizeMetricsFilter f now =
     (let to' = (if is_zero (mf_To f) then now else mf_To f);
          from' = (if is_zero (mf_From f) then time_add to' (- (24 * hour)) else mf_From f);
          bucket = (if mf_Bucket f \<le> 0 then chooseBucket (time_sub to' from') else mf_Bucket f)
      in f\<lparr>mf_To := to', mf_From := from', mf_Bucket := bucket,
           mf_Method := to_upper (trim_space (mf_Method f)),
           mf_Result := to_lower (trim_space (mf_Result f)),
           mf_StatusClass := to_lower (trim_space (mf_StatusClass f))\<rparr>)"

definition statusClassRange :: "string \<Rightarrow> (int \<times> int) option" where
  "statusClassRange value =
     (case cut_suffix (to_lower (trim_space value)) ''xx'' of
        None \<Rightarrow> None
      | Some digits \<Rightarrow>
          (case atoi digits of
             None \<Rightarrow> None
           | Some n \<Rightarrow> if 1 \<le> n \<and> n \<le> 5 then Some (n * 100, (n + 1) * 100) else None))"

text \<open>\<open>=\<close> and \<open>LIKE\<close> of the dialects: MySQL ignores ASCII case in both, SQLite in \<open>LIKE\<close>.\<close>

definition sql_eq :: "dialectName \<Rightarrow> string \<Rightarrow> string \<Rightarrow> bool" where
  "sql_eq d a b \<longleftrightarrow> (if d = DialectMySQL then equal_fold a b else a = b)"

definition continuation :: "char \<Rightarrow> bool" where
  "continuation c \<longleftrightarrow> 128 \<le> byte c \<and> byte c < 192"

function like_match :: "bool \<Rightarrow> bool \<Rightarrow> string \<Rightarrow> string \<Rightarrow> bool" where
  "like_match ci esc [] s = (s = [])"
| "like_match ci esc (p # ps) s =
     (if p = CHR ''%'' then like_match ci esc ps s \<or> (if s = [] then False else like_match ci esc (p # ps) (tl s))
      else if s = [] then False
      else if p = CHR ''_'' then like_match ci esc ps (dropWhile continuation (tl s))
      else if esc \<and> p = CHR 0x5C \<and> ps \<noteq> []
      then (if ci then lower_char (hd ps) = lower_char (hd s) else hd ps = hd s) \<and> like_match ci esc (tl ps) (tl s)
      else (if ci then lower_char p = lower_char (hd s) else p = hd s) \<and> like_match ci esc ps (tl s))"
  by pat_completeness auto
termination
  by (relation "measure (\<lambda>(ci, esc, p, s). length s + length p)")
    (auto simp: less_Suc_eq_le add_mono length_dropWhile_le [THEN le_trans])

definition sql_like :: "dialectName \<Rightarrow> string \<Rightarrow> string \<Rightarrow> bool" where
  "sql_like d s pattern = like_match (d \<noteq> DialectPostgres) (d \<noteq> DialectSQLite) pattern s"

text \<open>The conditions that \<open>applyEventFilters\<close> adds, as a predicate on rows.\<close>

definition column_filter :: "dialectName \<Rightarrow> string \<Rightarrow> string \<Rightarrow> bool" where
  "column_filter d column value \<longleftrightarrow> trim_space value = [] \<or> sql_eq d column (trim_space value)"

definition applyEventFilters :: "dialectName \<Rightarrow> Filter \<Rightarrow> event_row \<Rightarrow> bool" where
  "applyEventFilters d f m \<longleftrightarrow>
     (is_zero (fl_From f) \<or> fl_From f \<le> er_Timestamp m) \<and>
     (is_zero (fl_To f) \<or> er_Timestamp m \<le> fl_To f) \<and>
     column_filter d (er_Actor m) (fl_Actor f) \<and>
     (if fl_Action f = PublicGatewayActionFilter
      then list_ex (sql_eq d (er_Action m)) [''gateway.request'', ''exchange.request'', ''verify.request'']
      else column_filter d (er_Action m) (fl_Action f)) \<and>
     column_filter d (er_Endpoint m) (fl_Endpoint f) \<and>
     column_filter d (er_Method m) (fl_Method f) \<and>
     column_filter d (er_Result m) (fl_Result f) \<and>
     column_filter d (er_RequestID m) (fl_RequestID f) \<and>
     (trim_space (fl_Path f) = [] \<or> sql_like d (er_Path m) (''%'' @ trim_space (fl_Path f) @ ''%'')) \<and>
     (fl_StatusCode f \<le> 0 \<or> er_StatusCode m = fl_StatusCode f) \<and>
     (case statusClassRange (fl_StatusClass f) of
        None \<Rightarrow> True | Some (lo, hi) \<Rightarrow> lo \<le> er_StatusCode m \<and> er_StatusCode m < hi)"

definition applyRollupMetricFilters :: "dialectName \<Rightarrow> MetricsFilter \<Rightarrow> rollup_key \<Rightarrow> bool" where
  "applyRollupMetricFilters d f k \<longleftrightarrow>
     (trim_space (mf_Endpoint f) = [] \<or> sql_eq d (rk_Endpoint k) (trim_space (mf_Endpoint f))) \<and>
     (trim_space (mf_Method f) = [] \<or> sql_eq d (rk_Method k) (to_upper (trim_space (mf_Method f)))) \<and>
     (trim_space (mf_Result f) = [] \<or> sql_eq d (rk_Result k) (to_lower (trim_space (mf_Result f)))) \<and>
     (trim_space (mf_StatusClass f) = [] \<or> sql_eq d (rk_StatusClass k) (to_lower (trim_space (mf_StatusClass f))))"

section \<open>Queries\<close>

definition query :: "(tables \<Rightarrow> 'a) \<Rightarrow> repository \<Rightarrow> (audit_error + 'a) \<times> repository" where
  "query q r =
     (let r' = r\<lparr>rp_tx := Suc (rp_tx r)\<rparr>
      in case rp_outcomes r (rp_tx r) of Commit \<Rightarrow> (Inr (q (rp_tables r)), r') | _ \<Rightarrow> (Inl StorageError, r'))"

text \<open>\<open>ORDER BY timestamp DESC, seq DESC\<close>.\<close>

definition newest_first :: "event_row list \<Rightarrow> event_row list" where
  "newest_first ms = sort_key (\<lambda>m. (- er_Timestamp m, - er_Seq m)) ms"

definition after_cursor :: "Cursor \<Rightarrow> event_row \<Rightarrow> bool" where
  "after_cursor cu m \<longleftrightarrow>
     is_zero (cu_Timestamp cu) \<or> er_Timestamp m < cu_Timestamp cu \<or>
     (er_Timestamp m = cu_Timestamp cu \<and> er_Seq m < cu_Seq cu)"

definition list_rows :: "dialectName \<Rightarrow> Filter \<Rightarrow> Cursor \<Rightarrow> tables \<Rightarrow> event_row list" where
  "list_rows d f cu t =
     (let rows = newest_first (filter (\<lambda>m. applyEventFilters d f m \<and> after_cursor cu m) (tb_events t))
      in take (nat (fl_Limit f + 1)) (drop (if is_zero (cu_Timestamp cu) then nat (fl_Offset f) else 0) rows))"

text \<open>The page made of the rows that were scanned.\<close>

definition make_page :: "Filter \<Rightarrow> int \<Rightarrow> event_row list \<Rightarrow> audit_error + Page" where
  "make_page f n models0 =
     (let hasNext = (fl_Limit f < int (length models0));
          models = (if hasNext then take (nat (fl_Limit f)) models0 else models0);
          items = map fromEventModel models
      in if hasNext \<and> items \<noteq> []
         then rbind (EncodeCursor \<lparr>cu_Timestamp = ev_Timestamp (last items), cu_Seq = ev_Seq (last items)\<rparr>)
                (\<lambda>next. Inr \<lparr>pg_Items = items, pg_Total = n, pg_NextCursor = Some next, pg_HasNext = hasNext\<rparr>)
         else Inr \<lparr>pg_Items = items, pg_Total = n, pg_NextCursor = None, pg_HasNext = hasNext\<rparr>)"

definition repo_List :: "Filter \<Rightarrow> repository \<Rightarrow> (audit_error + Page) \<times> repository" where
  "repo_List f0 r =
     (let f = normalizeFilter f0; d = rp_dialect r
      in case DecodeCursor (fl_Cursor f) of
           Inl e \<Rightarrow> (Inl e, r)
         | Inr cu \<Rightarrow>
             (case (if fl_IncludeTotal f
                    then query (\<lambda>t. int (length (filter (applyEventFilters d f) (tb_events t)))) r
                    else (Inr 0, r)) of
                (Inl e, r1) \<Rightarrow> (Inl e, r1)
              | (Inr n, r1) \<Rightarrow>
                  (case query (list_rows d f cu) r1 of
                     (Inl e, r2) \<Rightarrow> (Inl e, r2)
                   | (Inr models, r2) \<Rightarrow> (make_page f n models, r2))))"

text \<open>\<open>SUM(CASE WHEN ... THEN w ELSE 0 END)\<close> over the rows.\<close>

definition sum_when :: "('r \<Rightarrow> int) \<Rightarrow> ('r \<Rightarrow> bool) \<Rightarrow> 'r list \<Rightarrow> int" where
  "sum_when w p rows = (\<Sum>m\<leftarrow>rows. if p m then w m else 0)"

definition summary_of ::
    "dialectName \<Rightarrow> ('r \<Rightarrow> int) \<Rightarrow> ('r \<Rightarrow> string) \<Rightarrow> ('r \<Rightarrow> string) \<Rightarrow> ('r \<Rightarrow> int) \<Rightarrow> 'r list \<Rightarrow> Summary" where
  "summary_of d w action result status rows =
     (let ok = (\<lambda>m. sql_eq d (result m) ResultSuccess);
          ex = (\<lambda>m. sql_eq d (action m) ''exchange.request'');
          ve = (\<lambda>m. sql_eq d (action m) ''verify.request'')
      in \<lparr>sm_Total = sum_when w (\<lambda>_. True) rows,
          sm_Successful = sum_when w ok rows,
          sm_Failed = sum_when w (\<lambda>m. \<not> ok m) rows,
          sm_ExchangeSuccesses = sum_when w (\<lambda>m. ex m \<and> ok m) rows,
          sm_ExchangeFailures = sum_when w (\<lambda>m. ex m \<and> \<not> ok m) rows,
          sm_VerifySuccesses = sum_when w (\<lambda>m. ve m \<and> ok m) rows,
          sm_VerifyFailures = sum_when w (\<lambda>m. ve m \<and> \<not> ok m) rows,
          sm_Count4xx = sum_when w (\<lambda>m. 400 \<le> status m \<and> status m < 500) rows,
          sm_Count5xx = sum_when w (\<lambda>m. 500 \<le> status m) rows\<rparr>)"

definition repo_Summary :: "Filter \<Rightarrow> repository \<Rightarrow> (audit_error + Summary) \<times> repository" where
  "repo_Summary f0 r =
     (let f = normalizeFilter f0; d = rp_dialect r
      in query (\<lambda>t. summary_of d (\<lambda>_. 1) er_Action er_Result er_StatusCode
                      (filter (applyEventFilters d f) (tb_events t))) r)"

section \<open>Metrics\<close>

definition metric_actions :: "string list" where
  "metric_actions = [''gateway.request'', ''exchange.request'', ''verify.request'', ''rate_limit.denied'']"

definition metric_rows :: "dialectName \<Rightarrow> MetricsFilter \<Rightarrow> tables \<Rightarrow> rollup_row list" where
  "metric_rows d f t =
     filter (\<lambda>m. mf_From f \<le> rk_BucketStart (rr_key m) \<and> rk_BucketStart (rr_key m) \<le> mf_To f \<and>
        list_ex (sql_eq d (rk_Action (rr_key m))) metric_actions \<and> applyRollupMetricFilters d f (rr_key m))
      (tb_rollups t)"

definition rollupSummary :: "MetricsFilter \<Rightarrow> repository \<Rightarrow> (audit_error + Summary) \<times> repository" where
  "rollupSummary f r =
     (let d = rp_dialect r
      in query (\<lambda>t. summary_of d rr_Count (rk_Action \<circ> rr_key) (rk_Result \<circ> rr_key) (rk_StatusCode \<circ> rr_key)
                      (metric_rows d f t)) r)"

text \<open>
  The second that \<open>TimeBucketExpr\<close> assigns to a bucket start, as the code reads its text.  SQLite
  truncates the quotient.  MySQL takes the stored time for a time of the session's zone and writes
  the bucket in that zone, followed by a literal \<open>Z\<close>.
\<close>

definition bucket_seconds :: "duration \<Rightarrow> int" where
  "bucket_seconds bucket = (let s = duration_seconds bucket in if s \<le> 0 then 3600 else s)"

definition TimeBucketExpr :: "dialectName \<Rightarrow> session_zone \<Rightarrow> duration \<Rightarrow> time \<Rightarrow> int" where
  "TimeBucketExpr d z bucket t =
     (let s = bucket_seconds bucket
      in case d of
           DialectSQLite \<Rightarrow> quot64 (time_unix t) s * s
         | DialectPostgres \<Rightarrow> time_unix t div s * s
         | DialectMySQL \<Rightarrow> zn_local z (zn_unix z (time_unix t) div s * s))"

definition bucket_counts :: "dialectName \<Rightarrow> session_zone \<Rightarrow> MetricsFilter \<Rightarrow> tables \<Rightarrow> int \<Rightarrow> int" where
  "bucket_counts d z f t key =
     (\<Sum>m\<leftarrow>filter (\<lambda>m. TimeBucketExpr d z (mf_Bucket f) (rk_BucketStart (rr_key m)) = key) (metric_rows d f t).
        rr_Count m)"

text \<open>An integer division by zero panics.\<close>

definition bucketStart :: "time \<Rightarrow> duration \<Rightarrow> time option" where
  "bucketStart t bucket =
     (let s = duration_seconds bucket
      in if s = 0 then None else Some (unix_time (quot64 (time_unix t) s * s)))"

text \<open>The loop over the points; it ends because the bucket is positive.\<close>

function points_loop :: "(int \<Rightarrow> int) \<Rightarrow> duration \<Rightarrow> time \<Rightarrow> time \<Rightarrow> MetricPoint list" where
  "points_loop counts bucket to' ts =
     (if to' < ts \<or> bucket \<le> 0 then []
      else \<lparr>mp_Timestamp = ts, mp_Count = counts (time_unix ts)\<rparr> # points_loop counts bucket to' (time_add ts bucket))"
  by pat_completeness auto
termination
  by (relation "measure (\<lambda>(counts, bucket, to', ts). nat (to' + 1 - ts))") (auto simp: time_add_def)

declare points_loop.simps [simp del]

datatype metrics_result = MetricsError audit_error | MetricsPanic | MetricsOK Metrics

definition repo_Metrics :: "time \<Rightarrow> MetricsFilter \<Rightarrow> repository \<Rightarrow> metrics_result \<times> repository" where
  "repo_Metrics now f0 r =
     (let f = normalizeMetricsFilter f0 now; d = rp_dialect r
      in case rollupSummary f r of
           (Inl e, r1) \<Rightarrow> (MetricsError e, r1)
         | (Inr summary, r1) \<Rightarrow>
             (case query (bucket_counts d (rp_zone r) f) r1 of
                (Inl e, r2) \<Rightarrow> (MetricsError e, r2)
              | (Inr counts, r2) \<Rightarrow>
                  (case bucketStart (mf_From f) (mf_Bucket f) of
                     None \<Rightarrow> (MetricsPanic, r2)
                   | Some start \<Rightarrow>
                       (MetricsOK \<lparr>me_From = mf_From f, me_To = mf_To f, me_Bucket = mf_Bucket f,
                          me_Points = points_loop counts (mf_Bucket f) (mf_To f) start,
                          me_Summary = summary\<rparr>, r2))))"

section \<open>Facts\<close>

text \<open>A database whose queries succeed.\<close>

definition healthy :: "repository \<Rightarrow> bool" where
  "healthy r \<longleftrightarrow> (\<forall>n. rp_outcomes r n = Commit)"

lemma query_healthy:
  "healthy r \<Longrightarrow> query q r = (Inr (q (rp_tables r)), r\<lparr>rp_tx := Suc (rp_tx r)\<rparr>)"
  by (simp add: query_def healthy_def Let_def)

lemma healthy_tx [simp]: "healthy (r\<lparr>rp_tx := n\<rparr>) = healthy r"
  by (simp add: healthy_def)

text \<open>The sort key, and lists that it orders strictly.\<close>

definition row_key :: "event_row \<Rightarrow> time \<times> int" where
  "row_key m = (- er_Timestamp m, - er_Seq m)"

lemma newest_first_key: "newest_first ms = sort_key row_key ms"
  by (simp add: newest_first_def row_key_def [abs_def])

lemma after_cursor_key:
  "after_cursor \<lparr>cu_Timestamp = er_Timestamp x, cu_Seq = er_Seq x\<rparr> m \<longleftrightarrow> er_Timestamp x = 0 \<or> row_key x < row_key m"
  by (auto simp: after_cursor_def row_key_def is_zero_def zero_time_def)

definition strictly_sorted :: "event_row list \<Rightarrow> bool" where
  "strictly_sorted L \<longleftrightarrow> sorted_wrt (\<lambda>a b. row_key a < row_key b) L"

lemma newest_first_strict:
  assumes "distinct (map er_Seq ms)"
  shows "strictly_sorted (newest_first ms)"
proof -
  have "sorted (map row_key (newest_first ms))" by (simp add: newest_first_key)
  moreover have "distinct (map row_key (newest_first ms))"
  proof -
    have "inj_on er_Seq (set ms)" "distinct ms" using assms by (auto simp: distinct_map)
    then have "inj_on row_key (set ms)" by (auto simp: inj_on_def row_key_def)
    with \<open>distinct ms\<close> show ?thesis by (simp add: distinct_map newest_first_key)
  qed
  ultimately have "sorted_wrt (<) (map row_key (newest_first ms))" by (simp add: strict_sorted_iff)
  then show ?thesis by (simp add: strictly_sorted_def sorted_wrt_map)
qed

lemma filter_after:
  assumes "strictly_sorted L" and "i < length L"
  shows "filter (\<lambda>m. row_key (L ! i) < row_key m) L = drop (Suc i) L"
proof -
  have lt: "row_key (L ! a) < row_key (L ! b)" if "a < b" "b < length L" for a b
    using assms(1) that by (simp add: strictly_sorted_def sorted_wrt_iff_nth_less)
  have "filter (\<lambda>m. row_key (L ! i) < row_key m) (take (Suc i) L) = []"
  proof (rule filter_False, rule ballI)
    fix m assume "m \<in> set (take (Suc i) L)"
    then obtain j where "j \<le> i" "m = L ! j" using assms(2) by (auto simp: in_set_conv_nth less_Suc_eq_le)
    with lt [of j i] assms(2) show "\<not> row_key (L ! i) < row_key m" by (cases "j = i") auto
  qed
  moreover have "filter (\<lambda>m. row_key (L ! i) < row_key m) (drop (Suc i) L) = drop (Suc i) L"
  proof (rule filter_True, rule ballI)
    fix m assume "m \<in> set (drop (Suc i) L)"
    then obtain j where "j < length L - Suc i" "m = L ! (Suc i + j)" by (auto simp: in_set_conv_nth)
    with lt [of i "Suc i + j"] show "row_key (L ! i) < row_key m" by simp
  qed
  ultimately show ?thesis by (metis append_Nil append_take_drop_id filter_append)
qed

text \<open>The events that a filter selects, newest first: what the pages of \<open>List\<close> must yield.\<close>

definition matching :: "Filter \<Rightarrow> repository \<Rightarrow> event_row list" where
  "matching f r = newest_first (filter (applyEventFilters (rp_dialect r) (normalizeFilter f)) (tb_events (rp_tables r)))"

text \<open>A client that follows the cursors, with fuel for the number of pages.\<close>

fun all_pages :: "nat \<Rightarrow> Filter \<Rightarrow> repository \<Rightarrow> (audit_error + event list) option" where
  "all_pages 0 f r = None"
| "all_pages (Suc n) f r =
     (case repo_List f r of
        (Inl e, r') \<Rightarrow> Some (Inl e)
      | (Inr page, r') \<Rightarrow>
          if pg_HasNext page
          then (case pg_NextCursor page of
                  None \<Rightarrow> Some (Inl InvalidCursor)
                | Some cu \<Rightarrow>
                    map_option (map_sum id (\<lambda>es. pg_Items page @ es)) (all_pages n (f\<lparr>fl_Cursor := cu\<rparr>) r'))
          else Some (Inr (pg_Items page)))"

text \<open>Timestamps and sequence numbers that a cursor can name.\<close>

definition cursor_row :: "event_row \<Rightarrow> bool" where
  "cursor_row m \<longleftrightarrow> er_Timestamp m \<noteq> 0 \<and> json_time (er_Timestamp m) \<and> 0 < er_Seq m"

lemma limit_pos: "0 < fl_Limit (normalizeFilter f)"
  by (simp add: normalizeFilter_def)

lemma normalizeFilter_cursor:
  "normalizeFilter (f\<lparr>fl_Cursor := cu\<rparr>) = (normalizeFilter f)\<lparr>fl_Cursor := cu\<rparr>"
  by (simp add: normalizeFilter_def)

lemma applyEventFilters_cursor:
  "applyEventFilters d (f\<lparr>fl_Cursor := cu\<rparr>) = applyEventFilters d f"
  by (simp add: applyEventFilters_def fun_eq_iff)

lemma repo_List_healthy:
  assumes "healthy r" and "fl_Offset f \<le> 0" and "DecodeCursor c = Inr cu"
  obtains n k where "repo_List (f\<lparr>fl_Cursor := c\<rparr>) r =
      (make_page (normalizeFilter f) n (take (nat (fl_Limit (normalizeFilter f) + 1)) (filter (after_cursor cu) (matching f r))),
       r\<lparr>rp_tx := k\<rparr>)"
proof -
  let ?f = "normalizeFilter f"
  have off: "nat (fl_Offset ?f) = 0" using assms(2) by (simp add: normalizeFilter_def)
  have rows: "list_rows (rp_dialect r) (?f\<lparr>fl_Cursor := c\<rparr>) cu (rp_tables r) =
      take (nat (fl_Limit ?f + 1)) (filter (after_cursor cu) (matching f r))"
    using off
    by (simp add: list_rows_def matching_def newest_first_key filter_sort applyEventFilters_cursor
        filter_filter conj_commute Let_def)
  have mk: "make_page (?f\<lparr>fl_Cursor := c\<rparr>) n ms = make_page ?f n ms" for n ms
    by (simp add: make_page_def Let_def)
  show ?thesis
    using that assms(1,3)
    by (cases "fl_IncludeTotal ?f")
      (fastforce simp: repo_List_def normalizeFilter_cursor Let_def query_healthy rows mk)+
qed

text \<open>One page of a strictly sorted remainder, and where its cursor points.\<close>

lemma page_step:
  assumes R: "R = drop j L" and L: "strictly_sorted L" and rows: "\<forall>m \<in> set L. cursor_row m" and lim: "0 < fl_Limit f"
  defines "k \<equiv> nat (fl_Limit f)"
  obtains (last) page where "make_page f n (take (nat (fl_Limit f + 1)) R) = Inr page" "\<not> pg_HasNext page"
      "pg_Items page = map fromEventModel R" "length R \<le> k"
  | (more) page cu where "make_page f n (take (nat (fl_Limit f + 1)) R) = Inr page" "pg_HasNext page"
      "pg_Items page = map fromEventModel (take k R)" "k < length R"
      "pg_NextCursor page = Some (CtPayload cu)" "DecodeCursor (CtPayload cu) = Inr cu"
      "filter (after_cursor cu) L = drop (j + k) L"
proof (cases "length R \<le> k")
  case True
  then have "take (nat (fl_Limit f + 1)) R = R" using lim by (simp add: k_def nat_add_distrib)
  moreover have "\<not> fl_Limit f < int (length R)" using True lim by (simp add: k_def)
  ultimately show ?thesis using last True by (simp add: make_page_def)
next
  case False
  then have k: "k < length R" "0 < k" using lim by (simp_all add: k_def)
  define x where "x = R ! (k - 1)"
  define cu where "cu = \<lparr>cu_Timestamp = er_Timestamp x, cu_Seq = er_Seq x\<rparr>"
  have t: "take (nat (fl_Limit f + 1)) R = take (Suc k) R" using lim by (simp add: k_def nat_add_distrib)
  have len: "length (take (Suc k) R) = Suc k" "fl_Limit f < int (Suc k)" using k lim by (simp_all add: k_def)
  have lst: "last (take k R) = x" using k by (subst last_conv_nth) (auto simp: x_def min_def)
  have jl: "j + k - 1 < length L" "L ! (j + k - 1) = x" "Suc (j + k - 1) = j + k"
    using k R by (simp_all add: x_def)
  then have xr: "cursor_row x" using rows nth_mem by metis
  have enc: "EncodeCursor cu = Inr (CtPayload cu)"
    using xr by (simp add: EncodeCursor_def cu_def cursor_row_def is_zero_def zero_time_def)
  have tk: "take (nat (fl_Limit f)) (take (Suc k) R) = take k R" by (simp add: k_def)
  have ne: "take k R \<noteq> []" using k by auto
  have la: "ev_Timestamp (last (map fromEventModel (take k R))) = er_Timestamp x"
    "ev_Seq (last (map fromEventModel (take k R))) = er_Seq x"
    using ne by (simp_all add: last_map lst fromEventModel_def)
  have "make_page f n (take (nat (fl_Limit f + 1)) R) =
      Inr \<lparr>pg_Items = map fromEventModel (take k R), pg_Total = n, pg_NextCursor = Some (CtPayload cu), pg_HasNext = True\<rparr>"
    using len(2) enc ne la lim
    unfolding make_page_def t Let_def len(1) tk by (simp add: k_def cu_def)
  moreover have "DecodeCursor (CtPayload cu) = Inr cu"
    using xr by (simp add: cu_def cursor_row_def is_zero_def zero_time_def)
  moreover have "filter (after_cursor cu) L = drop (j + k) L"
  proof -
    have "er_Timestamp x \<noteq> 0" using xr by (simp add: cursor_row_def)
    then have "after_cursor cu = (\<lambda>m. row_key (L ! (j + k - 1)) < row_key m)"
      unfolding jl(2) cu_def by (intro ext) (simp add: after_cursor_key)
    then show ?thesis using filter_after [OF L jl(1)] jl(3) by simp
  qed
  ultimately show ?thesis using more [of _ cu] k by simp
qed

lemma matching_tx [simp]: "matching f (r\<lparr>rp_tx := k\<rparr>) = matching f r"
  by (simp add: matching_def)

lemma all_pages_from:
  assumes off: "fl_Offset f \<le> 0" and L: "strictly_sorted L" and rows: "\<forall>m \<in> set L. cursor_row m"
    and "healthy r" and "matching f r = L" and "DecodeCursor c = Inr cu"
    and "filter (after_cursor cu) L = drop j L" and "length (drop j L) < n"
  shows "all_pages n (f\<lparr>fl_Cursor := c\<rparr>) r = Some (Inr (map fromEventModel (drop j L)))"
  using assms(4-)
proof (induction n arbitrary: c cu j r)
  case 0
  then show ?case by simp
next
  case (Suc n)
  obtain tot k1 where page: "repo_List (f\<lparr>fl_Cursor := c\<rparr>) r =
      (make_page (normalizeFilter f) tot (take (nat (fl_Limit (normalizeFilter f) + 1)) (drop j L)), r\<lparr>rp_tx := k1\<rparr>)"
    using repo_List_healthy [OF Suc.prems(1) off Suc.prems(3)] unfolding Suc.prems(2,4) .
  let ?k = "nat (fl_Limit (normalizeFilter f))"
  show ?case
  proof (cases rule: page_step [where R = "drop j L" and j = j and n = tot, OF refl L rows limit_pos [of f]])
    case (1 page')
    then show ?thesis by (simp add: page)
  next
    case (2 page' cu')
    have "0 < ?k" using limit_pos [of f] by simp
    then have "length (drop (j + ?k) L) < n" using Suc.prems(5) 2(4) by simp
    from Suc.IH [of "r\<lparr>rp_tx := k1\<rparr>", OF _ _ 2(6,7) this] Suc.prems(1,2)
    have "all_pages n (f\<lparr>fl_Cursor := CtPayload cu'\<rparr>) (r\<lparr>rp_tx := k1\<rparr>) =
        Some (Inr (map fromEventModel (drop (j + ?k) L)))" by simp
    moreover have "take ?k (drop j L) @ drop (j + ?k) L = drop j L"
      by (metis add.commute append_take_drop_id drop_drop)
    ultimately show ?thesis
      using 2(1-3,5) by (simp add: page map_append [symmetric] del: map_append)
  qed
qed

section \<open>Properties\<close>

text \<open>
  C12. Pagination refines the audit log: on a healthy database, following the cursors of \<open>List\<close> from
  the first page ends, after at most one page per event, and the pages put together are exactly
  the events that the filter selects, newest first, none repeated and none skipped, whatever the
  page size.
\<close>

theorem pagination_complete:
  assumes "healthy r" and "distinct (map er_Seq (tb_events (rp_tables r)))"
    and "\<forall>m \<in> set (tb_events (rp_tables r)). cursor_row m"
    and "fl_Offset f \<le> 0" and "fl_Cursor f = CtBlank"
  shows "all_pages (Suc (length (matching f r))) f r = Some (Inr (map fromEventModel (matching f r)))"
proof -
  let ?L = "matching f r"
  have d: "distinct (map er_Seq (filter P (tb_events (rp_tables r))))" for P
    using assms(2) by (simp add: distinct_map inj_on_def)
  have L: "strictly_sorted ?L" unfolding matching_def by (rule newest_first_strict [OF d])
  have rows: "\<forall>m \<in> set ?L. cursor_row m"
    using assms(3) by (simp add: matching_def newest_first_key)
  have all: "filter (after_cursor zero_cursor) ?L = drop 0 ?L"
    by (simp add: after_cursor_def zero_cursor_def is_zero_def)
  have c: "f\<lparr>fl_Cursor := CtBlank\<rparr> = f" using assms(5) by simp
  show ?thesis
    using all_pages_from [OF assms(4) L rows assms(1) refl DecodeCursor.simps(1) all, of "Suc (length ?L)"]
    unfolding c by simp
qed

definition demo_row :: "int \<Rightarrow> time \<Rightarrow> string \<Rightarrow> event_row" where
  "demo_row seq t action =
     \<lparr>er_Seq = seq, er_ID = show_int seq, er_Timestamp = t, er_Actor = ''public'', er_ActorSource = ''public'',
      er_Action = action, er_Method = ''POST'', er_Path = ''/x'', er_Endpoint = ''/x'', er_StatusCode = 200,
      er_Result = ''success'', er_RemoteAddr = [], er_UserAgent = [], er_RequestID = [], er_DurationMS = 1,
      er_ErrorCode = [], er_Message = [], er_MetadataJSON = None\<rparr>"

definition demo_query_repo :: repository where
  "demo_query_repo =
     \<lparr>rp_dialect = DialectSQLite, rp_zone = fixed_zone 0,
      rp_tables = empty_tables\<lparr>tb_events := [demo_row 1 50 ''exchange.request'', demo_row 2 70 ''verify.request'',
        demo_row 3 50 ''exchange.request'', demo_row 4 60 ''exchange.request''], tb_next_seq := 5\<rparr>,
      rp_outcomes = (\<lambda>_. Commit), rp_tx = 0\<rparr>"

definition demo_filter :: Filter where
  "demo_filter = \<lparr>fl_From = 0, fl_To = 0, fl_Actor = [], fl_Action = ''exchange.request'', fl_Endpoint = [], fl_Path = [],
     fl_Method = [], fl_Result = [], fl_StatusCode = 0, fl_StatusClass = [], fl_RequestID = [], fl_Limit = 1,
     fl_Cursor = CtBlank, fl_IncludeTotal = True, fl_Offset = 0\<rparr>"

lemma demo_matching: "map er_Seq (matching demo_filter demo_query_repo) = [4, 3, 1]"
  by code_simp

theorem pagination_complete_witness:
  "\<exists>ms. all_pages 4 demo_filter demo_query_repo = Some (Inr (map fromEventModel ms)) \<and> map er_Seq ms = [4, 3, 1]"
proof -
  have l: "length (matching demo_filter demo_query_repo) = 3"
    using arg_cong [OF demo_matching, of length] by simp
  have "all_pages (Suc (length (matching demo_filter demo_query_repo))) demo_filter demo_query_repo =
      Some (Inr (map fromEventModel (matching demo_filter demo_query_repo)))"
    by (rule pagination_complete)
      (simp_all add: healthy_def demo_query_repo_def demo_filter_def empty_tables_def demo_row_def cursor_row_def
        json_time_def duration_units)
  with demo_matching show ?thesis unfolding l by (intro exI conjI) (simp_all add: eval_nat_numeral)
qed

section \<open>The chart of the dashboard\<close>

lemma repo_Metrics_healthy:
  assumes "healthy r" and "bucketStart (mf_From f') (mf_Bucket f') = Some start"
  defines "d \<equiv> rp_dialect r" and "t \<equiv> rp_tables r"
  assumes "f' = normalizeMetricsFilter f now"
  shows "\<exists>r'. repo_Metrics now f r = (MetricsOK
    \<lparr>me_From = mf_From f', me_To = mf_To f', me_Bucket = mf_Bucket f',
     me_Points = points_loop (bucket_counts d (rp_zone r) f' t) (mf_Bucket f') (mf_To f') start,
     me_Summary = summary_of d rr_Count (rk_Action \<circ> rr_key) (rk_Result \<circ> rr_key) (rk_StatusCode \<circ> rr_key)
       (metric_rows d f' t)\<rparr>, r')"
  using assms by (simp add: repo_Metrics_def rollupSummary_def Let_def query_healthy)

text \<open>The points are one bucket apart, from the start as far as the end of the interval.\<close>

lemma points_loop_eq:
  assumes "0 < bucket"
  shows "points_loop counts bucket to' ts =
    map (\<lambda>i. \<lparr>mp_Timestamp = ts + int i * bucket, mp_Count = counts (time_unix (ts + int i * bucket))\<rparr>)
      [0..<nat ((to' - ts) div bucket + 1)]"
proof (induction "nat (to' + 1 - ts)" arbitrary: ts rule: less_induct)
  case less
  show ?case
  proof (cases "to' < ts")
    case True
    then have "(to' - ts) div bucket < 0" using assms by (simp add: div_neg_pos_less0)
    with True show ?thesis by (simp add: points_loop.simps)
  next
    case False
    have step: "(to' - ts) div bucket = (to' - (ts + bucket)) div bucket + 1"
      using div_add_self2 [of bucket "to' - (ts + bucket)"] assms by simp
    have nonneg: "0 \<le> (to' - ts) div bucket" using False assms by (simp add: pos_imp_zdiv_nonneg_iff)
    define n where "n = nat ((to' - (ts + bucket)) div bucket + 1)"
    have n: "nat ((to' - ts) div bucket + 1) = Suc n" using step nonneg by (simp add: n_def)
    have "nat (to' + 1 - (ts + bucket)) < nat (to' + 1 - ts)" using False assms by simp
    from less [OF this] have ih: "points_loop counts bucket to' (ts + bucket) =
        map (\<lambda>i. \<lparr>mp_Timestamp = ts + bucket + int i * bucket, mp_Count = counts (time_unix (ts + bucket + int i * bucket))\<rparr>) [0..<n]"
      by (simp add: n_def)
    have "points_loop counts bucket to' ts =
        \<lparr>mp_Timestamp = ts, mp_Count = counts (time_unix ts)\<rparr> # points_loop counts bucket to' (ts + bucket)"
      using False assms by (subst points_loop.simps) (simp add: time_add_def)
    also have "\<dots> = map (\<lambda>i. \<lparr>mp_Timestamp = ts + int i * bucket, mp_Count = counts (time_unix (ts + int i * bucket))\<rparr>)
        [0..<Suc n]"
      unfolding ih map_upt_Suc by (simp add: algebra_simps)
    finally show ?thesis by (simp only: n)
  qed
qed

text \<open>Every row that a sum over distinct values of a key takes in is counted once.\<close>

lemma sum_pick: "distinct ks \<Longrightarrow> (\<Sum>k\<leftarrow>ks. if c = k then v else 0) = (if c \<in> set ks then v else (0 :: int))"
  by (induction ks) auto

lemma sum_by_key:
  assumes "distinct ks" and "\<forall>m \<in> set rows. key m \<in> set ks"
  shows "(\<Sum>k\<leftarrow>ks. \<Sum>m\<leftarrow>filter (\<lambda>m. key m = k) rows. w m) = (\<Sum>m\<leftarrow>rows. w m :: int)"
  using assms(2)
proof (induction rows)
  case Nil
  then show ?case by simp
next
  case (Cons m rows)
  have "(\<Sum>k\<leftarrow>ks. if key m = k then w m else 0) = w m"
    using Cons.prems by (simp add: sum_pick [OF assms(1)])
  moreover have "(\<Sum>k\<leftarrow>ks. \<Sum>m\<leftarrow>filter (\<lambda>m'. key m' = k) (m # rows). w m) =
      (\<Sum>k\<leftarrow>ks. (if key m = k then w m else 0) + (\<Sum>m\<leftarrow>filter (\<lambda>m. key m = k) rows. w m))"
    by (intro arg_cong [where f = sum_list] map_cong refl) simp
  ultimately show ?case using Cons by (simp add: sum_list_map_add)
qed

lemma time_unix_mono: "s \<le> t \<Longrightarrow> time_unix s \<le> time_unix t"
  by (simp add: time_unix_def zdiv_mono1 second_def)

lemma unix_time_le: "unix_time s \<le> t \<longleftrightarrow> s \<le> time_unix t"
  by (simp add: unix_time_def time_unix_def second_def) linarith

text \<open>The bucket of an instant at or after the start is one of the points' buckets.\<close>

lemma bucket_point:
  fixes k u uf :: int
  assumes k: "0 < k" and b: "0 \<le> uf" "uf \<le> u"
  defines "i \<equiv> u div k - uf div k"
  shows "0 \<le> i" and "uf div k * k + i * k = u div k * k" and "u div k * k \<le> u"
proof -
  show "0 \<le> i" using zdiv_mono1 [OF b(2) k] by (simp add: i_def)
  show "uf div k * k + i * k = u div k * k" by (simp add: i_def algebra_simps)
  show "u div k * k \<le> u" using pos_mod_sign [OF k, of u] div_mult_mod_eq [of u k] by linarith
qed

text \<open>The zone plays no role outside MySQL; a zone whose offset is a multiple of the bucket none at all.\<close>

lemma TimeBucketExpr_floor:
  assumes "0 < k" and "0 \<le> time_unix t" and "d = DialectMySQL \<Longrightarrow> z = fixed_zone off \<and> k dvd off"
  shows "TimeBucketExpr d z (k * second) t = time_unix t div k * k"
proof -
  have s: "bucket_seconds (k * second) = k"
    using assms(1) by (simp add: bucket_seconds_def duration_seconds_def quot64_nonneg second_def)
  show ?thesis
  proof (cases d)
    case DialectMySQL
    with assms(3) obtain j where z: "z = fixed_zone (k * j)" by (auto simp: dvd_def)
    have q: "(time_unix t - k * j) div k = time_unix t div k - j"
      using div_mult_self2 [of k "time_unix t" "- j"] assms(1) by simp
    have "TimeBucketExpr d z (k * second) t = (time_unix t - k * j) div k * k + k * j"
      by (simp add: TimeBucketExpr_def s DialectMySQL z fixed_zone_def)
    also have "\<dots> = time_unix t div k * k" unfolding q by (simp add: left_diff_distrib)
    finally show ?thesis .
  qed (use assms(1,2) in \<open>simp_all add: TimeBucketExpr_def s quot64_nonneg\<close>)
qed

lemma TimeBucketExpr_shifted:
  assumes "0 < k"
  shows "TimeBucketExpr DialectMySQL (fixed_zone off) (k * second) t mod k = off mod k"
proof -
  have "bucket_seconds (k * second) = k"
    using assms by (simp add: bucket_seconds_def duration_seconds_def quot64_nonneg second_def)
  then show ?thesis by (simp add: TimeBucketExpr_def fixed_zone_def)
qed

text \<open>What \<open>Metrics\<close> returns on a healthy database, with whole seconds as the bucket.\<close>

lemma repo_Metrics_points:
  assumes "healthy r" and "repo_Metrics now f r = (MetricsOK m, r')"
    and "mf_Bucket (normalizeMetricsFilter f now) = k * second" and "0 < k"
    and "unix_time 0 \<le> mf_From (normalizeMetricsFilter f now)"
  defines "f' \<equiv> normalizeMetricsFilter f now"
  defines "start \<equiv> time_unix (mf_From f') div k * k"
  defines "us \<equiv> map (\<lambda>i. start + int i * k) [0..<nat ((mf_To f' - unix_time start) div (k * second) + 1)]"
  defines "rows \<equiv> metric_rows (rp_dialect r) f' (rp_tables r)"
  defines "bk \<equiv> \<lambda>x :: rollup_row. TimeBucketExpr (rp_dialect r) (rp_zone r) (k * second) (rk_BucketStart (rr_key x))"
  shows "map mp_Count (me_Points m) = map (\<lambda>u. \<Sum>x\<leftarrow>filter (\<lambda>x. bk x = u) rows. rr_Count x) us"
    and "sm_Total (me_Summary m) = (\<Sum>x\<leftarrow>rows. rr_Count x)"
proof -
  let ?c = "bucket_counts (rp_dialect r) (rp_zone r) f' (rp_tables r)"
  have bs: "mf_Bucket f' = k * second" by (simp add: f'_def assms(3))
  have ds: "duration_seconds (k * second) = k" using assms(4) by (simp add: duration_seconds_def quot64_nonneg second_def)
  have "0 \<le> time_unix (mf_From f')" using assms(5) by (simp add: f'_def unix_time_le)
  then have st: "bucketStart (mf_From f') (k * second) = Some (unix_time start)"
    using assms(4) by (simp add: bucketStart_def ds start_def quot64_nonneg)
  have pos: "0 < k * second" using assms(4) by (simp add: second_def)
  obtain r2 where "repo_Metrics now f r = (MetricsOK
      \<lparr>me_From = mf_From f', me_To = mf_To f', me_Bucket = k * second,
       me_Points = points_loop ?c (k * second) (mf_To f') (unix_time start),
       me_Summary = summary_of (rp_dialect r) rr_Count (rk_Action \<circ> rr_key) (rk_Result \<circ> rr_key)
         (rk_StatusCode \<circ> rr_key) rows\<rparr>, r2)"
    using repo_Metrics_healthy [OF assms(1), of f' "unix_time start" f now] bs st
    unfolding f'_def [symmetric] rows_def by auto
  with assms(2) have m: "me_Points m = points_loop ?c (k * second) (mf_To f') (unix_time start)"
      "sm_Total (me_Summary m) = (\<Sum>x\<leftarrow>rows. rr_Count x)"
    by (auto simp: summary_of_def sum_when_def Let_def)
  have tu: "time_unix (unix_time start + int i * (k * second)) = start + int i * k" for i
  proof -
    have "unix_time start + int i * (k * second) = unix_time (start + int i * k)"
      by (simp add: unix_time_def second_def algebra_simps)
    then show ?thesis by simp
  qed
  show "map mp_Count (me_Points m) = map (\<lambda>u. \<Sum>x\<leftarrow>filter (\<lambda>x. bk x = u) rows. rr_Count x) us"
    unfolding m(1) points_loop_eq [OF pos] us_def
    by (simp add: comp_def tu bucket_counts_def bk_def rows_def bs)
  show "sm_Total (me_Summary m) = (\<Sum>x\<leftarrow>rows. rr_Count x)" by (rule m(2))
qed

text \<open>
  C37. The chart loses nothing, unless the database session has a zone the code did not choose: on a
  healthy database, when the (normalised) bucket is \<open>k\<close> whole seconds and the interval starts in 1970
  or later on the clock of UTC and of the session, the counts of the points of \<open>Metrics\<close> add up to the total of its summary, so that every
  rollup of the interval is in exactly one point.  With MySQL/MariaDB this needs a session zone whose
  offset is a multiple of the bucket, such as UTC; with any other fixed offset every point is zero.
\<close>

theorem metrics_points_complete:
  assumes "healthy r" and "repo_Metrics now f r = (MetricsOK m, r')"
    and "mf_Bucket (normalizeMetricsFilter f now) = k * second" and "0 < k"
    and "unix_time 0 \<le> mf_From (normalizeMetricsFilter f now)"
    and "rp_dialect r = DialectMySQL \<longrightarrow>
      rp_zone r = fixed_zone off \<and> unix_time off \<le> mf_From (normalizeMetricsFilter f now)"
  shows "if rp_dialect r = DialectMySQL \<and> \<not> k dvd off
    then list_all (\<lambda>p. mp_Count p = 0) (me_Points m)
    else (\<Sum>p\<leftarrow>me_Points m. mp_Count p) = sm_Total (me_Summary m)"
proof -
  define f' where "f' = normalizeMetricsFilter f now"
  define rows where "rows = metric_rows (rp_dialect r) f' (rp_tables r)"
  define bk where "bk = (\<lambda>x :: rollup_row. TimeBucketExpr (rp_dialect r) (rp_zone r) (k * second) (rk_BucketStart (rr_key x)))"
  define uf where "uf = time_unix (mf_From f')"
  define start where "start = uf div k * k"
  define n where "n = nat ((mf_To f' - unix_time start) div (k * second) + 1)"
  define us where "us = map (\<lambda>i. start + int i * k) [0..<n]"
  have counts: "map mp_Count (me_Points m) = map (\<lambda>u. \<Sum>x\<leftarrow>filter (\<lambda>x. bk x = u) rows. rr_Count x) us"
    and total: "sm_Total (me_Summary m) = (\<Sum>x\<leftarrow>rows. rr_Count x)"
    using repo_Metrics_points [OF assms(1-5)]
    by (simp_all add: rows_def bk_def us_def n_def start_def uf_def f'_def)
  show ?thesis
  proof (cases "rp_dialect r = DialectMySQL \<and> \<not> k dvd off")
    case True
    have "u mod k = 0" if "u \<in> set us" for u using that by (auto simp: us_def start_def)
    moreover have "bk x mod k \<noteq> 0" for x
      using True assms(6) TimeBucketExpr_shifted [OF assms(4), of off] by (simp add: bk_def dvd_eq_mod_eq_0)
    ultimately have none: "filter (\<lambda>x. bk x = u) rows = []" if "u \<in> set us" for u
      using that by (auto simp: filter_empty_conv)
    have "map mp_Count (me_Points m) = map (\<lambda>u. 0) us"
      unfolding counts by (intro map_cong refl) (simp add: none)
    then have "list_all (\<lambda>c. c = 0) (map mp_Count (me_Points m))" by (simp add: list_all_iff)
    with True show ?thesis by (simp add: list_all_iff)
  next
    case False
    have pos: "0 < k * second" using assms(4) by (simp add: second_def)
    have uf: "0 \<le> uf" using assms(5) by (simp add: uf_def f'_def unix_time_le)
    have "(\<Sum>p\<leftarrow>me_Points m. mp_Count p) = (\<Sum>x\<leftarrow>rows. rr_Count x)"
      unfolding counts
    proof (rule sum_by_key)
      show "distinct us" using assms(4) by (simp add: us_def distinct_map inj_on_def)
      show "\<forall>x \<in> set rows. bk x \<in> set us"
      proof
        fix x assume "x \<in> set rows"
        then have x: "mf_From f' \<le> rk_BucketStart (rr_key x)" "rk_BucketStart (rr_key x) \<le> mf_To f'"
          by (simp_all add: rows_def metric_rows_def)
        define u where "u = time_unix (rk_BucketStart (rr_key x))"
        have u: "uf \<le> u" unfolding uf_def u_def by (rule time_unix_mono [OF x(1)])
        note bp = bucket_point [OF assms(4) uf u]
        have bx: "bk x = u div k * k"
          unfolding bk_def u_def
          by (rule TimeBucketExpr_floor [OF assms(4)]) (use uf u assms(6) False in \<open>auto simp: u_def\<close>)
        define i where "i = u div k - uf div k"
        have "unix_time (start + i * k) \<le> mf_To f'"
          using bp(2,3) x(2) by (simp add: start_def i_def unix_time_le) (metis order.trans time_unix_mono u_def)
        then have "i * (k * second) \<le> mf_To f' - unix_time start"
          by (simp add: unix_time_def second_def algebra_simps)
        then have "i \<le> (mf_To f' - unix_time start) div (k * second)"
          using zdiv_mono1 [OF _ pos] pos by (metis less_irrefl nonzero_mult_div_cancel_right)
        then have "nat i < n" using bp(1) by (simp add: n_def i_def)
        moreover have "bk x = start + int (nat i) * k" using bp(1,2) bx by (simp add: start_def i_def)
        ultimately show "bk x \<in> set us" unfolding us_def set_map set_upt by (intro image_eqI [of _ _ "nat i"]) simp_all
      qed
    qed
    with False total show ?thesis by (simp del: de_Morgan_conj)
  qed
qed

definition demo_rollup :: "int \<Rightarrow> string \<Rightarrow> int \<Rightarrow> rollup_row" where
  "demo_rollup minutes action count =
     \<lparr>rr_key = \<lparr>rk_BucketStart = unix_time (60 * minutes), rk_BucketSize = 60, rk_Endpoint = ''/x'', rk_Method = ''POST'',
        rk_Action = action, rk_Result = ''success'', rk_StatusClass = ''2xx'', rk_StatusCode = 200\<rparr>, rr_Count = count\<rparr>"

definition demo_chart_repo :: repository where
  "demo_chart_repo = demo_query_repo\<lparr>rp_tables := (rp_tables demo_query_repo)\<lparr>tb_rollups :=
     [demo_rollup 10 ''exchange.request'' 3, demo_rollup 11 ''verify.request'' 4, demo_rollup 17 ''exchange.request'' 5,
      demo_rollup 17 ''turnstile.verify'' 7]\<rparr>\<rparr>"

definition demo_metrics_filter :: MetricsFilter where
  "demo_metrics_filter = \<lparr>mf_From = unix_time 600, mf_To = unix_time 1200, mf_Bucket = 5 * minute, mf_Endpoint = [],
     mf_Method = [], mf_Result = [], mf_StatusClass = []\<rparr>"

theorem metrics_points_complete_witness:
  "\<exists>m r'. repo_Metrics 0 demo_metrics_filter demo_chart_repo = (MetricsOK m, r') \<and>
     (\<Sum>p\<leftarrow>me_Points m. mp_Count p) = sm_Total (me_Summary m) \<and> sm_Total (me_Summary m) = 12"
proof -
  let ?f = "normalizeMetricsFilter demo_metrics_filter 0"
  have f: "mf_Bucket ?f = 300 * second" "mf_From ?f = unix_time 600"
    by (simp_all add: normalizeMetricsFilter_def demo_metrics_filter_def is_zero_def zero_time_def unix_time_def
        unix_epoch_seconds_def duration_units)
  have h: "healthy demo_chart_repo" by (simp add: healthy_def demo_chart_repo_def demo_query_repo_def)
  have st: "bucketStart (mf_From ?f) (mf_Bucket ?f) = Some (unix_time 600)"
    unfolding f by (simp add: bucketStart_def duration_seconds_def quot64_nonneg second_def)
  obtain m r' where m: "repo_Metrics 0 demo_metrics_filter demo_chart_repo = (MetricsOK m, r')"
      "me_Summary m = summary_of (rp_dialect demo_chart_repo) rr_Count (rk_Action \<circ> rr_key) (rk_Result \<circ> rr_key)
         (rk_StatusCode \<circ> rr_key) (metric_rows (rp_dialect demo_chart_repo) ?f (rp_tables demo_chart_repo))"
    using repo_Metrics_healthy [OF h st refl] by auto
  have "sm_Total (summary_of (rp_dialect demo_chart_repo) rr_Count (rk_Action \<circ> rr_key) (rk_Result \<circ> rr_key)
         (rk_StatusCode \<circ> rr_key) (metric_rows (rp_dialect demo_chart_repo) ?f (rp_tables demo_chart_repo))) = 12"
    by code_simp
  moreover have "(\<Sum>p\<leftarrow>me_Points m. mp_Count p) = sm_Total (me_Summary m)"
    using metrics_points_complete [OF h m(1) f(1), of 0]
    by (simp add: f(2) unix_time_def second_def demo_chart_repo_def demo_query_repo_def)
  ultimately show ?thesis using m by auto
qed

text \<open>
  A positive bucket below one second is not replaced by \<open>normalizeMetricsFilter\<close> but is zero
  seconds, and the division in \<open>bucketStart\<close> panics.
\<close>

lemma metrics_small_bucket_panics:
  assumes "healthy r" and "0 < mf_Bucket f" and "mf_Bucket f < second"
  shows "fst (repo_Metrics now f r) = MetricsPanic"
proof -
  have "mf_Bucket (normalizeMetricsFilter f now) = mf_Bucket f"
    using assms(2) by (simp add: normalizeMetricsFilter_def Let_def)
  moreover have "duration_seconds (mf_Bucket f) = 0"
    using assms(2,3) by (simp add: duration_seconds_def quot64_nonneg second_def div_pos_pos_trivial)
  ultimately have "bucketStart t (mf_Bucket (normalizeMetricsFilter f now)) = None" for t
    by (simp add: bucketStart_def)
  then show ?thesis
    using assms(1) by (simp add: repo_Metrics_def rollupSummary_def query_healthy Let_def)
qed

end
