(* ===== verification/AuditReader.thy ===== *)
theory AuditReader
  imports AuditAsync AuditQuery
begin

text \<open>
  The recorders as the request handlers use them (the interface \<open>auditReader\<close> of
  \<open>internal/admin/handler.go\<close>, which \<open>SyncRecorder\<close> and \<open>AsyncRecorder\<close> of
  \<open>internal/audit/recorder.go\<close> provide): recording, reading and resetting go to one repository.  A
  call on an asynchronous recorder is a sequence of its steps: the caller's own, and the work that
  the writer owes while the caller waits for it.  Steps of other requests in between are the subject
  of the theory \<open>AuditAsync\<close>.
\<close>

section \<open>Calls of an asynchronous recorder\<close>

text \<open>The writer finishes the drain and the flush it is in.\<close>

definition writer_settle :: "AsyncConfig \<Rightarrow> 's repo_ops \<Rightarrow> 's async_state \<Rightarrow> 's async_state" where
  "writer_settle cfg ops s =
     (case as_writer s of
        W_Drain k \<Rightarrow> writer_run_flush cfg ops (\<lambda>_. False) k ((writer_drain k ^^ Suc (length (as_items s))) s)
      | W_Flush k \<Rightarrow> writer_run_flush cfg ops (\<lambda>_. False) k s
      | _ \<Rightarrow> s)"

text \<open>\<open>Flush\<close>: the request waits for the writer's \<open>select\<close>; a writer that stops never takes it.\<close>

definition async_Flush :: "AsyncConfig \<Rightarrow> 's repo_ops \<Rightarrow> 's async_state \<Rightarrow> audit_error option \<times> 's async_state" where
  "async_Flush cfg ops s =
     (if as_closed s then (Some RecorderClosed, s)
      else let s1 = writer_settle cfg ops (s\<lparr>as_flushers := Suc (as_flushers s)\<rparr>);
               s2 = s1\<lparr>as_flushers := as_flushers s\<rparr>
           in if as_writer s1 \<noteq> W_Select then (Some ContextDone, s2)
              else let s3 = writer_settle cfg ops (s2\<lparr>as_writer := W_Drain K_Request\<rparr>)
                   in (last (as_flush_results s3), s3))"

text \<open>
  \<open>Record\<close>, as far as its return.  When the channel is full the outcome of the wait is the
  environment's; room comes from the writer taking an item.
\<close>

datatype enqueue_wait = WaitSent | WaitContextDone | WaitTimedOut

definition async_Record_call ::
    "AsyncConfig \<Rightarrow> 's repo_ops \<Rightarrow> enqueue_wait \<Rightarrow> string \<Rightarrow> time \<Rightarrow> rng \<Rightarrow> event \<Rightarrow> 's async_state
      \<Rightarrow> audit_error option \<times> 's async_state" where
  "async_Record_call cfg ops wait hex now g e s =
     (let s1 = async_Record hex now g e s
      in if as_pending s1 = as_pending s then (None, s1)
         else let item = last (as_pending s1); s2 = enqueue_try cfg item s1
              in if as_blocked s2 = as_blocked s1 then (None, s2)
                 else case wait of
                        WaitContextDone \<Rightarrow> (Some ContextDone, enqueue_context_done item s2)
                      | WaitTimedOut \<Rightarrow> (None, enqueue_timed_out item s2)
                      | WaitSent \<Rightarrow>
                          let s3 = writer_settle cfg ops s2
                          in if as_writer s3 \<noteq> W_Select \<or> as_items s3 = [] then (None, enqueue_timed_out item s3)
                             else let s4 = writer_receive cfg s3
                                  in (None, if int (length (as_items s4)) < ac_ChannelSize cfg
                                            then enqueue_sent item s4 else enqueue_timed_out item s4))"

section \<open>The two recorders\<close>

datatype audit_recorder =
    SyncRecorder "repository sync_recorder"
  | AsyncRecorder AsyncConfig "repository async_state"

text \<open>What a call reads from its environment: identifier, clock, random numbers, the wait.\<close>

record call_env =
  ce_hex :: string
  ce_now :: time
  ce_rng :: rng
  ce_prepare :: prepare_env
  ce_wait :: enqueue_wait

definition ce_ops :: "call_env \<Rightarrow> repository repo_ops" where
  "ce_ops ce = bun_ops (ce_prepare ce) (ce_now ce)"

fun recorder_repo :: "audit_recorder \<Rightarrow> repository" where
  "recorder_repo (SyncRecorder r) = sr_repo r"
| "recorder_repo (AsyncRecorder cfg s) = as_repo s"

fun on_repo :: "(repository \<Rightarrow> 'a \<times> repository) \<Rightarrow> audit_recorder \<Rightarrow> 'a \<times> audit_recorder" where
  "on_repo f (SyncRecorder r) = (let (x, q) = f (sr_repo r) in (x, SyncRecorder (r\<lparr>sr_repo := q\<rparr>)))"
| "on_repo f (AsyncRecorder cfg s) = (let (x, q) = f (as_repo s) in (x, AsyncRecorder cfg (s\<lparr>as_repo := q\<rparr>)))"

fun recorder_Record :: "call_env \<Rightarrow> event \<Rightarrow> audit_recorder \<Rightarrow> audit_error option \<times> audit_recorder" where
  "recorder_Record ce e (SyncRecorder r) =
     (let (err, r') = sync_Record (ce_ops ce) (ce_hex ce) (ce_now ce) (ce_rng ce) e r in (err, SyncRecorder r'))"
| "recorder_Record ce e (AsyncRecorder cfg s) =
     (let (err, s') = async_Record_call cfg (ce_ops ce) (ce_wait ce) (ce_hex ce) (ce_now ce) (ce_rng ce) e s
      in (err, AsyncRecorder cfg s'))"

text \<open>\<open>Reset\<close> of the asynchronous recorder flushes first; a failed flush keeps everything.\<close>

fun recorder_Reset :: "call_env \<Rightarrow> event \<Rightarrow> audit_recorder \<Rightarrow> audit_error option \<times> audit_recorder" where
  "recorder_Reset ce marker (SyncRecorder r) = on_repo (Reset (ce_hex ce) (ce_now ce) marker) (SyncRecorder r)"
| "recorder_Reset ce marker (AsyncRecorder cfg s) =
     (case async_Flush cfg (ce_ops ce) s of
        (Some err, s') \<Rightarrow> (Some err, AsyncRecorder cfg s')
      | (None, s') \<Rightarrow> on_repo (Reset (ce_hex ce) (ce_now ce) marker) (AsyncRecorder cfg s'))"

section \<open>The calls are runs of the recorder\<close>

lemma writer_drain_iter:
  assumes "as_writer s = W_Drain k" and "n \<le> length (as_items s)"
  shows "as_writer ((writer_drain k ^^ n) s) = W_Drain k \<and> as_items ((writer_drain k ^^ n) s) = drop n (as_items s) \<and>
    as_flushers ((writer_drain k ^^ n) s) = as_flushers s \<and> as_repo ((writer_drain k ^^ n) s) = as_repo s \<and>
    as_blocked ((writer_drain k ^^ n) s) = as_blocked s \<and> async_steps cfg ops s ((writer_drain k ^^ n) s)"
  using assms(2)
proof (induction n)
  case (Suc n)
  let ?t = "(writer_drain k ^^ n) s"
  obtain i where i: "drop n (as_items s) = i # drop (Suc n) (as_items s)"
    using Cons_nth_drop_Suc [symmetric, OF Suc_le_lessD [OF Suc.prems]] by blast
  with Suc have t: "as_writer ?t = W_Drain k" "as_items ?t = i # drop (Suc n) (as_items s)"
      "as_flushers ?t = as_flushers s" "as_repo ?t = as_repo s" "as_blocked ?t = as_blocked s" "async_steps cfg ops s ?t"
    by auto
  from t(6) step_drain [OF t(1)] have "async_steps cfg ops s (writer_drain k ?t)" by (rule rtranclp.rtrancl_into_rtrancl)
  moreover have "writer_drain k ?t = writer_add i (?t\<lparr>as_items := drop (Suc n) (as_items s)\<rparr>)"
    unfolding writer_drain_def [of k ?t] t(2) by simp
  ultimately show ?case using t by (simp add: writer_add_def)
qed (use assms(1) in simp)

lemma writer_drain_all:
  assumes "as_writer s = W_Drain k"
  defines "t \<equiv> (writer_drain k ^^ Suc (length (as_items s))) s"
  shows "as_writer t = W_Flush k" and "as_flushers t = as_flushers s" and "as_repo t = as_repo s"
    and "as_blocked t = as_blocked s" and "async_steps cfg ops s t"
proof -
  note d = writer_drain_iter [OF assms(1) order_refl, of cfg ops]
  have "t = writer_drain k ((writer_drain k ^^ length (as_items s)) s)" by (simp add: t_def)
  with d have t: "t = ((writer_drain k ^^ length (as_items s)) s)\<lparr>as_writer := W_Flush k\<rparr>"
    by (simp add: writer_drain_def [of k "(writer_drain k ^^ length (as_items s)) s"])
  with d show "as_writer t = W_Flush k" "as_flushers t = as_flushers s" "as_repo t = as_repo s"
    "as_blocked t = as_blocked s" by simp_all
  from d step_drain [of "(writer_drain k ^^ length (as_items s)) s" k cfg ops]
  show "async_steps cfg ops s t" unfolding t_def by (auto intro: rtranclp.rtrancl_into_rtrancl)
qed

lemma writer_run_flush_flushers:
  "as_flushers (writer_run_flush cfg ops c k s) = as_flushers s"
  "as_blocked (writer_run_flush cfg ops c k s) = as_blocked s"
  by (auto simp: writer_run_flush_def writer_flush_def Let_def split: prod.split flush_kind.split)

lemma writer_settle_steps: "async_steps cfg ops s (writer_settle cfg ops s)"
proof (cases "as_writer s")
  case (W_Drain k)
  note d = writer_drain_all [OF W_Drain]
  have "async_steps cfg ops s (writer_run_flush cfg ops (\<lambda>_. False) k ((writer_drain k ^^ Suc (length (as_items s))) s))"
    using d(5) [of cfg ops] step_flush [OF d(1)] by (rule rtranclp.rtrancl_into_rtrancl)
  then show ?thesis by (simp add: writer_settle_def W_Drain del: funpow.simps)
next
  case (W_Flush k)
  then show ?thesis using step_flush [OF W_Flush] by (simp add: writer_settle_def r_into_rtranclp)
qed (simp_all add: writer_settle_def)

lemma writer_settle_frame:
  "as_flushers (writer_settle cfg ops s) = as_flushers s" "as_blocked (writer_settle cfg ops s) = as_blocked s"
proof -
  have "as_flushers (writer_settle cfg ops s) = as_flushers s \<and> as_blocked (writer_settle cfg ops s) = as_blocked s"
  proof (cases "as_writer s")
    case (W_Drain k)
    from writer_drain_all(2,4) [OF W_Drain] show ?thesis
      by (simp add: writer_settle_def W_Drain writer_run_flush_flushers del: funpow.simps)
  qed (simp_all add: writer_settle_def writer_run_flush_flushers)
  then show "as_flushers (writer_settle cfg ops s) = as_flushers s" "as_blocked (writer_settle cfg ops s) = as_blocked s"
    by simp_all
qed

lemma async_Flush_steps: "async_steps cfg ops s (snd (async_Flush cfg ops s))"
proof (cases "as_closed s")
  case False
  let ?s0 = "s\<lparr>as_flushers := Suc (as_flushers s)\<rparr>"
  let ?s1 = "writer_settle cfg ops ?s0"
  have 1: "async_steps cfg ops s ?s1"
    using step_flush_call [OF False] writer_settle_steps by (rule converse_rtranclp_into_rtranclp)
  have f: "as_flushers ?s1 = Suc (as_flushers s)" by (simp add: writer_settle_frame)
  show ?thesis
  proof (cases "as_writer ?s1 = W_Select")
    case True
    have "async_steps cfg ops s (?s1\<lparr>as_flushers := as_flushers s, as_writer := W_Drain K_Request\<rparr>)"
      using 1 step_flush_request [OF True f] by (rule rtranclp.rtrancl_into_rtrancl)
    then have "async_steps cfg ops s (writer_settle cfg ops (?s1\<lparr>as_flushers := as_flushers s, as_writer := W_Drain K_Request\<rparr>))"
      using writer_settle_steps by (rule rtranclp_trans)
    with False True show ?thesis by (simp add: async_Flush_def Let_def)
  next
    case no: False
    have "async_steps cfg ops s (?s1\<lparr>as_flushers := as_flushers s\<rparr>)"
      using 1 step_flush_gives_up [OF f] by (rule rtranclp.rtrancl_into_rtrancl)
    with False no show ?thesis by (simp add: async_Flush_def Let_def)
  qed
qed (simp add: async_Flush_def)

lemma async_Record_pending:
  "as_pending (async_Record hex now g e s) \<noteq> as_pending s \<Longrightarrow>
     \<exists>item. as_pending (async_Record hex now g e s) = as_pending s @ [item]"
  by (auto simp: async_Record_def Let_def split: prod.splits if_splits)

lemma enqueue_try_blocked:
  "as_blocked (enqueue_try cfg item s) \<noteq> as_blocked s \<Longrightarrow> item \<in> set (as_blocked (enqueue_try cfg item s))"
  by (auto simp: enqueue_try_def add_enqueued_def drop_item_def Let_def split: if_splits)

lemma async_Record_call_steps:
  "async_steps cfg ops s (snd (async_Record_call cfg ops wait hex now g e s))"
proof -
  let ?s1 = "async_Record hex now g e s"
  define item where "item = last (as_pending ?s1)"
  let ?s2 = "enqueue_try cfg item ?s1"
  let ?s3 = "writer_settle cfg ops ?s2"
  have 1: "async_steps cfg ops s ?s1" by (rule r_into_rtranclp, rule step_record)
  show ?thesis
  proof (cases "as_pending ?s1 = as_pending s")
    case True
    then show ?thesis using 1 by (simp add: async_Record_call_def Let_def)
  next
    case False
    from async_Record_pending [OF False] have "item \<in> set (as_pending ?s1)" by (auto simp: item_def)
    from 1 step_try [OF this] have 2: "async_steps cfg ops s ?s2" by (rule rtranclp.rtrancl_into_rtrancl)
    show ?thesis
    proof (cases "as_blocked ?s2 = as_blocked ?s1")
      case True
      then show ?thesis using 2 False by (simp add: async_Record_call_def item_def [symmetric] Let_def)
    next
      case blocked: False
      then have b: "item \<in> set (as_blocked ?s2)" by (rule enqueue_try_blocked)
      have 3: "async_steps cfg ops s ?s3" by (rule rtranclp_trans [OF 2 writer_settle_steps])
      have b3: "item \<in> set (as_blocked ?s3)" using b by (simp add: writer_settle_frame)
      have b4: "item \<in> set (as_blocked (writer_receive cfg ?s3))"
        using b3 by (simp add: writer_receive_def writer_add_def Let_def)
      note into = rtranclp.rtrancl_into_rtrancl
      have 4: "async_steps cfg ops s (writer_receive cfg ?s3)" if "as_writer ?s3 = W_Select" "as_items ?s3 \<noteq> []"
        by (rule into [OF 3 step_receive [OF that]])
      show ?thesis
        using False blocked into [OF 2 step_context_done [OF b]] into [OF 2 step_timed_out [OF b]]
          into [OF 3 step_timed_out [OF b3]] into [OF 4 step_sent [OF b4]] into [OF 4 step_timed_out [OF b4]]
        by (auto simp: async_Record_call_def item_def [symmetric] Let_def split: enqueue_wait.split)
    qed
  qed
qed

section \<open>Recording only adds rows\<close>

definition grown :: "repository \<Rightarrow> repository \<Rightarrow> bool" where
  "grown r r' \<longleftrightarrow> prefix (tb_events (rp_tables r)) (tb_events (rp_tables r')) \<and>
     rollup_total (rp_tables r) \<le> rollup_total (rp_tables r')"

lemma grown_refl: "grown r r"
  by (simp add: grown_def)

lemma grown_trans: "grown r s \<Longrightarrow> grown s t \<Longrightarrow> grown r t"
  by (auto simp: grown_def intro: prefix_order.trans)

lemma grown_same: "rp_tables r' = rp_tables r \<Longrightarrow> grown r r'"
  by (simp add: grown_def)

lemma AppendAuditBatch_grown:
  assumes "AppendAuditBatch env now es rs r = (err, r')"
  shows "grown r r'"
proof (cases "es = [] \<and> rs = []")
  case True
  then show ?thesis using assms by (simp add: AppendAuditBatch_def grown_refl)
next
  case False
  show ?thesis
  proof (cases "prepareEventModels env 0 es")
    case (Inl e)
    then show ?thesis using assms False by (auto simp: AppendAuditBatch_def grown_refl)
  next
    case (Inr ms)
    have "runInTx (\<lambda>t. Option.bind (insertEventModels (rp_dialect r) ms t)
        (upsertRollupModels (rp_dialect r) (prepareRollupModels now rs))) r = (err, r')"
      using assms False Inr by (auto simp: AppendAuditBatch_def Let_def)
    then show ?thesis
    proof (rule runInTx_cases)
      fix t
      assume "Option.bind (insertEventModels (rp_dialect r) ms (rp_tables r))
          (upsertRollupModels (rp_dialect r) (prepareRollupModels now rs)) = Some t" and t: "rp_tables r' = t"
      then obtain u where "insertEventModels (rp_dialect r) ms (rp_tables r) = Some u"
          "upsertRollupModels (rp_dialect r) (prepareRollupModels now rs) u = Some t"
        by (auto simp: bind_eq_Some_conv)
      from insertEventModels_effect [OF this(1)] upsertRollupModels_effect [OF this(2)] t
      show ?thesis by (auto simp: grown_def rollup_total_def prepareRollupModels_total)
    qed (simp add: grown_same)
  qed
qed

lemma AppendBatch_grown: "AppendBatch env es r = (err, r') \<Longrightarrow> grown r r'"
  using AppendAuditBatch_grown AppendBatch_as_audit_batch by metis

lemma AppendMetricRollups_grown:
  assumes "AppendMetricRollups now rs r = (err, r')"
  shows "grown r r'"
  using AppendMetricRollups_cases [OF assms]
  by (auto simp: grown_same grown_def batch_applied_def)

lemma flushOnce_grown:
  "flushOnce (bun_ops env now) es rs (st, r) = (err, st', r') \<Longrightarrow> grown r r'"
  by (auto simp: flushOnce_def bun_ops_def split: prod.splits option.splits dest: AppendAuditBatch_grown)

lemma retry_loop_grown:
  "retry_loop cfg (bun_ops env now) cancelled es rs attempt left lastErr backoff (st, r) = (err, waits, st', r') \<Longrightarrow>
     grown r r'"
proof (induction left arbitrary: attempt lastErr backoff st r err waits st' r')
  case (Suc left)
  obtain e st1 r1 where o1: "flushOnce (bun_ops env now) es rs (st, r) = (e, st1, r1)"
    by (cases "flushOnce (bun_ops env now) es rs (st, r)") auto
  note g = flushOnce_grown [OF o1]
  show ?case
  proof (cases "e = None \<or> left = 0 \<or> cancelled attempt")
    case True
    then show ?thesis using Suc.prems o1 g by (auto simp: Let_def split: option.splits if_splits)
  next
    case False
    then obtain err0 where e: "e = Some err0" by auto
    obtain err' waits' st2 r2 where rec: "retry_loop cfg (bun_ops env now) cancelled es rs (Suc attempt) left (Some err0)
        (next_backoff cfg backoff) (st1\<lparr>st_RetryTotal := st_RetryTotal st1 + 1\<rparr>, r1) = (err', waits', st2, r2)"
      using prod_cases4 by blast
    have "r' = r2" using Suc.prems o1 e False rec by (auto simp: Let_def)
    with grown_trans [OF g Suc.IH [OF rec]] show ?thesis by simp
  qed
qed (simp add: grown_refl)

lemma async_step_grown:
  assumes "async_step cfg (bun_ops env now) s t"
  shows "grown (as_repo s) (as_repo t)"
  using async_step_frame [OF assms]
proof (elim disjE exE conjE)
  fix k c
  assume t: "t = writer_run_flush cfg (bun_ops env now) c k s"
  have f: "grown (as_repo s) (as_repo u)" if "writer_flush cfg (bun_ops env now) c' s = (err, u)" for c' err u
    using that retry_loop_grown
    by (auto simp: writer_flush_def flushWithRetry_def grown_refl Let_def split: if_splits prod.splits)
  then show ?thesis
    by (auto simp: t writer_run_flush_def split: prod.split flush_kind.split)
qed (simp add: grown_refl)

lemma async_steps_grown: "async_steps cfg (bun_ops env now) s t \<Longrightarrow> grown (as_repo s) (as_repo t)"
  by (induction rule: rtranclp_induct) (auto intro: grown_refl grown_trans async_step_grown)

text \<open>A synchronous call stores at most one row.\<close>

lemma insertEventModels_length:
  "insertEventModels d ms t = Some t' \<Longrightarrow> length (tb_events t') \<le> length (tb_events t) + length ms"
proof -
  have "length (tb_events (fold insert_event ms t)) \<le> length (tb_events t) + length ms"
  proof (induction ms arbitrary: t)
    case (Cons m ms)
    have "length (tb_events (insert_event m t)) \<le> Suc (length (tb_events t))" by (simp add: insert_event_def)
    with Cons [of "insert_event m t"] show ?case by simp
  qed simp
  then show "insertEventModels d ms t = Some t' \<Longrightarrow> length (tb_events t') \<le> length (tb_events t) + length ms"
    by (auto simp: insertEventModels_def split: if_splits)
qed

lemma prepareEventModels_length: "prepareEventModels env i es = Inr ms \<Longrightarrow> length ms = length es"
  by (induction env i es arbitrary: ms rule: prepareEventModels.induct) (auto simp: rbind_Inr_iff)

lemma AppendAuditBatch_length:
  assumes "AppendAuditBatch env now es rs r = (err, r')"
  shows "length (tb_events (rp_tables r')) \<le> length (tb_events (rp_tables r)) + length es"
proof (cases "es = [] \<and> rs = []")
  case True
  then show ?thesis using assms by (simp add: AppendAuditBatch_def)
next
  case False
  show ?thesis
  proof (cases "prepareEventModels env 0 es")
    case (Inl e)
    then show ?thesis using assms False by (auto simp: AppendAuditBatch_def)
  next
    case (Inr ms)
    have "runInTx (\<lambda>t. Option.bind (insertEventModels (rp_dialect r) ms t)
        (upsertRollupModels (rp_dialect r) (prepareRollupModels now rs))) r = (err, r')"
      using assms False Inr by (auto simp: AppendAuditBatch_def Let_def)
    then show ?thesis
    proof (rule runInTx_cases)
      fix t
      assume "Option.bind (insertEventModels (rp_dialect r) ms (rp_tables r))
          (upsertRollupModels (rp_dialect r) (prepareRollupModels now rs)) = Some t" and t: "rp_tables r' = t"
      then obtain u where "insertEventModels (rp_dialect r) ms (rp_tables r) = Some u"
          "upsertRollupModels (rp_dialect r) (prepareRollupModels now rs) u = Some t"
        by (auto simp: bind_eq_Some_conv)
      from insertEventModels_length [OF this(1)] upsertRollupModels_effect [OF this(2)] t prepareEventModels_length [OF Inr]
      show ?thesis by simp
    qed simp
  qed
qed

lemma AppendMetricRollups_events:
  "AppendMetricRollups now rs r = (err, r') \<Longrightarrow> tb_events (rp_tables r') = tb_events (rp_tables r)"
  by (auto simp: AppendMetricRollups_def Let_def split: if_splits elim!: runInTx_cases dest!: upsertRollupModels_effect)

definition one_more :: "repository \<Rightarrow> repository \<Rightarrow> bool" where
  "one_more r r' \<longleftrightarrow> length (tb_events (rp_tables r')) \<le> Suc (length (tb_events (rp_tables r)))"

lemma sync_Record_grown:
  assumes "sync_Record (bun_ops env now') hex now g e r = (err, r')"
  shows "grown (sr_repo r) (sr_repo r')" and "one_more (sr_repo r) (sr_repo r')"
proof -
  obtain d p where d: "DecideOpt (PrepareEvent hex now e) (sr_policy r) g = (d, p)" by fastforce
  let ?e = "PrepareEvent hex now e"
  obtain e1 r1 where m: "AppendMetricRollups now' [NewMetricRollup ?e] (sr_repo r) = (e1, r1)" by fastforce
  obtain e2 r2 where a: "AppendAuditBatch env now' [?e] [NewMetricRollup ?e] (sr_repo r) = (e2, r2)" by fastforce
  obtain e3 r3 where b: "AppendBatch env [?e] (sr_repo r) = (e3, r3)" by fastforce
  have b': "AppendAuditBatch env now' [?e] [] (sr_repo r) = (e3, r3)"
    using b AppendBatch_as_audit_batch [of env "[?e]" now'] by simp
  have "sr_repo r' \<in> {sr_repo r, r1, r2, r3}"
    using assms d m a b by (auto simp: sync_Record_def bun_ops_def Let_def split: if_splits)
  moreover have "grown (sr_repo r) r1" "grown (sr_repo r) r2" "grown (sr_repo r) r3"
    by (rule AppendMetricRollups_grown [OF m], rule AppendAuditBatch_grown [OF a], rule AppendBatch_grown [OF b])
  moreover have "one_more (sr_repo r) r1" "one_more (sr_repo r) r2" "one_more (sr_repo r) r3"
    using AppendMetricRollups_events [OF m] AppendAuditBatch_length [OF a] AppendAuditBatch_length [OF b']
    by (simp_all add: one_more_def)
  moreover have "one_more (sr_repo r) (sr_repo r)" by (simp add: one_more_def)
  ultimately show "grown (sr_repo r) (sr_repo r')" "one_more (sr_repo r) (sr_repo r')"
    using grown_refl by auto
qed

text \<open>What a call keeps: all rows, and of a synchronous recorder at most one row more.\<close>

definition kept_log :: "audit_recorder \<Rightarrow> audit_recorder \<Rightarrow> bool" where
  "kept_log a a' \<longleftrightarrow> grown (recorder_repo a) (recorder_repo a') \<and>
     (case a of SyncRecorder r \<Rightarrow> one_more (recorder_repo a) (recorder_repo a') | _ \<Rightarrow> True)"

lemma kept_log_same: "rp_tables (recorder_repo a') = rp_tables (recorder_repo a) \<Longrightarrow> kept_log a a'"
  by (cases a) (auto simp: kept_log_def grown_def one_more_def)

lemma recorder_Record_kept: "recorder_Record ce e a = (err, a') \<Longrightarrow> kept_log a a'"
proof (cases a)
  case (SyncRecorder r)
  assume "recorder_Record ce e a = (err, a')"
  with SyncRecorder obtain r' where
    "sync_Record (ce_ops ce) (ce_hex ce) (ce_now ce) (ce_rng ce) e r = (err, r')" "a' = SyncRecorder r'"
    by (auto split: prod.splits)
  with sync_Record_grown [of "ce_prepare ce" "ce_now ce"] SyncRecorder show ?thesis
    by (auto simp: kept_log_def ce_ops_def)
next
  case (AsyncRecorder cfg s)
  assume "recorder_Record ce e a = (err, a')"
  with AsyncRecorder obtain s' where
    "s' = snd (async_Record_call cfg (ce_ops ce) (ce_wait ce) (ce_hex ce) (ce_now ce) (ce_rng ce) e s)"
    "a' = AsyncRecorder cfg s'"
    by (auto split: prod.splits)
  then show ?thesis
    using AsyncRecorder async_steps_grown [OF async_Record_call_steps [of cfg "ce_ops ce" s, unfolded ce_ops_def]]
    by (simp add: kept_log_def ce_ops_def)
qed

text \<open>A call that answers from the tables and leaves them alone.\<close>

lemma on_repo_kept:
  assumes "on_repo f a = (x, a')" and "\<And>y r'. f (recorder_repo a) = (y, r') \<Longrightarrow> rp_tables r' = rp_tables (recorder_repo a)"
  shows "rp_tables (recorder_repo a') = rp_tables (recorder_repo a)"
  using assms by (cases a) (auto split: prod.splits)

lemma on_repo_result: "fst (on_repo f a) = fst (f (recorder_repo a))"
  by (cases a) (simp_all add: split_beta Let_def)

text \<open>A reset keeps the log, or leaves the marker alone.\<close>

definition reset_log :: "event \<Rightarrow> audit_recorder \<Rightarrow> bool" where
  "reset_log marker a \<longleftrightarrow> tb_rollups (rp_tables (recorder_repo a)) = [] \<and>
     (\<exists>m. tb_events (rp_tables (recorder_repo a)) = [m] \<and> er_Action m = ev_Action marker \<and>
       er_Actor m = (if ev_Actor marker = [] then ''anonymous'' else ev_Actor marker))"

lemma recorder_Reset_effect:
  assumes "recorder_Reset ce marker a = (err, a')"
  shows "(err \<noteq> None \<and> kept_log a a') \<or> reset_log marker a'"
proof (cases a)
  case (SyncRecorder r)
  obtain e q where q: "Reset (ce_hex ce) (ce_now ce) marker (sr_repo r) = (e, q)" by fastforce
  with assms SyncRecorder have a: "err = e" "a' = SyncRecorder (r\<lparr>sr_repo := q\<rparr>)" by auto
  from Reset_effect [OF q] show ?thesis
    using a SyncRecorder by (auto simp: reset_log_def intro: kept_log_same)
next
  case (AsyncRecorder cfg s)
  obtain fe s' where f: "async_Flush cfg (ce_ops ce) s = (fe, s')" by fastforce
  have g: "grown (as_repo s) (as_repo s')"
    using async_steps_grown [OF async_Flush_steps [of cfg "ce_ops ce" s, unfolded ce_ops_def]] f by (simp add: ce_ops_def)
  show ?thesis
  proof (cases fe)
    case (Some x)
    then show ?thesis using assms AsyncRecorder f g by (auto simp: kept_log_def)
  next
    case None
    obtain e q where q: "Reset (ce_hex ce) (ce_now ce) marker (as_repo s') = (e, q)" by fastforce
    with assms AsyncRecorder f None have a: "err = e" "a' = AsyncRecorder cfg (s'\<lparr>as_repo := q\<rparr>)" by auto
    from Reset_effect [OF q] show ?thesis
      using a AsyncRecorder g by (auto simp: reset_log_def kept_log_def intro: grown_trans grown_same)
  qed
qed

end
