(* ===== verification/Admin.thy ===== *)
theory Admin
  imports Middleware AuditReader GoBind
begin

text \<open>
  The administration API and dashboard (\<open>internal/admin\<close>, \<open>internal/adminui\<close>).  The state of a
  request is its gin context with the identity the middleware stored, the query parameters, the
  reply written, and the state of the audit recorder.  Recording, reading and resetting go through
  one interface to that state (\<open>auditReader\<close>, a \<open>Recorder\<close> that also reads), which the synchronous and
  the asynchronous recorder provide below; a recorder that does not read is the \<open>NoopRecorder\<close>.  What the build or the time zone
  database supplies (version, commit, the formatted time, the embedded files) is a parameter.
\<close>

section \<open>State\<close>

record Identity =
  id_User :: string
  id_Email :: string
  id_Groups :: "string list"
  id_AuthMode :: string
  id_AuthDisabled :: bool

datatype next_cursor = NoNext | NextOffset int | NextText cursor_text

record me_reply =
  rep_mode :: string
  rep_identity :: Identity
  rep_version :: string
  rep_commit :: string
  rep_shortCommit :: string
  rep_commitURL :: string
  rep_releaseTagURL :: string
  rep_timestampFormat :: string

datatype admin_reply =
    AdminError string
  | MeReply me_reply
  | OptionsReply "string list" "string list" "string list"
  | MetricsReply Metrics
  | EventsReply "(event \<times> string) list" int next_cursor bool
  | EventReply "event \<times> string"
  | ResetReply
  | ConfigJS string string
  | Redirect string
  | Asset string

record 's admin_state =
  ax_gin :: gin_context
  ax_Identity :: "Identity option"
  ax_Query :: "string \<Rightarrow> string"
  ax_Cursor :: cursor_text
  ax_Param :: string
  ax_Reply :: "admin_reply option"
  ax_Audit :: 's

text \<open>The operations of \<open>auditReader\<close> that the handlers call.\<close>

record 's audit_reader =
  rd_Record :: "event \<Rightarrow> 's \<Rightarrow> audit_error option \<times> 's"
  rd_List :: "Filter \<Rightarrow> 's \<Rightarrow> (audit_error + Page) \<times> 's"
  rd_Get :: "string \<Rightarrow> 's \<Rightarrow> (audit_error + event option) \<times> 's"
  rd_Metrics :: "MetricsFilter \<Rightarrow> 's \<Rightarrow> metrics_result \<times> 's"
  rd_Reset :: "event \<Rightarrow> 's \<Rightarrow> audit_error option \<times> 's"

record build_info =
  bi_value :: string
  bi_commit :: string

record 's Handler =
  hd_cfg :: Config
  hd_auditRead :: "'s audit_reader option"
  hd_build :: build_info
  hd_load_location :: "string \<Rightarrow> string option"
  hd_format :: "string \<Rightarrow> string \<Rightarrow> time \<Rightarrow> string"

definition set_gin :: "(gin_context \<Rightarrow> gin_context) \<Rightarrow> 's admin_state \<Rightarrow> 's admin_state" where
  "set_gin f a = a\<lparr>ax_gin := f (ax_gin a)\<rparr>"

definition admin_json :: "int \<Rightarrow> admin_reply \<Rightarrow> 's admin_state \<Rightarrow> 's admin_state" where
  "admin_json status reply a =
     a\<lparr>ax_gin := (ax_gin a)\<lparr>cx_Status := status\<rparr>, ax_Reply := Some reply\<rparr>"

definition admin_abort :: "int \<Rightarrow> admin_reply \<Rightarrow> 's admin_state \<Rightarrow> 's admin_state" where
  "admin_abort status reply a = set_gin (\<lambda>c. c\<lparr>cx_Aborted := True\<rparr>) (admin_json status reply a)"

text \<open>The effect of \<open>Record\<close> on the recorder, whose error is only logged.\<close>

definition record_event :: "'s Handler \<Rightarrow> event \<Rightarrow> 's \<Rightarrow> 's" where
  "record_event h e s =
     (if \<not> au_Enabled (cf_Audit (hd_cfg h)) then s
      else case hd_auditRead h of None \<Rightarrow> s | Some rd \<Rightarrow> snd (rd_Record rd e s))"

definition admin_record :: "'s Handler \<Rightarrow> event \<Rightarrow> 's admin_state \<Rightarrow> 's admin_state" where
  "admin_record h e a =
     (set_gin (recordAudit (au_Enabled (cf_Audit (hd_cfg h))) e) a)\<lparr>ax_Audit := record_event h e (ax_Audit a)\<rparr>"

section \<open>Authentication\<close>

definition splitHeaderGroups :: "string \<Rightarrow> string list" where
  "splitHeaderGroups value = filter (\<lambda>p. p \<noteq> []) (map trim_space (split_on CHR '','' value))"

text \<open>The set of the trimmed, lower-case, non-empty names.\<close>

definition name_set :: "string list \<Rightarrow> string list" where
  "name_set names = filter (\<lambda>n. n \<noteq> []) (map (\<lambda>n. to_lower (trim_space n)) names)"

definition allowed :: "Identity \<Rightarrow> string list \<Rightarrow> string list \<Rightarrow> bool" where
  "allowed identity users groups =
     (if to_lower (id_User identity) \<in> set (name_set users) then True
      else if id_Email identity \<noteq> [] \<and> to_lower (id_Email identity) \<in> set (name_set users) then True
      else list_ex (\<lambda>g. to_lower (trim_space g) \<in> set (name_set groups)) (id_Groups identity))"

definition anonymous :: Identity where
  "anonymous = \<lparr>id_User = ''anonymous'', id_Email = [], id_Groups = [], id_AuthMode = ''none'', id_AuthDisabled = True\<rparr>"

definition IdentityFromRequest :: "gin_context \<Rightarrow> AdminAuthConfig \<Rightarrow> Identity \<times> int \<times> bool" where
  "IdentityFromRequest c auth =
     (let mode = to_lower (trim_space (aa_Mode auth))
      in if mode = ''none'' then (anonymous, 200, True)
         else if mode \<noteq> ''header''
         then (\<lparr>id_User = [], id_Email = [], id_Groups = [], id_AuthMode = mode, id_AuthDisabled = False\<rparr>, 403, False)
         else
           let user0 = trim_space (GetHeader c (aa_UserHeader auth));
               email = trim_space (GetHeader c (aa_EmailHeader auth));
               groups = splitHeaderGroups (GetHeader c (aa_GroupsHeader auth));
               user = (if user0 = [] then email else user0);
               identity = \<lparr>id_User = user, id_Email = email, id_Groups = groups, id_AuthMode = ''header'',
                           id_AuthDisabled = False\<rparr>
           in if user = [] then (identity, 401, False)
              else if allowed identity (aa_AllowedUsers auth) (aa_AllowedGroups auth) then (identity, 200, True)
              else (identity, 403, False))"

definition currentIdentity :: "'s admin_state \<Rightarrow> Identity" where
  "currentIdentity a =
     (case ax_Identity a of
        None \<Rightarrow> anonymous
      | Some identity \<Rightarrow> if id_User identity = [] then identity\<lparr>id_User := ''anonymous''\<rparr> else identity)"

definition denied_event :: "Config \<Rightarrow> Identity \<Rightarrow> int \<Rightarrow> gin_context \<Rightarrow> event" where
  "denied_event cfg identity status c =
     zero_event\<lparr>ev_Actor := (if id_User identity = [] then ''anonymous'' else id_User identity),
        ev_ActorSource := ''admin:'' @ aa_Mode (ad_Auth (cf_Admin cfg)), ev_Action := ''admin.access.denied'',
        ev_Method := rq_Method (cx_Request c), ev_Path := rq_Path (cx_Request c),
        ev_Endpoint := rq_FullPath (cx_Request c), ev_StatusCode := status, ev_Result := ResultDenied,
        ev_RemoteAddr := clientAddress c, ev_UserAgent := GetHeader c ''User-Agent'', ev_RequestID := requestID c,
        ev_ErrorCode := ''admin_access_denied'', ev_Message := ''Denied admin access''\<rparr>"

definition required :: "'s Handler \<Rightarrow> ('s admin_state \<Rightarrow> 's admin_state) \<Rightarrow> 's admin_state \<Rightarrow> 's admin_state" where
  "required h next a =
     (let (identity, status, ok) = IdentityFromRequest (ax_gin a) (ad_Auth (cf_Admin (hd_cfg h)))
      in if ok then next (a\<lparr>ax_Identity := Some identity\<rparr>)
         else admin_abort status
                (AdminError (if status = 401 then ''admin authentication is required''
                             else ''admin authorization is required''))
                (admin_record h (denied_event (hd_cfg h) identity status (ax_gin a)) a))"

section \<open>Helpers of the handlers\<close>

definition admin_event :: "'s admin_state \<Rightarrow> string \<Rightarrow> string \<Rightarrow> event" where
  "admin_event a action message =
     (let c = ax_gin a; identity = currentIdentity a
      in zero_event\<lparr>ev_Actor := id_User identity, ev_ActorSource := ''admin:'' @ id_AuthMode identity,
           ev_Action := action, ev_Method := rq_Method (cx_Request c), ev_Path := rq_Path (cx_Request c),
           ev_Endpoint := rq_FullPath (cx_Request c), ev_StatusCode := cx_Status c, ev_Result := ResultSuccess,
           ev_RemoteAddr := clientAddress c, ev_UserAgent := GetHeader c ''User-Agent'', ev_RequestID := requestID c,
           ev_Message := message\<rparr>)"

definition recordAdminAPI :: "'s Handler \<Rightarrow> string \<Rightarrow> string \<Rightarrow> 's admin_state \<Rightarrow> 's admin_state" where
  "recordAdminAPI h action message a = admin_record h (admin_event a action message) a"

definition queryInt :: "'s admin_state \<Rightarrow> string \<Rightarrow> int \<Rightarrow> int" where
  "queryInt a key fallback =
     (let v = trim_space (ax_Query a key)
      in if v = [] then fallback else case atoi v of Some n \<Rightarrow> n | None \<Rightarrow> fallback)"

definition queryTime :: "'s admin_state \<Rightarrow> string \<Rightarrow> time" where
  "queryTime a key =
     (let v = trim_space (ax_Query a key)
      in if v = [] then zero_time
         else case parse_rfc3339 v of
           Some t \<Rightarrow> t
         | None \<Rightarrow> (case parse_date v of Some t \<Rightarrow> t | None \<Rightarrow> zero_time))"

definition queryDuration :: "'s admin_state \<Rightarrow> string \<Rightarrow> duration" where
  "queryDuration a key =
     (let v = trim_space (ax_Query a key)
      in if v = [] then 0 else case parse_duration v of Some d \<Rightarrow> d | None \<Rightarrow> 0)"

definition commitURL :: "string \<Rightarrow> string" where
  "commitURL commit0 =
     (let commit = trim_space commit0
      in if commit = [] \<or> commit = ''unknown'' then []
         else ''https://github.com/michibiki-io/turnstile-appcheck-gateway/commit/'' @ commit)"

definition releaseTagURL :: "string \<Rightarrow> string" where
  "releaseTagURL buildVersion =
     (let tag0 = trim_space buildVersion
      in if tag0 = [] \<or> tag0 = ''dev'' then []
         else
           let tag = (if \<not> has_prefix tag0 ''v'' then ''v'' @ tag0 else tag0);
               parts = split_on CHR ''.'' (trim_prefix tag ''v'')
           in if length parts \<noteq> 3 then []
              else if list_ex (\<lambda>part. case atoi part of None \<Rightarrow> True | Some v \<Rightarrow> v < 0) parts then []
              else ''https://github.com/michibiki-io/turnstile-appcheck-gateway/releases/tag/'' @ tag)"

definition version_Value :: "build_info \<Rightarrow> string" where
  "version_Value b = (if trim_space (bi_value b) = [] then ''dev'' else bi_value b)"

definition version_Commit :: "build_info \<Rightarrow> string" where
  "version_Commit b = (if trim_space (bi_commit b) = [] then ''unknown'' else bi_commit b)"

definition version_ShortCommit :: "build_info \<Rightarrow> string" where
  "version_ShortCommit b =
     (let c = version_Commit b in if 12 < int (length c) then take 12 c else c)"

definition formatAuditTimestamp :: "'s Handler \<Rightarrow> time \<Rightarrow> string" where
  "formatAuditTimestamp h value =
     (if is_zero value then []
      else let dash = ad_Dashboard (cf_Admin (hd_cfg h));
               configured = trim_space (da_TimestampTimezone dash);
               location = (if configured \<noteq> []
                           then case hd_load_location h configured of Some l \<Rightarrow> l | None \<Rightarrow> ''UTC''
                           else ''UTC'');
               layout0 = trim_space (da_TimestampFormat dash);
               layout = (if layout0 = [] then ''2006-01-02T15:04:05Z07:00'' else layout0)
           in hd_format h location layout value)"

definition auditEventResponse :: "'s Handler \<Rightarrow> event \<Rightarrow> event \<times> string" where
  "auditEventResponse h e = (e, formatAuditTimestamp h (ev_Timestamp e))"

section \<open>Handlers\<close>

definition unavailable :: "'s admin_state \<Rightarrow> 's admin_state" where
  "unavailable = admin_json 503 (AdminError ''audit storage is not available'')"

definition me :: "'s Handler \<Rightarrow> 's admin_state \<Rightarrow> 's admin_state" where
  "me h a =
     admin_json 200 (MeReply
       \<lparr>rep_mode = aa_Mode (ad_Auth (cf_Admin (hd_cfg h))), rep_identity = currentIdentity a,
        rep_version = version_Value (hd_build h), rep_commit = version_Commit (hd_build h),
        rep_shortCommit = version_ShortCommit (hd_build h), rep_commitURL = commitURL (version_Commit (hd_build h)),
        rep_releaseTagURL = releaseTagURL (version_Value (hd_build h)),
        rep_timestampFormat = da_TimestampFormat (ad_Dashboard (cf_Admin (hd_cfg h)))\<rparr>) a"

definition auditOptions :: "'s Handler \<Rightarrow> 's admin_state \<Rightarrow> 's admin_state" where
  "auditOptions h a =
     (let pre = trim_right_char CHR ''/'' (cf_AppCheckSubpath (hd_cfg h))
      in admin_json 200 (OptionsReply knownActions
           (map (\<lambda>s. pre @ s) [''/api/v1/exchange'', ''/api/v1/verify'', ''/_admin/api/v1/me'',
              ''/_admin/api/v1/request-metrics'', ''/_admin/api/v1/audit-events''])
           [ResultSuccess, ResultFailure, ResultDenied]) a)"

text \<open>The handler of the metrics may panic in the reader.\<close>

definition requestMetrics :: "'s Handler \<Rightarrow> 's admin_state \<Rightarrow> 's admin_state outcome" where
  "requestMetrics h a =
     (case hd_auditRead h of
        None \<Rightarrow> Returned (unavailable a)
      | Some rd \<Rightarrow>
          let f = \<lparr>mf_From = queryTime a ''from'', mf_To = queryTime a ''to'', mf_Bucket = queryDuration a ''bucket'',
                   mf_Endpoint = ax_Query a ''endpoint'', mf_Method = ax_Query a ''method'',
                   mf_Result = ax_Query a ''result'', mf_StatusClass = ax_Query a ''status_class''\<rparr>;
              (res, s) = rd_Metrics rd f (ax_Audit a);
              a1 = a\<lparr>ax_Audit := s\<rparr>
          in case res of
               MetricsPanic \<Rightarrow> Panicked a1
             | MetricsError e \<Rightarrow> Returned (admin_json 500 (AdminError ''failed to load request metrics'') a1)
             | MetricsOK m \<Rightarrow>
                 Returned (admin_json 200 (MetricsReply m)
                   (recordAdminAPI h ''admin.metrics.view'' ''Admin viewed request metrics'' a1)))"

definition events_filter :: "'s admin_state \<Rightarrow> Filter" where
  "events_filter a =
     \<lparr>fl_From = queryTime a ''from'', fl_To = queryTime a ''to'', fl_Actor = ax_Query a ''actor'',
      fl_Action = ax_Query a ''action'', fl_Endpoint = ax_Query a ''endpoint'', fl_Path = ax_Query a ''path'',
      fl_Method = ax_Query a ''method'', fl_Result = ax_Query a ''result'',
      fl_StatusCode = queryInt a ''status_code'' 0, fl_StatusClass = ax_Query a ''status_class'',
      fl_RequestID = ax_Query a ''request_id'', fl_Limit = queryInt a ''limit'' 50, fl_Cursor = ax_Cursor a,
      fl_IncludeTotal = True, fl_Offset = queryInt a ''offset'' 0\<rparr>"

definition next_of :: "bool \<Rightarrow> Filter \<Rightarrow> Page \<Rightarrow> next_cursor" where
  "next_of legacyOffsetMode f page =
     (if legacyOffsetMode
      then let limit = (if fl_Limit f \<le> 0 then 50 else fl_Limit f); nextOffset = fl_Offset f + limit
           in if nextOffset < pg_Total page then NextOffset nextOffset else NoNext
      else case pg_NextCursor page of Some cu \<Rightarrow> NextText cu | None \<Rightarrow> NoNext)"

definition auditEvents :: "'s Handler \<Rightarrow> 's admin_state \<Rightarrow> 's admin_state" where
  "auditEvents h a =
     (case hd_auditRead h of
        None \<Rightarrow> unavailable a
      | Some rd \<Rightarrow>
          let f = events_filter a;
              legacy = (ax_Cursor a = CtBlank \<and> trim_space (ax_Query a ''offset'') \<noteq> [])
          in if ax_Cursor a \<noteq> CtBlank \<and> isl (DecodeCursor (ax_Cursor a))
             then admin_json 400 (AdminError ''invalid audit cursor'') a
             else
               let (res, s) = rd_List rd f (ax_Audit a); a1 = a\<lparr>ax_Audit := s\<rparr>
               in case res of
                    Inl e \<Rightarrow> admin_json 500 (AdminError ''failed to load audit events'') a1
                  | Inr page \<Rightarrow>
                      admin_json 200
                        (EventsReply (map (auditEventResponse h) (pg_Items page)) (pg_Total page) (next_of legacy f page)
                           (pg_HasNext page))
                        (recordAdminAPI h ''audit.view'' ''Admin viewed audit logs'' a1))"

definition auditEvent :: "'s Handler \<Rightarrow> 's admin_state \<Rightarrow> 's admin_state" where
  "auditEvent h a =
     (case hd_auditRead h of
        None \<Rightarrow> unavailable a
      | Some rd \<Rightarrow>
          let (res, s) = rd_Get rd (ax_Param a) (ax_Audit a); a1 = a\<lparr>ax_Audit := s\<rparr>
          in case res of
               Inl e \<Rightarrow> admin_json 500 (AdminError ''failed to load audit event'') a1
             | Inr None \<Rightarrow> admin_json 404 (AdminError ''audit event not found'') a1
             | Inr (Some e) \<Rightarrow>
                 admin_json 200 (EventReply (auditEventResponse h e))
                   (recordAdminAPI h ''audit.detail.view'' ''Admin viewed audit log detail'' a1))"

record reset_request =
  rr_Confirmation :: string
  rr_Reason :: string

text \<open>\<open>ShouldBindJSON\<close>: the first JSON value of the body; unknown members are ignored.\<close>

definition bind_reset :: "string \<Rightarrow> reset_request option" where
  "bind_reset body =
     (case decode_first body of
        Some (JObject kvs) \<Rightarrow>
          Option.bind (string_member ''confirmation'' kvs []) (\<lambda>c.
          Option.bind (string_member ''reason'' kvs []) (\<lambda>r. Some \<lparr>rr_Confirmation = c, rr_Reason = r\<rparr>))
      | Some JNull \<Rightarrow> Some \<lparr>rr_Confirmation = [], rr_Reason = []\<rparr>
      | _ \<Rightarrow> None)"

definition reset_marker :: "reset_request \<Rightarrow> 's admin_state \<Rightarrow> event" where
  "reset_marker body a =
     (admin_event a ''audit.reset'' ''Admin reset audit log'')
       \<lparr>ev_StatusCode := 200, ev_Metadata := [(''reason'', MString (trim_space (rr_Reason body)))]\<rparr>"

definition auditReset :: "'s Handler \<Rightarrow> 's admin_state \<Rightarrow> 's admin_state" where
  "auditReset h a =
     (case hd_auditRead h of
        None \<Rightarrow> unavailable a
      | Some rd \<Rightarrow>
          (case bind_reset (rq_Body (cx_Request (ax_gin a))) of
             None \<Rightarrow> admin_json 400 (AdminError ''invalid reset request'') a
           | Some body \<Rightarrow>
               if rr_Confirmation body \<noteq> ''RESET''
               then admin_json 400 (AdminError ''confirmation must be RESET'') a
               else let (err, s) = rd_Reset rd (reset_marker body a) (ax_Audit a); a1 = a\<lparr>ax_Audit := s\<rparr>
                    in case err of
                         Some e \<Rightarrow> admin_json 500 (AdminError ''failed to reset audit events'') a1
                       | None \<Rightarrow> admin_json 200 ResetReply a1))"

section \<open>Routes\<close>

datatype admin_route = RMe | RMetrics | ROptions | REvents | REvent | RReset

fun admin_handler :: "'s Handler \<Rightarrow> admin_route \<Rightarrow> 's admin_state \<Rightarrow> 's admin_state outcome" where
  "admin_handler h RMe a = Returned (me h a)"
| "admin_handler h RMetrics a = requestMetrics h a"
| "admin_handler h ROptions a = Returned (auditOptions h a)"
| "admin_handler h REvents a = Returned (auditEvents h a)"
| "admin_handler h REvent a = Returned (auditEvent h a)"
| "admin_handler h RReset a = Returned (auditReset h a)"

text \<open>\<open>Recovery\<close> around the chain answers a panic with status 500.\<close>

definition recovered :: "'s admin_state outcome \<Rightarrow> 's admin_state" where
  "recovered r =
     (case r of
        Returned a \<Rightarrow> a
      | Panicked a \<Rightarrow> admin_abort 500 (AdminError ''Unexpected server error'') a)"

definition admin_api :: "'s Handler \<Rightarrow> admin_route \<Rightarrow> 's admin_state \<Rightarrow> 's admin_state" where
  "admin_api h rt = required h (\<lambda>a. recovered (admin_handler h rt a))"

section \<open>The dashboard\<close>

definition resultFromStatus :: "int \<Rightarrow> string" where
  "resultFromStatus status = (if 400 \<le> status then ResultFailure else ResultSuccess)"

text \<open>The text after the last slash.\<close>

definition base_name :: "string \<Rightarrow> string" where
  "base_name p = rev (takeWhile (\<lambda>c. c \<noteq> CHR ''/'') (rev p))"

definition dashboardAccess :: "'s Handler \<Rightarrow> ('s admin_state \<Rightarrow> 's admin_state) \<Rightarrow> 's admin_state \<Rightarrow> 's admin_state" where
  "dashboardAccess h next a0 =
     (let (start, c) = read_clock (ax_gin a0);
          a = next (a0\<lparr>ax_gin := c\<rparr>)
      in if \<not> au_Enabled (cf_Audit (hd_cfg h)) then a
         else let name = base_name (rq_Path (cx_Request (ax_gin a)))
              in if contains name ''.'' \<or> name = ''config.js'' then a
                 else let (now, c1) = read_clock (ax_gin a); a1 = a\<lparr>ax_gin := c1\<rparr>
                      in admin_record h
                           ((admin_event a1 ''admin.dashboard.view'' ''Admin dashboard accessed'')
                              \<lparr>ev_Result := resultFromStatus (cx_Status c1),
                               ev_DurationMS := duration_millis (time_sub now start)\<rparr>) a1)"

definition ui_base :: "string \<Rightarrow> string" where
  "ui_base basePath = ''/'' @ trim_right_char CHR ''/'' (trim_left_char CHR ''/'' (trim_space basePath))"

definition configJS :: "string \<Rightarrow> string \<Rightarrow> 's admin_state \<Rightarrow> 's admin_state" where
  "configJS contextPath dashboardBasePath a =
     (let pre = trim_right_char CHR ''/'' contextPath
      in admin_json 200 (ConfigJS (pre @ ''/_admin/api/v1'') (pre @ dashboardBasePath))
           (set_gin (\<lambda>c. c\<lparr>cx_Header := header_set ''Content-Type'' ''application/javascript; charset=utf-8'' (cx_Header c)\<rparr>) a))"

definition redirectToSlash :: "'s admin_state \<Rightarrow> 's admin_state" where
  "redirectToSlash a =
     admin_json 301 (Redirect (trim_right_char CHR ''/'' (rq_Path (cx_Request (ax_gin a))) @ ''/'')) a"

text \<open>\<open>exists\<close> tells whether a cleaned name is an embedded file.\<close>

definition fileExists :: "(string \<Rightarrow> bool) \<Rightarrow> string \<Rightarrow> bool" where
  "fileExists embedded name = embedded (''dist/'' @ path_clean name)"

definition serveAsset :: "(string \<Rightarrow> bool) \<Rightarrow> string \<Rightarrow> 's admin_state \<Rightarrow> 's admin_state" where
  "serveAsset embedded name a =
     (if \<not> embedded (''dist/'' @ path_clean name) then set_gin (\<lambda>c. c\<lparr>cx_Status := 404\<rparr>) a
      else admin_json 200 (Asset (''dist/'' @ path_clean name)) a)"

definition ui_file :: "(string \<Rightarrow> bool) \<Rightarrow> string \<Rightarrow> string \<Rightarrow> 's admin_state \<Rightarrow> 's admin_state" where
  "ui_file embedded contextPath basePath a =
     (let n0 = trim_prefix (ax_Param a) ''/''; name = (if n0 = [] then ''index.html'' else n0)
      in if name = ''config.js'' then configJS contextPath (ui_base basePath) a
         else if fileExists embedded name then serveAsset embedded name a
         else serveAsset embedded ''index.html'' a)"

definition admin_ui :: "'s Handler \<Rightarrow> (string \<Rightarrow> bool) \<Rightarrow> bool \<Rightarrow> 's admin_state \<Rightarrow> 's admin_state" where
  "admin_ui h embedded no_slash =
     required h
       (dashboardAccess h
          (if no_slash then redirectToSlash
           else ui_file embedded (cf_AppCheckSubpath (hd_cfg h)) (da_BasePath (ad_Dashboard (cf_Admin (hd_cfg h))))))"

text \<open>The reader that both recorders provide, for one call environment.\<close>

definition recorder_reader :: "call_env \<Rightarrow> audit_recorder audit_reader" where
  "recorder_reader ce =
     \<lparr>rd_Record = recorder_Record ce, rd_List = (\<lambda>f. on_repo (repo_List f)), rd_Get = (\<lambda>i. on_repo (Get i)),
      rd_Metrics = (\<lambda>f. on_repo (repo_Metrics (ce_now ce) f)), rd_Reset = recorder_Reset ce\<rparr>"

section \<open>Facts\<close>

lemma admin_state_simps [simp]:
  "ax_Audit (admin_json s r a) = ax_Audit a" "ax_Reply (admin_json s r a) = Some r"
  "cx_Status (ax_gin (admin_json s r a)) = s" "cx_Audit (ax_gin (admin_json s r a)) = cx_Audit (ax_gin a)"
  "ax_Audit (admin_abort s r a) = ax_Audit a" "ax_Reply (admin_abort s r a) = Some r"
  "cx_Status (ax_gin (admin_abort s r a)) = s" "cx_Audit (ax_gin (admin_abort s r a)) = cx_Audit (ax_gin a)"
  "cx_Aborted (ax_gin (admin_abort s r a))"
  "ax_Audit (admin_record h e a) = record_event h e (ax_Audit a)"
  "cx_Audit (ax_gin (admin_record h e a)) =
     cx_Audit (ax_gin a) @ (if au_Enabled (cf_Audit (hd_cfg h)) then [e] else [])"
  by (simp_all add: admin_json_def admin_abort_def admin_record_def set_gin_def)

lemma recordAdminAPI_simps [simp]:
  "ax_Audit (recordAdminAPI h act msg a) = record_event h (admin_event a act msg) (ax_Audit a)"
  by (simp add: recordAdminAPI_def)

text \<open>Who may use the administration API, stated over the headers of the request.\<close>

definition entitled :: "gin_context \<Rightarrow> AdminAuthConfig \<Rightarrow> bool" where
  "entitled c auth \<longleftrightarrow>
     (let mode = to_lower (trim_space (aa_Mode auth));
          user = trim_space (GetHeader c (aa_UserHeader auth));
          email = trim_space (GetHeader c (aa_EmailHeader auth));
          groups = splitHeaderGroups (GetHeader c (aa_GroupsHeader auth));
          listed = (\<lambda>x names. \<exists>n \<in> set names. trim_space n \<noteq> [] \<and> equal_fold (trim_space n) x)
      in mode = ''none'' \<or>
         (mode = ''header'' \<and> (user \<noteq> [] \<or> email \<noteq> []) \<and>
          (listed (if user = [] then email else user) (aa_AllowedUsers auth) \<or>
           (email \<noteq> [] \<and> listed email (aa_AllowedUsers auth)) \<or>
           (\<exists>g \<in> set groups. listed (trim_space g) (aa_AllowedGroups auth)))))"

lemma name_set_mem: "to_lower x \<in> set (name_set names) \<longleftrightarrow> (\<exists>n \<in> set names. trim_space n \<noteq> [] \<and> equal_fold (trim_space n) x)"
proof -
  have "set (name_set names) = (\<lambda>n. to_lower (trim_space n)) ` {n \<in> set names. trim_space n \<noteq> []}"
    by (auto simp: name_set_def)
  then show ?thesis by (simp add: image_iff equal_fold_def Bex_def eq_commute conj_commute conj_left_commute)
qed

lemma IdentityFromRequest_allowed: "snd (snd (IdentityFromRequest c auth)) \<longleftrightarrow> entitled c auth"
  by (simp add: IdentityFromRequest_def entitled_def allowed_def name_set_mem list_ex_iff Let_def) blast

lemma IdentityFromRequest_status:
  "\<not> snd (snd (IdentityFromRequest c auth)) \<Longrightarrow> fst (snd (IdentityFromRequest c auth)) \<in> {401, 403}"
  by (simp add: IdentityFromRequest_def Let_def split: if_splits)

lemma IdentityFromRequest_user:
  "snd (snd (IdentityFromRequest c auth)) \<Longrightarrow> id_User (fst (IdentityFromRequest c auth)) \<noteq> []"
  by (simp add: IdentityFromRequest_def Let_def anonymous_def split: if_splits)

lemma required_cases:
  obtains (granted) "entitled (ax_gin a) (ad_Auth (cf_Admin (hd_cfg h)))"
      "required h nxt a = nxt (a\<lparr>ax_Identity := Some (fst (IdentityFromRequest (ax_gin a) (ad_Auth (cf_Admin (hd_cfg h)))))\<rparr>)"
  | (denied) status msg where "\<not> entitled (ax_gin a) (ad_Auth (cf_Admin (hd_cfg h)))" "status \<in> {401, 403}"
      "required h nxt a = admin_abort status (AdminError msg)
         (admin_record h (denied_event (hd_cfg h) (fst (IdentityFromRequest (ax_gin a) (ad_Auth (cf_Admin (hd_cfg h))))) status (ax_gin a)) a)"
proof (cases "entitled (ax_gin a) (ad_Auth (cf_Admin (hd_cfg h)))")
  case True
  then show ?thesis using granted by (simp add: required_def split_beta Let_def IdentityFromRequest_allowed)
next
  case False
  then have ok: "\<not> snd (snd (IdentityFromRequest (ax_gin a) (ad_Auth (cf_Admin (hd_cfg h)))))"
    by (simp add: IdentityFromRequest_allowed)
  show ?thesis
    by (rule denied [OF False IdentityFromRequest_status [OF ok]]) (simp add: required_def split_beta Let_def ok)
qed

lemma denied_event_action: "ev_Action (denied_event cfg i s c) = ''admin.access.denied''"
  "ev_StatusCode (denied_event cfg i s c) = s" "ev_Result (denied_event cfg i s c) = ResultDenied"
  by (simp_all add: denied_event_def zero_event_def)

section \<open>Properties\<close>

text \<open>The refusal of a request: an error reply, one denial event recorded, nothing else.\<close>

definition refused_admin :: "'s Handler \<Rightarrow> 's admin_state \<Rightarrow> 's admin_state \<Rightarrow> bool" where
  "refused_admin h a a' \<longleftrightarrow>
     cx_Status (ax_gin a') \<in> {401, 403} \<and> cx_Aborted (ax_gin a') \<and> (\<exists>m. ax_Reply a' = Some (AdminError m)) \<and>
     (if au_Enabled (cf_Audit (hd_cfg h))
      then \<exists>e. cx_Audit (ax_gin a') = cx_Audit (ax_gin a) @ [e] \<and> ev_Action e = ''admin.access.denied'' \<and>
             ev_StatusCode e = cx_Status (ax_gin a') \<and> ev_Result e = ResultDenied \<and>
             ax_Audit a' = record_event h e (ax_Audit a)
      else cx_Audit (ax_gin a') = cx_Audit (ax_gin a) \<and> ax_Audit a' = ax_Audit a)"

text \<open>
  C9. The gate of the administration: a request to any route of the API or the dashboard reaches
  its handler exactly when its headers entitle it (or authentication is switched off); every other
  request is refused with 401 or 403, no data is in the reply, one denial event is recorded when
  auditing is on, and recording it is all that happens to the audit store.
\<close>

theorem admin_gate:
  "if entitled (ax_gin a) (ad_Auth (cf_Admin (hd_cfg h)))
   then admin_api h rt a = recovered (admin_handler h rt
          (a\<lparr>ax_Identity := Some (fst (IdentityFromRequest (ax_gin a) (ad_Auth (cf_Admin (hd_cfg h)))))\<rparr>))
   else refused_admin h a (admin_api h rt a) \<and>
        refused_admin h a (admin_ui h embedded no_slash a)"
proof -
  have refuse: "refused_admin h a (required h nxt a)"
    if "\<not> entitled (ax_gin a) (ad_Auth (cf_Admin (hd_cfg h)))" for nxt
  proof (cases rule: required_cases [of a h nxt])
    case granted
    with that show ?thesis by simp
  next
    case (denied status msg)
    then show ?thesis
      by (simp add: refused_admin_def denied_event_action record_event_def)
  qed
  show ?thesis
  proof (cases "entitled (ax_gin a) (ad_Auth (cf_Admin (hd_cfg h)))")
    case True
    then show ?thesis
      by (cases rule: required_cases [of a h "\<lambda>a. recovered (admin_handler h rt a)"])
        (simp_all add: admin_api_def)
  next
    case False
    with refuse show ?thesis by (simp add: admin_api_def admin_ui_def)
  qed
qed

definition demo_admin_config :: "string \<Rightarrow> Config" where
  "demo_admin_config mode =
     (initial_config (Map.empty(''ADMIN_AUTH_MODE'' \<mapsto> mode, ''ADMIN_ALLOWED_USERS'' \<mapsto> ''root@example.com'')))"

definition demo_call :: call_env where
  "demo_call = \<lparr>ce_hex = ''00'', ce_now = 9, ce_rng = (\<lambda>_. 0, 0), ce_prepare = (\<lambda>_. ([], 5)), ce_wait = WaitTimedOut\<rparr>"

definition demo_admin_handler :: "string \<Rightarrow> audit_recorder Handler" where
  "demo_admin_handler mode =
     \<lparr>hd_cfg = demo_admin_config mode, hd_auditRead = Some (recorder_reader demo_call), hd_build = \<lparr>bi_value = [], bi_commit = []\<rparr>,
      hd_load_location = (\<lambda>_. None), hd_format = (\<lambda>_ _ _. [])\<rparr>"

definition demo_admin_state :: "string \<Rightarrow> string \<Rightarrow> audit_recorder admin_state" where
  "demo_admin_state user body =
     \<lparr>ax_gin = new_context
        \<lparr>rq_Method = ''POST'', rq_Path = ''/r'', rq_FullPath = ''/r'', rq_Headers = [(''X-Forwarded-User'', [user])],
         rq_RemoteAddr = [], rq_ClientIP = ''192.0.2.1'', rq_Body = body\<rparr> (\<lambda>n. 1000),
      ax_Identity = None, ax_Query = (\<lambda>k. if k = ''bucket'' then ''100ms'' else []), ax_Cursor = CtBlank, ax_Param = [],
      ax_Reply = None, ax_Audit = SyncRecorder (NewSyncRecorder demo_query_repo None)\<rparr>"

lemma demo_entitled:
  "entitled (ax_gin (demo_admin_state ''Root@example.com'' body)) (ad_Auth (cf_Admin (hd_cfg (demo_admin_handler ''header''))))"
  "\<not> entitled (ax_gin (demo_admin_state ''eve@example.com'' body)) (ad_Auth (cf_Admin (hd_cfg (demo_admin_handler ''header''))))"
  by (simp add: demo_admin_state_def, code_simp)+

theorem admin_gate_witness:
  "refused_admin (demo_admin_handler ''header'') (demo_admin_state ''eve@example.com'' [])
     (admin_api (demo_admin_handler ''header'') REvents (demo_admin_state ''eve@example.com'' []))"
  using admin_gate [of "demo_admin_state ''eve@example.com'' []" "demo_admin_handler ''header''" REvents "\<lambda>_. False" True]
    demo_entitled(2) [of "[]"] by simp

text \<open>Reading leaves the tables of the repository alone.\<close>

lemma query_tables: "rp_tables (snd (query q r)) = rp_tables r"
  by (simp add: query_def Let_def split: tx_outcome.split)

lemma query_tables': "query q r = (x, r') \<Longrightarrow> rp_tables r' = rp_tables r"
  using query_tables [of q r] by simp

lemma readers_tables:
  "repo_List f r = (p, r') \<Longrightarrow> rp_tables r' = rp_tables r"
  "Get i r = (e, r') \<Longrightarrow> rp_tables r' = rp_tables r"
  "repo_Metrics now mf r = (m, r') \<Longrightarrow> rp_tables r' = rp_tables r"
  by (auto simp: repo_List_def Get_def repo_Metrics_def rollupSummary_def Let_def dest!: query_tables'
      split: sum.splits if_splits tx_outcome.splits prod.splits option.splits)

lemma recorder_reader_simps:
  "rd_Record (recorder_reader ce) = recorder_Record ce" "rd_List (recorder_reader ce) = (\<lambda>f. on_repo (repo_List f))"
  "rd_Get (recorder_reader ce) = (\<lambda>i. on_repo (Get i))"
  "rd_Metrics (recorder_reader ce) = (\<lambda>f. on_repo (repo_Metrics (ce_now ce) f))"
  "rd_Reset (recorder_reader ce) = recorder_Reset ce"
  by (simp_all add: recorder_reader_def)

lemma record_event_kept:
  assumes "hd_auditRead h = Some (recorder_reader ce)"
  shows "kept_log s (record_event h e s)"
proof -
  obtain err s' where "recorder_Record ce e s = (err, s')" by fastforce
  with recorder_Record_kept [OF this] assms show ?thesis
    by (simp add: record_event_def recorder_reader_simps kept_log_same)
qed

text \<open>A handler that reads, and then at most records its event, keeps the log.\<close>

lemma kept_log_read:
  assumes "on_repo f s = (x, s')"
    and "\<And>y r'. f (recorder_repo s) = (y, r') \<Longrightarrow> rp_tables r' = rp_tables (recorder_repo s)"
  shows "kept_log s s'" and "kept_log s' s'' \<Longrightarrow> kept_log s s''"
proof -
  have t: "rp_tables (recorder_repo s') = rp_tables (recorder_repo s)" by (rule on_repo_kept [OF assms])
  then show "kept_log s s'" by (rule kept_log_same)
  show "kept_log s' s'' \<Longrightarrow> kept_log s s''"
    using assms(1) t by (cases s) (auto simp: kept_log_def grown_def one_more_def split: prod.splits)
qed

lemma admin_reads_keep:
  assumes "hd_auditRead h = Some (recorder_reader ce)" and "rt \<noteq> RReset"
  shows "kept_log (ax_Audit a) (ax_Audit (recovered (admin_handler h rt a))) \<and>
    ax_Reply (recovered (admin_handler h rt a)) \<noteq> Some ResetReply"
proof (cases rt)
  case REvents
  obtain p s where r: "on_repo (repo_List (events_filter a)) (ax_Audit a) = (p, s)" by fastforce
  note k = kept_log_read [OF r readers_tables(1)] record_event_kept [OF assms(1)]
  show ?thesis
    using r k REvents
    by (simp add: auditEvents_def assms(1) recorder_reader_simps recovered_def kept_log_same Let_def split: sum.split)
next
  case REvent
  obtain p s where r: "on_repo (Get (ax_Param a)) (ax_Audit a) = (p, s)" by fastforce
  note k = kept_log_read [OF r readers_tables(2)] record_event_kept [OF assms(1)]
  show ?thesis
    using r k REvent
    by (simp add: auditEvent_def assms(1) recorder_reader_simps recovered_def Let_def split: sum.split option.split)
next
  case RMetrics
  define f where "f = \<lparr>mf_From = queryTime a ''from'', mf_To = queryTime a ''to'', mf_Bucket = queryDuration a ''bucket'',
                 mf_Endpoint = ax_Query a ''endpoint'', mf_Method = ax_Query a ''method'',
                 mf_Result = ax_Query a ''result'', mf_StatusClass = ax_Query a ''status_class''\<rparr>"
  obtain p s where r: "on_repo (repo_Metrics (ce_now ce) f) (ax_Audit a) = (p, s)" by fastforce
  note k = kept_log_read [OF r readers_tables(3)] record_event_kept [OF assms(1)]
  show ?thesis
    using r k RMetrics
    by (simp add: requestMetrics_def assms(1) recorder_reader_simps recovered_def Let_def f_def [symmetric]
        split: metrics_result.split)
qed (use assms(2) in \<open>simp_all add: me_def auditOptions_def recovered_def kept_log_same Let_def\<close>)

lemma reset_marker_fields:
  "ev_Action (reset_marker body a) = ''audit.reset''" "ev_Actor (reset_marker body a) = id_User (currentIdentity a)"
  by (simp_all add: reset_marker_def admin_event_def zero_event_def Let_def)

text \<open>What a reset leaves: one row that names the administrator, and no rollups.\<close>

definition reset_by :: "Identity \<Rightarrow> audit_recorder \<Rightarrow> bool" where
  "reset_by identity s \<longleftrightarrow>
     tb_rollups (rp_tables (recorder_repo s)) = [] \<and>
     (\<exists>m. tb_events (rp_tables (recorder_repo s)) = [m] \<and> er_Action m = ''audit.reset'' \<and>
        er_Actor m = id_User identity)"

text \<open>
  C14. Only a confirmed reset by an entitled administrator removes anything from the audit log.  The
  events of the administration go to the same tables that its requests read: whatever a request to
  the administration API does, all stored rows stay in their order and no rollup count is lost, and
  of a synchronous recorder there is at most one row more; or the request went to the reset route,
  its headers entitle it, its body confirms with RESET, and what is left is exactly one row,
  \<open>audit.reset\<close>, that names the administrator.  A reply that reports a reset means that it was done.
\<close>

theorem admin_reset_guarded:
  assumes "hd_auditRead h = Some (recorder_reader ce)"
  shows "(kept_log (ax_Audit a) (ax_Audit (admin_api h rt a)) \<or>
      (rt = RReset \<and> entitled (ax_gin a) (ad_Auth (cf_Admin (hd_cfg h))) \<and>
       (\<exists>body. bind_reset (rq_Body (cx_Request (ax_gin a))) = Some body \<and> rr_Confirmation body = ''RESET'') \<and>
       reset_by (fst (IdentityFromRequest (ax_gin a) (ad_Auth (cf_Admin (hd_cfg h))))) (ax_Audit (admin_api h rt a)))) \<and>
    (ax_Reply (admin_api h rt a) = Some ResetReply \<longrightarrow>
       reset_by (fst (IdentityFromRequest (ax_gin a) (ad_Auth (cf_Admin (hd_cfg h))))) (ax_Audit (admin_api h rt a)))"
proof (cases rule: required_cases [of a h "\<lambda>a. recovered (admin_handler h rt a)"])
  case (denied status msg)
  then show ?thesis using record_event_kept [OF assms(1)] by (simp add: admin_api_def)
next
  case granted
  define identity where "identity = fst (IdentityFromRequest (ax_gin a) (ad_Auth (cf_Admin (hd_cfg h))))"
  let ?a = "a\<lparr>ax_Identity := Some identity\<rparr>"
  have api: "admin_api h rt a = recovered (admin_handler h rt ?a)"
    using granted(2) by (simp add: admin_api_def identity_def)
  show ?thesis
  proof (cases "rt = RReset")
    case False
    with admin_reads_keep [OF assms(1), of rt ?a] show ?thesis by (simp add: api)
  next
    case rt: True
    have "id_User identity \<noteq> []"
      using granted(1) unfolding identity_def by (intro IdentityFromRequest_user) (simp add: IdentityFromRequest_allowed)
    then have ci: "id_User (currentIdentity ?a) = id_User identity" "id_User identity \<noteq> []"
      by (simp_all add: currentIdentity_def)
    have ap: "admin_api h rt a = auditReset h ?a" using api by (simp add: rt recovered_def)
    show ?thesis
    proof (cases "\<exists>body. bind_reset (rq_Body (cx_Request (ax_gin a))) = Some body \<and> rr_Confirmation body = ''RESET''")
      case False
      then show ?thesis unfolding ap
        by (auto simp: auditReset_def assms(1) kept_log_same split: option.split)
    next
      case True
      then obtain body where body: "bind_reset (rq_Body (cx_Request (ax_gin a))) = Some body" "rr_Confirmation body = ''RESET''"
        by blast
      obtain err s where r: "recorder_Reset ce (reset_marker body ?a) (ax_Audit a) = (err, s)" by fastforce
      have s: "ax_Audit (admin_api h rt a) = s" "ax_Reply (admin_api h rt a) = Some ResetReply \<longrightarrow> err = None"
        unfolding ap using r body
        by (simp_all add: auditReset_def assms(1) recorder_reader_simps Let_def split: option.split)
      have "reset_log (reset_marker body ?a) s \<Longrightarrow> reset_by identity s"
        using ci by (simp add: reset_log_def reset_by_def reset_marker_fields)
      with recorder_Reset_effect [OF r] s rt granted(1) body show ?thesis by (auto simp: identity_def [symmetric])
    qed
  qed
qed

theorem admin_reset_guarded_witness:
  "\<exists>m. tb_events (rp_tables (recorder_repo (ax_Audit (admin_api (demo_admin_handler ''header'') RReset
       (demo_admin_state ''Root@example.com'' (''{'' @ [CHR 0x22] @ ''confirmation'' @ [CHR 0x22] @ '':'' @ [CHR 0x22] @ ''RESET'' @ [CHR 0x22] @ ''}'')))))) = [m] \<and>
     er_Action m = ''audit.reset'' \<and> er_Actor m = ''Root@example.com''"
proof -
  let ?h = "demo_admin_handler ''header''"
  let ?a = "demo_admin_state ''Root@example.com'' (''{'' @ [CHR 0x22] @ ''confirmation'' @ [CHR 0x22] @ '':'' @ [CHR 0x22] @ ''RESET'' @ [CHR 0x22] @ ''}'')"
  have 1: "hd_auditRead ?h = Some (recorder_reader demo_call)" by (simp add: demo_admin_handler_def)
  have 2: "ax_Reply (admin_api ?h RReset ?a) = Some ResetReply" by code_simp
  have 3: "id_User (fst (IdentityFromRequest (ax_gin ?a) (ad_Auth (cf_Admin (hd_cfg ?h))))) = ''Root@example.com''"
    by code_simp
  from admin_reset_guarded [OF 1, of ?a RReset] 2 show ?thesis unfolding reset_by_def 3 by blast
qed

text \<open>
  C38. A chart request with a bucket below one second crashes the handler: the division by zero in
  \<open>bucketStart\<close> panics, the recovery middleware answers 500, and the view is not recorded: the tables
  stay as they were.
\<close>

theorem small_bucket_crashes:
  assumes "entitled (ax_gin a) (ad_Auth (cf_Admin (hd_cfg h)))" and "hd_auditRead h = Some (recorder_reader ce)"
    and "healthy (recorder_repo (ax_Audit a))" and "0 < queryDuration a ''bucket''" and "queryDuration a ''bucket'' < second"
  shows "cx_Status (ax_gin (admin_api h RMetrics a)) = 500 \<and>
    cx_Audit (ax_gin (admin_api h RMetrics a)) = cx_Audit (ax_gin a) \<and>
    rp_tables (recorder_repo (ax_Audit (admin_api h RMetrics a))) = rp_tables (recorder_repo (ax_Audit a))"
proof (cases rule: required_cases [of a h "\<lambda>a. recovered (admin_handler h RMetrics a)"])
  case (denied status msg)
  then show ?thesis using assms(1) by simp
next
  case granted
  let ?a = "a\<lparr>ax_Identity := Some (fst (IdentityFromRequest (ax_gin a) (ad_Auth (cf_Admin (hd_cfg h)))))\<rparr>"
  define f where "f = \<lparr>mf_From = queryTime ?a ''from'', mf_To = queryTime ?a ''to'', mf_Bucket = queryDuration ?a ''bucket'',
                   mf_Endpoint = ax_Query a ''endpoint'', mf_Method = ax_Query a ''method'',
                   mf_Result = ax_Query a ''result'', mf_StatusClass = ax_Query a ''status_class''\<rparr>"
  have q: "queryDuration ?a ''bucket'' = queryDuration a ''bucket''" by (simp add: queryDuration_def)
  have "fst (on_repo (repo_Metrics (ce_now ce) f) (ax_Audit a)) = MetricsPanic"
    unfolding on_repo_result by (rule metrics_small_bucket_panics) (use assms(3-5) q in \<open>simp_all add: f_def\<close>)
  then obtain s where s: "on_repo (repo_Metrics (ce_now ce) f) (ax_Audit a) = (MetricsPanic, s)" by (metis prod.collapse)
  have kept: "rp_tables (recorder_repo s) = rp_tables (recorder_repo (ax_Audit a))"
    by (rule on_repo_kept [OF s readers_tables(3)])
  have "admin_handler h RMetrics ?a = Panicked (?a\<lparr>ax_Audit := s\<rparr>)"
    using s by (simp add: requestMetrics_def assms(2) recorder_reader_simps f_def [symmetric])
  then have "admin_api h RMetrics a = admin_abort 500 (AdminError ''Unexpected server error'') (?a\<lparr>ax_Audit := s\<rparr>)"
    using granted(2) by (simp add: admin_api_def recovered_def)
  then show ?thesis using kept by simp
qed

lemma demo_bucket_text: "trim_space ''100ms'' = ''100ms''" "parse_duration ''100ms'' = Some 100000000"
  subgoal by code_simp
  subgoal by (simp add: parse_duration_def duration_sum.simps duration_component_def is_digit_def byte_def
        digit_val_def unit_char_def unit_map_def)
  done

theorem small_bucket_crashes_witness:
  "cx_Status (ax_gin (admin_api (demo_admin_handler ''header'') RMetrics (demo_admin_state ''Root@example.com'' []))) = 500"
proof (rule small_bucket_crashes [THEN conjunct1, of _ _ demo_call])
  show "entitled (ax_gin (demo_admin_state ''Root@example.com'' [])) (ad_Auth (cf_Admin (hd_cfg (demo_admin_handler ''header''))))"
    by (rule demo_entitled)
  show "hd_auditRead (demo_admin_handler ''header'') = Some (recorder_reader demo_call)" by (simp add: demo_admin_handler_def)
  show "healthy (recorder_repo (ax_Audit (demo_admin_state ''Root@example.com'' [])))"
    by (simp add: demo_admin_state_def NewSyncRecorder_def demo_query_repo_def healthy_def)
  have "queryDuration (demo_admin_state ''Root@example.com'' []) ''bucket'' = 100000000"
    unfolding queryDuration_def demo_admin_state_def by (simp add: demo_bucket_text)
  then show "0 < queryDuration (demo_admin_state ''Root@example.com'' []) ''bucket''"
    "queryDuration (demo_admin_state ''Root@example.com'' []) ''bucket'' < second"
    by (simp_all add: second_def)
qed

text \<open>
  Any dashboard path whose last element has a dot is left out of the audit log, also when no such
  file exists and the page itself is served.
\<close>

lemma dotted_view_unrecorded:
  assumes "contains (base_name (rq_Path (cx_Request (ax_gin a)))) ''.''"
    and "\<And>b. cx_Request (ax_gin (nxt b)) = cx_Request (ax_gin b)" and "\<And>b. cx_Audit (ax_gin (nxt b)) = cx_Audit (ax_gin b)"
  shows "cx_Audit (ax_gin (dashboardAccess h nxt a)) = cx_Audit (ax_gin a)"
  using assms by (simp add: dashboardAccess_def Let_def)

end
