(* ===== verification/AuditStore.thy ===== *)
theory AuditStore
  imports AuditRepo GoUrl
begin

text \<open>
  Opening the audit store (\<open>internal/audit/storage/bunrepo/db.go\<close>, \<open>migrations.go\<close>): the choice of
  driver and DSN, the connection pool, and the migration as a run over the schema of the database.
  Which statement fails is an oracle; a failing statement changes nothing.  Creating directories, parsing
  a MySQL DSN and opening a driver are functions of the environment, given as arguments.
\<close>

section \<open>Configuration, DSN and pool\<close>

record bun_Config =
  bc_StorageType :: string
  bc_DSN :: string
  bc_SQLitePath :: string
  bc_MaxOpenConns :: int
  bc_MaxIdleConns :: int
  bc_ConnMaxLifetime :: duration
  bc_ConnMaxIdleTime :: duration

text \<open>\<open>filepath.Dir\<close>: the cleaned text up to the last slash.\<close>

definition filepath_dir :: "string \<Rightarrow> string" where
  "filepath_dir p = path_clean (rev (dropWhile (\<lambda>c. c \<noteq> CHR ''/'') (rev p)))"

text \<open>\<open>mkdir\<close> tells whether \<open>os.MkdirAll\<close> succeeds.\<close>

definition sqliteDSN :: "(string \<Rightarrow> bool) \<Rightarrow> bun_Config \<Rightarrow> string + string" where
  "sqliteDSN mkdir cfg =
     (if trim_space (bc_DSN cfg) \<noteq> [] then Inr (bc_DSN cfg)
      else let path = trim_space (bc_SQLitePath cfg)
           in if path = [] then Inl ''AUDIT_SQLITE_PATH is required for SQLite audit storage''
              else if path = '':memory:'' then Inr ''file::memory:?cache=shared''
              else if \<not> mkdir (filepath_dir path) then Inl ''create audit database directory''
              else if has_prefix path ''file:'' then Inr path
              else Inr (''file:'' @ path @ ''?cache=shared&mode=rwc&_journal_mode=WAL&_busy_timeout=5000''))"

datatype db_target = SQLiteShim string | PgDriver string | MySQLDriver string

record store_env =
  se_MkdirAll :: "string \<Rightarrow> bool"
  se_ParseMySQL :: "string \<Rightarrow> string option"
  se_Open :: "db_target \<Rightarrow> bool"

text \<open>\<open>se_ParseMySQL\<close> is \<open>mysql.ParseDSN\<close> followed by \<open>FormatDSN\<close> with \<open>ParseTime\<close> and UTC set.\<close>

definition openSQLDB :: "store_env \<Rightarrow> dialectName \<Rightarrow> bun_Config \<Rightarrow> string + db_target" where
  "openSQLDB env name cfg =
     (case name of
        DialectSQLite \<Rightarrow>
          rbind (sqliteDSN (se_MkdirAll env) cfg) (\<lambda>dsn.
            if se_Open env (SQLiteShim dsn) then Inr (SQLiteShim dsn) else Inl ''open audit sqlite database'')
      | DialectPostgres \<Rightarrow>
          if trim_space (bc_DSN cfg) = [] then Inl ''AUDIT_DSN is required for PostgreSQL audit storage''
          else Inr (PgDriver (bc_DSN cfg))
      | DialectMySQL \<Rightarrow>
          if trim_space (bc_DSN cfg) = [] then Inl ''AUDIT_DSN is required for MariaDB/MySQL audit storage''
          else let dsn = (case se_ParseMySQL env (bc_DSN cfg) of Some d \<Rightarrow> d | None \<Rightarrow> bc_DSN cfg)
               in if se_Open env (MySQLDriver dsn) then Inr (MySQLDriver dsn)
                  else Inl ''open audit mysql database'')"

text \<open>
  The pool of \<open>database/sql\<close>: 0 open connections means no limit; the idle connections never exceed the
  open ones.
\<close>

record pool =
  pl_MaxOpen :: int
  pl_MaxIdle :: int
  pl_MaxLifetime :: duration
  pl_MaxIdleTime :: duration

definition initial_pool :: pool where
  "initial_pool = \<lparr>pl_MaxOpen = 0, pl_MaxIdle = 2, pl_MaxLifetime = 0, pl_MaxIdleTime = 0\<rparr>"

definition SetMaxOpenConns :: "int \<Rightarrow> pool \<Rightarrow> pool" where
  "SetMaxOpenConns n p =
     (let m = max n 0 in p\<lparr>pl_MaxOpen := m, pl_MaxIdle := (if 0 < m \<and> m < pl_MaxIdle p then m else pl_MaxIdle p)\<rparr>)"

definition SetMaxIdleConns :: "int \<Rightarrow> pool \<Rightarrow> pool" where
  "SetMaxIdleConns n p =
     (let m = max n 0 in p\<lparr>pl_MaxIdle := (if 0 < pl_MaxOpen p \<and> pl_MaxOpen p < m then pl_MaxOpen p else m)\<rparr>)"

definition applyPool :: "dialectName \<Rightarrow> bun_Config \<Rightarrow> pool \<Rightarrow> pool" where
  "applyPool name cfg p =
     (if name = DialectSQLite
      then (SetMaxIdleConns 1 (SetMaxOpenConns 1 p))\<lparr>pl_MaxLifetime := 0\<rparr>
      else
        let p1 = (if 0 < bc_MaxOpenConns cfg then SetMaxOpenConns (bc_MaxOpenConns cfg) p else p);
            p2 = (if 0 < bc_MaxIdleConns cfg then SetMaxIdleConns (bc_MaxIdleConns cfg) p1 else p1);
            p3 = (if 0 < bc_ConnMaxLifetime cfg then p2\<lparr>pl_MaxLifetime := bc_ConnMaxLifetime cfg\<rparr> else p2)
        in if 0 < bc_ConnMaxIdleTime cfg then p3\<lparr>pl_MaxIdleTime := bc_ConnMaxIdleTime cfg\<rparr> else p3)"

section \<open>Schema statements\<close>

datatype table = EventsTable | EventsV2Table | RollupsTable

datatype sql_statement =
    CreateTable table "string list"
  | CreateIndex string table "string list"
  | DropTable table

definition event_indexes :: "(string \<times> string list) list" where
  "event_indexes =
     [(''idx_audit_events_timestamp_seq'', [''timestamp'', ''seq'']),
      (''idx_audit_events_action_timestamp_seq'', [''action'', ''timestamp'', ''seq'']),
      (''idx_audit_events_endpoint_timestamp_seq'', [''endpoint'', ''timestamp'', ''seq'']),
      (''idx_audit_events_result_timestamp_seq'', [''result'', ''timestamp'', ''seq'']),
      (''idx_audit_events_status_timestamp_seq'', [''status_code'', ''timestamp'', ''seq'']),
      (''idx_audit_events_request_id'', [''request_id''])]"

definition event_columns :: "string list" where
  "event_columns =
     [''seq'', ''id'', ''timestamp'', ''actor'', ''actor_source'', ''action'', ''method'', ''path'', ''endpoint'',
      ''status_code'', ''result'', ''remote_addr'', ''user_agent'', ''request_id'', ''duration_ms'',
      ''error_code'', ''message'', ''metadata_json'']"

definition rollup_columns :: "string list" where
  "rollup_columns =
     [''bucket_start'', ''bucket_size'', ''endpoint'', ''method'', ''action'', ''result'', ''status_class'',
      ''status_code'', ''count'']"

definition rollup_indexes :: "(string \<times> string list) list" where
  "rollup_indexes =
     [(''idx_audit_metric_rollups_bucket'', [''bucket_start'']),
      (''idx_audit_metric_rollups_filter_bucket'',
       [''endpoint'', ''method'', ''result'', ''status_class'', ''bucket_start''])]"

text \<open>On MySQL the indexes are part of the CREATE TABLE statements.\<close>

definition schemaStatements :: "dialectName \<Rightarrow> sql_statement list" where
  "schemaStatements d =
     (if d = DialectMySQL then [CreateTable EventsTable event_columns, CreateTable RollupsTable rollup_columns]
      else CreateTable EventsTable event_columns #
           map (\<lambda>(n, cols). CreateIndex n EventsTable cols) event_indexes @
           CreateTable RollupsTable rollup_columns #
           map (\<lambda>(n, cols). CreateIndex n RollupsTable cols) rollup_indexes)"

section \<open>Databases\<close>

text \<open>
  A database: the columns of each table that exists, the names of the secondary indexes, the rows of
  the two audit tables, and the oracle with the number of the next statement.
\<close>

record audit_db =
  db_Columns :: "table \<Rightarrow> string list option"
  db_Indexes :: "(string \<times> table) list"
  db_Tables :: tables
  db_Fails :: "nat \<Rightarrow> bool"
  db_Calls :: nat

definition drop_rows :: "table \<Rightarrow> tables \<Rightarrow> tables" where
  "drop_rows t tb =
     (case t of
        EventsTable \<Rightarrow> tb\<lparr>tb_events := [], tb_next_seq := 1\<rparr>
      | RollupsTable \<Rightarrow> tb\<lparr>tb_rollups := []\<rparr>
      | EventsV2Table \<Rightarrow> tb)"

text \<open>What a statement does; \<open>None\<close> is an error of the database.\<close>

definition apply_statement :: "sql_statement \<Rightarrow> audit_db \<Rightarrow> audit_db option" where
  "apply_statement st db =
     (case st of
        CreateTable t cols \<Rightarrow>
          if db_Columns db t = None then Some (db\<lparr>db_Columns := (db_Columns db)(t \<mapsto> cols)\<rparr>) else Some db
      | CreateIndex n t cols \<Rightarrow>
          (case db_Columns db t of
             None \<Rightarrow> None
           | Some have \<Rightarrow>
               if n \<in> fst ` set (db_Indexes db) then Some db
               else if set cols \<subseteq> set have then Some (db\<lparr>db_Indexes := db_Indexes db @ [(n, t)]\<rparr>)
               else None)
      | DropTable t \<Rightarrow>
          if db_Columns db t = None then Some db
          else Some (db\<lparr>db_Columns := (db_Columns db)(t := None),
                        db_Indexes := filter (\<lambda>i. snd i \<noteq> t) (db_Indexes db),
                        db_Tables := drop_rows t (db_Tables db)\<rparr>))"

definition exec :: "sql_statement \<Rightarrow> audit_db \<Rightarrow> bool \<times> audit_db" where
  "exec st db =
     (let db' = db\<lparr>db_Calls := Suc (db_Calls db)\<rparr>
      in if db_Fails db (db_Calls db) then (False, db')
         else case apply_statement st db' of None \<Rightarrow> (False, db') | Some db'' \<Rightarrow> (True, db''))"

text \<open>A count over the catalogue; \<open>None\<close> where the query fails.\<close>

definition inspect :: "(audit_db \<Rightarrow> bool) \<Rightarrow> audit_db \<Rightarrow> bool option \<times> audit_db" where
  "inspect f db = ((if db_Fails db (db_Calls db) then None else Some (f db)), db\<lparr>db_Calls := Suc (db_Calls db)\<rparr>)"

definition auditEventsTableExists :: "audit_db \<Rightarrow> bool option \<times> audit_db" where
  "auditEventsTableExists = inspect (\<lambda>db. db_Columns db EventsTable \<noteq> None)"

definition auditEventsSeqColumnExists :: "audit_db \<Rightarrow> bool option \<times> audit_db" where
  "auditEventsSeqColumnExists =
     inspect (\<lambda>db. case db_Columns db EventsTable of None \<Rightarrow> False | Some cols \<Rightarrow> ''seq'' \<in> set cols)"

definition dropLegacyAuditEventsIfNeeded :: "audit_db \<Rightarrow> string option \<times> audit_db" where
  "dropLegacyAuditEventsIfNeeded db0 =
     (let (exists, db1) = auditEventsTableExists db0
      in case exists of
           None \<Rightarrow> (Some ''inspect audit_events table'', db1)
         | Some False \<Rightarrow> (None, db1)
         | Some True \<Rightarrow>
             (let (hasSeq, db2) = auditEventsSeqColumnExists db1
              in case hasSeq of
                   None \<Rightarrow> (Some ''inspect audit_events schema'', db2)
                 | Some True \<Rightarrow> (None, db2)
                 | Some False \<Rightarrow>
                     (let (ok, db3) = exec (DropTable EventsTable) db2
                      in (if ok then None else Some ''drop legacy audit_events table'', db3))))"

fun exec_all :: "sql_statement list \<Rightarrow> audit_db \<Rightarrow> string option \<times> audit_db" where
  "exec_all [] db = (None, db)"
| "exec_all (st # sts) db =
     (let (ok, db') = exec st db in if ok then exec_all sts db' else (Some ''migrate audit database'', db'))"

definition Migrate :: "dialectName \<Rightarrow> audit_db \<Rightarrow> string option \<times> audit_db" where
  "Migrate d db0 =
     (let (err, db1) = dropLegacyAuditEventsIfNeeded db0
      in if err \<noteq> None then (err, db1)
         else let (ok, db2) = exec (DropTable EventsV2Table) db1
              in if \<not> ok then (Some ''drop obsolete audit_events_v2 table'', db2)
                 else exec_all (schemaStatements d) db2)"

section \<open>Open\<close>

record open_store =
  os_dialect :: dialectName
  os_target :: db_target
  os_pool :: pool

text \<open>A migration that fails closes the database again.\<close>

definition Open :: "store_env \<Rightarrow> (db_target \<Rightarrow> audit_db) \<Rightarrow> bun_Config \<Rightarrow> (string + open_store \<times> audit_db)" where
  "Open env database cfg =
     (case normalizeStorageType (bc_StorageType cfg) of
        None \<Rightarrow> Inl ''unsupported audit storage type''
      | Some name \<Rightarrow>
          rbind (openSQLDB env name cfg) (\<lambda>target.
            (let (err, db) = Migrate name (database target)
             in case err of
                  Some e \<Rightarrow> Inl e
                | None \<Rightarrow> Inr (\<lparr>os_dialect = name, os_target = target,
                              os_pool = applyPool name cfg initial_pool\<rparr>, db))))"

section \<open>Facts\<close>

text \<open>Statements of the schema: they create with the columns of the program and never drop.\<close>

definition table_columns :: "table \<Rightarrow> string list" where
  "table_columns t = (case t of EventsTable \<Rightarrow> event_columns | RollupsTable \<Rightarrow> rollup_columns | EventsV2Table \<Rightarrow> [])"

fun creates :: "sql_statement \<Rightarrow> bool" where
  "creates (CreateTable t cols) = (t \<noteq> EventsV2Table \<and> cols = table_columns t)"
| "creates (CreateIndex n t cols) = (t \<noteq> EventsV2Table \<and> set cols \<subseteq> set (table_columns t))"
| "creates (DropTable t) = False"

fun in_place :: "sql_statement \<Rightarrow> audit_db \<Rightarrow> bool" where
  "in_place (CreateTable t cols) db = (db_Columns db t \<noteq> None)"
| "in_place (CreateIndex n t cols) db = (n \<in> fst ` set (db_Indexes db))"
| "in_place (DropTable t) db = (db_Columns db t = None)"

text \<open>A table of the current program has its columns; a table without \<open>seq\<close> is a legacy one.\<close>

definition known :: "audit_db \<Rightarrow> bool" where
  "known db \<longleftrightarrow>
     (\<forall>cols. db_Columns db EventsTable = Some cols \<and> ''seq'' \<in> set cols \<longrightarrow> set event_columns \<subseteq> set cols) \<and>
     (\<forall>cols. db_Columns db RollupsTable = Some cols \<longrightarrow> set rollup_columns \<subseteq> set cols)"

definition extends :: "audit_db \<Rightarrow> audit_db \<Rightarrow> bool" where
  "extends db db' \<longleftrightarrow> db_Tables db' = db_Tables db \<and> db_Fails db' = db_Fails db \<and>
     (\<forall>t cols. db_Columns db t = Some cols \<longrightarrow> db_Columns db' t = Some cols) \<and>
     db_Columns db' EventsV2Table = db_Columns db EventsV2Table \<and> set (db_Indexes db) \<subseteq> set (db_Indexes db') \<and>
     (\<forall>t cols. db_Columns db t = None \<longrightarrow> db_Columns db' t = Some cols \<longrightarrow> cols = table_columns t)"

lemma extends_refl [simp]: "extends db db"
  by (simp add: extends_def)

lemma extends_trans: "extends a b \<Longrightarrow> extends b c \<Longrightarrow> extends a c"
  unfolding extends_def by (metis (no_types, lifting) not_None_eq option.inject subset_trans)

lemma apply_extends: "apply_statement st db = Some db' \<Longrightarrow> creates st \<Longrightarrow> extends db db'"
  by (cases st) (auto simp: apply_statement_def extends_def split: if_splits option.splits)

lemma exec_extends: "exec st db = (ok, db') \<Longrightarrow> creates st \<Longrightarrow> extends db db'"
proof -
  assume e: "exec st db = (ok, db')" and c: "creates st"
  have calls: "extends db (db\<lparr>db_Calls := n\<rparr>)" for n by (simp add: extends_def)
  show ?thesis
    using e c calls apply_extends [of st] by (auto simp: exec_def Let_def intro: extends_trans split: if_splits option.splits)
qed

lemma exec_all_extends: "exec_all sts db = (err, db') \<Longrightarrow> list_all creates sts \<Longrightarrow> extends db db'"
proof (induction sts arbitrary: db)
  case (Cons st sts)
  obtain ok db1 where e: "exec st db = (ok, db1)" by fastforce
  have "extends db db1" using exec_extends [OF e] Cons.prems by simp
  moreover have "extends db1 db'" using Cons e by (cases ok) auto
  ultimately show ?case by (rule extends_trans)
qed simp

lemma in_place_extends: "extends db db' \<Longrightarrow> in_place st db \<Longrightarrow> creates st \<Longrightarrow> in_place st db'"
  by (cases st) (auto simp: extends_def)

lemma exec_in_place: "exec st db = (True, db') \<Longrightarrow> in_place st db'"
  by (cases st) (auto simp: exec_def apply_statement_def Let_def split: if_splits option.splits)

lemma exec_all_in_place:
  "exec_all sts db = (None, db') \<Longrightarrow> list_all creates sts \<Longrightarrow> st \<in> set sts \<Longrightarrow> in_place st db'"
proof (induction sts arbitrary: db)
  case (Cons s sts)
  from Cons.prems(1) obtain db1 where e: "exec s db = (True, db1)" "exec_all sts db1 = (None, db')"
    by (auto simp: Let_def split: prod.splits if_splits)
  show ?case
  proof (cases "st = s")
    case True
    have "in_place st db1" using exec_in_place [OF e(1)] True by simp
    then show ?thesis using in_place_extends [OF exec_all_extends [OF e(2)]] Cons.prems True by simp
  next
    case False
    then show ?thesis using Cons e by auto
  qed
qed simp

lemma extends_columns:
  "extends db db' \<Longrightarrow> db_Columns db' t = Some cols \<Longrightarrow> db_Columns db t = Some cols \<or> cols = table_columns t"
  unfolding extends_def by (cases "db_Columns db t") auto

lemma known_extends: "known db \<Longrightarrow> extends db db' \<Longrightarrow> known db'"
  using extends_columns [of db db' EventsTable] extends_columns [of db db' RollupsTable]
  unfolding known_def table_columns_def by (metis subset_refl table.simps(7,9))

lemma schema_creates_each:
  "list_all creates (schemaStatements DialectSQLite)" "list_all creates (schemaStatements DialectPostgres)"
  "list_all creates (schemaStatements DialectMySQL)"
  by code_simp+

lemma schema_creates: "list_all creates (schemaStatements d)"
  by (cases d) (simp_all add: schema_creates_each)

lemma schema_tables: "CreateTable EventsTable event_columns \<in> set (schemaStatements d)"
  "CreateTable RollupsTable rollup_columns \<in> set (schemaStatements d)"
  by (simp_all add: schemaStatements_def)

text \<open>Statements that can run where nothing fails.\<close>

fun runnable :: "sql_statement \<Rightarrow> audit_db \<Rightarrow> bool" where
  "runnable (CreateIndex n t cols) db = (\<exists>have. db_Columns db t = Some have \<and> set cols \<subseteq> set have)"
| "runnable st db = True"

definition reliable :: "audit_db \<Rightarrow> bool" where
  "reliable db \<longleftrightarrow> (\<forall>n. \<not> db_Fails db n)"

lemma reliable_extends: "extends db db' \<Longrightarrow> reliable db \<Longrightarrow> reliable db'"
  by (simp add: extends_def reliable_def)

lemma runnable_extends: "extends db db' \<Longrightarrow> runnable st db \<Longrightarrow> runnable st db'"
  by (cases st) (auto simp: extends_def)

lemma exec_runnable: "reliable db \<Longrightarrow> runnable st db \<Longrightarrow> \<exists>db'. exec st db = (True, db')"
  by (cases st) (auto simp: exec_def reliable_def apply_statement_def Let_def)

lemma exec_all_runnable:
  "reliable db \<Longrightarrow> list_all creates sts \<Longrightarrow> list_all (\<lambda>st. runnable st db) sts \<Longrightarrow>
     \<exists>db'. exec_all sts db = (None, db')"
proof (induction sts arbitrary: db)
  case (Cons st sts)
  then obtain db1 where e: "exec st db = (True, db1)" using exec_runnable [of db st] by auto
  have x: "extends db db1" using exec_extends [OF e] Cons.prems by simp
  then have "list_all (\<lambda>st. runnable st db1) sts"
    using Cons.prems(3) runnable_extends by (auto simp: list_all_iff)
  with Cons.IH [of db1] reliable_extends [OF x] Cons.prems e show ?case by simp
qed simp

lemma exec_all_append:
  "exec_all sts db = (None, db1) \<Longrightarrow> exec_all (sts @ sts') db = exec_all sts' db1"
proof (induction sts arbitrary: db)
  case (Cons st sts)
  then show ?case by (auto simp: Let_def split: prod.splits if_splits)
qed simp

text \<open>The schema that the repository works on.\<close>

definition ready :: "dialectName \<Rightarrow> audit_db \<Rightarrow> bool" where
  "ready d db \<longleftrightarrow> known db \<and>
     (\<exists>cols. db_Columns db EventsTable = Some cols \<and> ''seq'' \<in> set cols) \<and>
     db_Columns db EventsV2Table = None \<and> list_all (\<lambda>st. in_place st db) (schemaStatements d)"

definition current_events :: "audit_db \<Rightarrow> bool" where
  "current_events db \<longleftrightarrow> (\<exists>cols. db_Columns db EventsTable = Some cols \<and> ''seq'' \<in> set cols)"

text \<open>What the first two steps of the migration leave behind.\<close>

definition audit_kept :: "audit_db \<Rightarrow> audit_db \<Rightarrow> bool" where
  "audit_kept db db' \<longleftrightarrow> db_Tables db' = db_Tables db \<and>
     db_Columns db' EventsTable = db_Columns db EventsTable \<and>
     db_Columns db' RollupsTable = db_Columns db RollupsTable \<and> db_Fails db' = db_Fails db"

lemma dropLegacy_current:
  "current_events db \<Longrightarrow> dropLegacyAuditEventsIfNeeded db = (err, db') \<Longrightarrow> audit_kept db db'"
  by (auto simp: dropLegacyAuditEventsIfNeeded_def auditEventsTableExists_def auditEventsSeqColumnExists_def
      inspect_def current_events_def audit_kept_def Let_def split: if_splits option.splits bool.splits)

lemma drop_v2_kept: "exec (DropTable EventsV2Table) db = (ok, db') \<Longrightarrow>
    audit_kept db db' \<and> (ok \<longrightarrow> db_Columns db' EventsV2Table = None)"
  by (auto simp: exec_def apply_statement_def audit_kept_def drop_rows_def Let_def split: if_splits)

lemma dropLegacy_done:
  "dropLegacyAuditEventsIfNeeded db = (None, db') \<Longrightarrow>
     db_Fails db' = db_Fails db \<and> db_Columns db' RollupsTable = db_Columns db RollupsTable \<and>
     tb_rollups (db_Tables db') = tb_rollups (db_Tables db) \<and>
     (if current_events db then db_Columns db' EventsTable = db_Columns db EventsTable \<and> db_Tables db' = db_Tables db
      else db_Columns db' EventsTable = None \<and>
           (db_Columns db EventsTable \<noteq> None \<longrightarrow> tb_events (db_Tables db') = []))"
  by (auto simp: dropLegacyAuditEventsIfNeeded_def auditEventsTableExists_def auditEventsSeqColumnExists_def
      inspect_def current_events_def exec_def apply_statement_def drop_rows_def Let_def
      split: if_splits option.splits bool.splits)

lemma dropLegacy_reliable:
  "reliable db \<Longrightarrow> \<exists>db'. dropLegacyAuditEventsIfNeeded db = (None, db')"
  by (auto simp: dropLegacyAuditEventsIfNeeded_def auditEventsTableExists_def auditEventsSeqColumnExists_def
      inspect_def exec_def apply_statement_def reliable_def Let_def split: option.splits bool.splits)

lemma Migrate_cases:
  obtains (legacy) e where "dropLegacyAuditEventsIfNeeded db = (Some e, snd (Migrate d db))" "fst (Migrate d db) \<noteq> None"
  | (obsolete) db1 where "dropLegacyAuditEventsIfNeeded db = (None, db1)"
      "exec (DropTable EventsV2Table) db1 = (False, snd (Migrate d db))" "fst (Migrate d db) \<noteq> None"
  | (schema) db1 db2 where "dropLegacyAuditEventsIfNeeded db = (None, db1)"
      "exec (DropTable EventsV2Table) db1 = (True, db2)" "Migrate d db = exec_all (schemaStatements d) db2"
proof -
  obtain err db1 where l: "dropLegacyAuditEventsIfNeeded db = (err, db1)" by fastforce
  obtain ok db2 where x: "exec (DropTable EventsV2Table) db1 = (ok, db2)" by fastforce
  show ?thesis
    by (cases err; cases ok) (use legacy obsolete schema l x in \<open>auto simp: Migrate_def\<close>)
qed

lemma known_after_drops:
  assumes "known db" and "dropLegacyAuditEventsIfNeeded db = (None, db1)"
    and "exec (DropTable EventsV2Table) db1 = (True, db2)"
  shows "known db2" and "db_Columns db2 EventsTable = None \<or> current_events db2"
    and "db_Fails db2 = db_Fails db" and "db_Columns db2 EventsV2Table = None"
  using dropLegacy_done [OF assms(2)] drop_v2_kept [OF assms(3)] assms(1)
  by (auto simp: known_def audit_kept_def current_events_def split: if_splits)

lemma seq_column: "''seq'' \<in> set event_columns"
  by code_simp

lemma migrate_ready:
  assumes k: "known db" and m: "Migrate d db = (None, db')"
  shows "ready d db'"
proof (cases rule: Migrate_cases [of db d])
  case (schema db1 db2)
  note k2 = known_after_drops [OF k schema(1,2)]
  have run: "exec_all (schemaStatements d) db2 = (None, db')" using schema(3) m by simp
  have x: "extends db2 db'" using exec_all_extends [OF run schema_creates] .
  have place: "list_all (\<lambda>st. in_place st db') (schemaStatements d)"
    using exec_all_in_place [OF run schema_creates] by (simp add: list_all_iff)
  then have "in_place (CreateTable EventsTable event_columns) db'"
    using schema_tables(1) [of d] unfolding list_all_iff by blast
  then have "db_Columns db' EventsTable \<noteq> None" by simp
  then have "\<exists>cols. db_Columns db' EventsTable = Some cols \<and> ''seq'' \<in> set cols"
    using x k2(2) seq_column unfolding extends_def current_events_def
    by (cases "db_Columns db2 EventsTable") (fastforce simp: table_columns_def)+
  moreover have "db_Columns db' EventsV2Table = None" using x k2(4) by (simp add: extends_def)
  ultimately show ?thesis using place known_extends [OF k2(1) x] by (simp add: ready_def)
qed (use m in simp_all)

lemma migrate_runs:
  assumes k: "known db" and r: "reliable db"
  shows "fst (Migrate d db) = None"
proof -
  from dropLegacy_reliable [OF r] obtain db1 where l: "dropLegacyAuditEventsIfNeeded db = (None, db1)" ..
  have "reliable db1" using dropLegacy_done [OF l] r by (simp add: reliable_def)
  then obtain db2 where v: "exec (DropTable EventsV2Table) db1 = (True, db2)"
    using exec_runnable [of db1 "DropTable EventsV2Table"] by auto
  note k2 = known_after_drops [OF k l v]
  have r2: "reliable db2" using k2(3) r by (simp add: reliable_def)
  let ?events = "CreateTable EventsTable event_columns" and ?rollups = "CreateTable RollupsTable rollup_columns"
  have split: "\<exists>ei ri. schemaStatements d = ?events # ei @ ?rollups # ri \<and>
      list_all (\<lambda>st. \<exists>n cols. st = CreateIndex n EventsTable cols) ei \<and> list_all (\<lambda>st. \<exists>n cols. st = CreateIndex n RollupsTable cols) ri"
  proof (cases "d = DialectMySQL")
    case True
    then have "schemaStatements d = ?events # [] @ ?rollups # []" by (simp add: schemaStatements_def)
    then show ?thesis by (intro exI [of _ "[]"]) simp
  next
    case False
    then show ?thesis
      by (intro exI [of _ "map (\<lambda>(n, cols). CreateIndex n EventsTable cols) event_indexes"]
          exI [of _ "map (\<lambda>(n, cols). CreateIndex n RollupsTable cols) rollup_indexes"])
        (auto simp: schemaStatements_def list_all_iff)
  qed
  then obtain ei ri where s: "schemaStatements d = ?events # ei @ ?rollups # ri"
    and ei: "list_all (\<lambda>st. \<exists>n cols. st = CreateIndex n EventsTable cols) ei"
    and ri: "list_all (\<lambda>st. \<exists>n cols. st = CreateIndex n RollupsTable cols) ri" by blast
  have c: "list_all creates (?events # ei @ ?rollups # ri)" using schema_creates [of d] s by simp
  have index: "list_all (\<lambda>st. runnable st b) is"
    if "list_all (\<lambda>st. \<exists>n cols. st = CreateIndex n t cols) is" "list_all creates is"
      "db_Columns b t = Some have" "set (table_columns t) \<subseteq> set have" for b t "have" "is"
    using that by (fastforce simp: list_all_iff)
  have cols: "\<exists>have. db_Columns b t = Some have \<and> set (table_columns t) \<subseteq> set have"
    if "known b" "db_Columns b t \<noteq> None" "t = EventsTable \<longrightarrow> current_events b" "t \<noteq> EventsV2Table" for b t
    using that by (cases t) (auto simp: known_def current_events_def table_columns_def)
  obtain b1 where b1: "exec ?events db2 = (True, b1)" using exec_runnable [OF r2, of ?events] by auto
  have x1: "extends db2 b1" using exec_extends [OF b1] c by simp
  have cur1: "current_events b1"
    using exec_in_place [OF b1] x1 k2(2) seq_column unfolding extends_def current_events_def
    by (cases "db_Columns db2 EventsTable") (fastforce simp: table_columns_def)+
  obtain b2 where b2: "exec_all ei b1 = (None, b2)"
    using exec_all_runnable [OF reliable_extends [OF x1 r2], of ei] c index [OF ei]
      cols [OF known_extends [OF k2(1) x1], of EventsTable] exec_in_place [OF b1] cur1 by auto
  have x2: "extends db2 b2" using extends_trans [OF x1 exec_all_extends [OF b2]] c by simp
  obtain b3 where b3: "exec ?rollups b2 = (True, b3)"
    using exec_runnable [OF reliable_extends [OF x2 r2], of ?rollups] by auto
  have x3: "extends db2 b3" using extends_trans [OF x2 exec_extends [OF b3]] c by simp
  obtain b4 where b4: "exec_all ri b3 = (None, b4)"
    using exec_all_runnable [OF reliable_extends [OF x3 r2], of ri] c index [OF ri]
      cols [OF known_extends [OF k2(1) x3], of RollupsTable] exec_in_place [OF b3] by auto
  have "exec_all (schemaStatements d) db2 = (None, b4)"
    using b1 b3 b4 exec_all_append [OF b2, of "?rollups # ri"] by (simp add: s)
  then show ?thesis using l v by (simp add: Migrate_def)
qed

fun settled :: "sql_statement \<Rightarrow> audit_db \<Rightarrow> bool" where
  "settled (CreateIndex n t cols) db = (db_Columns db t \<noteq> None \<and> n \<in> fst ` set (db_Indexes db))"
| "settled st db = in_place st db"

lemma exec_settled: "reliable db \<Longrightarrow> settled st db \<Longrightarrow> exec st db = (True, db\<lparr>db_Calls := Suc (db_Calls db)\<rparr>)"
  by (cases st) (simp_all add: exec_def apply_statement_def reliable_def Let_def split: option.split, auto)

lemma settled_calls [simp]: "settled st (db\<lparr>db_Calls := n\<rparr>) = settled st db" "reliable (db\<lparr>db_Calls := n\<rparr>) = reliable db"
  by (cases st) (simp_all add: reliable_def)

lemma exec_all_settled:
  "reliable db \<Longrightarrow> list_all (\<lambda>st. settled st db) sts \<Longrightarrow> \<exists>n. exec_all sts db = (None, db\<lparr>db_Calls := n\<rparr>)"
proof (induction sts arbitrary: db)
  case Nil
  show ?case by (intro exI [of _ "db_Calls db"]) simp
next
  case (Cons st sts)
  let ?db = "db\<lparr>db_Calls := Suc (db_Calls db)\<rparr>"
  from Cons.prems Cons.IH [of ?db] obtain n where "exec_all sts ?db = (None, ?db\<lparr>db_Calls := n\<rparr>)" by auto
  with exec_settled [of db st] Cons.prems show ?case by auto
qed

lemma ready_settled: "ready d db \<Longrightarrow> list_all (\<lambda>st. settled st db) (schemaStatements d)"
proof -
  assume r: "ready d db"
  then have p: "\<forall>st \<in> set (schemaStatements d). in_place st db" by (simp add: ready_def list_all_iff)
  with schema_tables [of d] have "in_place (CreateTable EventsTable event_columns) db"
    "in_place (CreateTable RollupsTable rollup_columns) db" by blast+
  then have t: "db_Columns db t \<noteq> None" if "t \<noteq> EventsV2Table" for t
    using that by (cases t) simp_all
  have c: "\<forall>st \<in> set (schemaStatements d). creates st" using schema_creates [of d] by (simp add: list_all_iff)
  have "settled st db" if "st \<in> set (schemaStatements d)" for st
    using p c that t by (cases st) fastforce+
  then show ?thesis by (simp add: list_all_iff)
qed

lemma OpenE:
  assumes "Open env database cfg = Inr st"
  obtains name target db where "normalizeStorageType (bc_StorageType cfg) = Some name"
    "openSQLDB env name cfg = Inr target" "Migrate name (database target) = (None, db)"
    "st = (\<lparr>os_dialect = name, os_target = target, os_pool = applyPool name cfg initial_pool\<rparr>, db)"
proof -
  from assms obtain name target where n: "normalizeStorageType (bc_StorageType cfg) = Some name"
    "openSQLDB env name cfg = Inr target" by (auto simp: Open_def rbind_Inr_iff split: option.splits)
  obtain err db where m: "Migrate name (database target) = (err, db)" by fastforce
  with assms n have "err = None" "st = (\<lparr>os_dialect = name, os_target = target, os_pool = applyPool name cfg initial_pool\<rparr>, db)"
    by (auto simp: Open_def split: option.splits)
  with n m that show thesis by blast
qed

lemma migrate_keeps:
  assumes "known db" and cur: "current_events db"
  shows "db_Tables (snd (Migrate d db)) = db_Tables db"
proof (cases rule: Migrate_cases [of db d])
  case (legacy e)
  then show ?thesis using dropLegacy_current [OF cur legacy(1)] by (simp add: audit_kept_def)
next
  case (obsolete db1)
  then show ?thesis
    using dropLegacy_current [OF cur obsolete(1)] drop_v2_kept [OF obsolete(2)] by (simp add: audit_kept_def)
next
  case (schema db1 db2)
  obtain err db' where e: "exec_all (schemaStatements d) db2 = (err, db')" by fastforce
  show ?thesis
    using dropLegacy_current [OF cur schema(1)] drop_v2_kept [OF schema(2)]
      exec_all_extends [OF e schema_creates] schema(3) e by (simp add: audit_kept_def extends_def)
qed

text \<open>
  C11. Migrating a database of this program keeps every audit row, whichever statement fails; a migration
  that reports success leaves the schema that the repository works on, and where no statement fails it
  does succeed, from an empty, a legacy or a half-migrated database alike.  Migrating again changes
  nothing.  A legacy event table, one without \<open>seq\<close>, is dropped with its rows.
\<close>

theorem migration_safe:
  assumes k: "known db"
  shows "(current_events db \<longrightarrow> db_Tables (snd (Migrate d db)) = db_Tables db) \<and>
    (fst (Migrate d db) = None \<longrightarrow> ready d (snd (Migrate d db)) \<and>
       (\<not> current_events db \<longrightarrow> db_Columns db EventsTable \<noteq> None \<longrightarrow> tb_events (db_Tables (snd (Migrate d db))) = [])) \<and>
    (reliable db \<longrightarrow> fst (Migrate d db) = None) \<and>
    (ready d db \<and> reliable db \<longrightarrow> (\<exists>n. Migrate d db = (None, db\<lparr>db_Calls := n\<rparr>)))"
proof (intro conjI impI)
  assume cur: "current_events db"
  show "db_Tables (snd (Migrate d db)) = db_Tables db" by (rule migrate_keeps [OF k cur])
next
  assume ok: "fst (Migrate d db) = None"
  then show "ready d (snd (Migrate d db))" by (metis migrate_ready [OF k] prod.collapse)
  assume old: "\<not> current_events db" "db_Columns db EventsTable \<noteq> None"
  show "tb_events (db_Tables (snd (Migrate d db))) = []"
  proof (cases rule: Migrate_cases [of db d])
    case (schema db1 db2)
    obtain err db' where e: "exec_all (schemaStatements d) db2 = (err, db')" by fastforce
    show ?thesis
      using dropLegacy_done [OF schema(1)] drop_v2_kept [OF schema(2)] old
        exec_all_extends [OF e schema_creates] schema(3) e by (simp add: audit_kept_def extends_def)
  qed (use ok in simp_all)
next
  assume "reliable db"
  then show "fst (Migrate d db) = None" by (rule migrate_runs [OF k])
next
  assume a: "ready d db \<and> reliable db"
  then have cur: "current_events db" and v2: "db_Columns db EventsV2Table = None" and r: "reliable db"
    by (simp_all add: ready_def current_events_def)
  let ?db2 = "db\<lparr>db_Calls := Suc (Suc (db_Calls db))\<rparr>"
  have l: "dropLegacyAuditEventsIfNeeded db = (None, ?db2)"
    using cur r by (auto simp: dropLegacyAuditEventsIfNeeded_def auditEventsTableExists_def
        auditEventsSeqColumnExists_def inspect_def current_events_def reliable_def)
  have v: "exec (DropTable EventsV2Table) ?db2 = (True, ?db2\<lparr>db_Calls := Suc (db_Calls ?db2)\<rparr>)"
    by (rule exec_settled) (use r v2 in simp_all)
  have "\<exists>n. exec_all (schemaStatements d) (?db2\<lparr>db_Calls := Suc (db_Calls ?db2)\<rparr>) =
      (None, ?db2\<lparr>db_Calls := Suc (db_Calls ?db2)\<rparr>\<lparr>db_Calls := n\<rparr>)"
    by (rule exec_all_settled) (use r ready_settled [of d db] a in simp_all)
  then show "\<exists>n. Migrate d db = (None, db\<lparr>db_Calls := n\<rparr>)" using l v by (auto simp: Migrate_def)
qed

definition demo_db :: audit_db where
  "demo_db = \<lparr>db_Columns = [EventsTable \<mapsto> [''id'', ''timestamp'']], db_Indexes = [],
     db_Tables = empty_tables, db_Fails = (\<lambda>n. False), db_Calls = 0\<rparr>"

theorem migration_safe_witness:
  "known demo_db \<and> \<not> current_events demo_db \<and> fst (Migrate DialectSQLite demo_db) = None \<and>
   ready DialectSQLite (snd (Migrate DialectSQLite demo_db))"
proof -
  have k: "known demo_db" by (simp add: known_def demo_db_def)
  have r: "reliable demo_db" by (simp add: reliable_def demo_db_def)
  have "\<not> current_events demo_db" by (simp add: current_events_def demo_db_def)
  with migration_safe [OF k, of DialectSQLite] k r show ?thesis by simp
qed

text \<open>
  A path given as a \<open>file:\<close> URI makes the program create a directory under that very name, which is a
  relative one, before it opens the database.
\<close>

lemma file_uri_directory:
  "sqliteDSN (\<lambda>dir. dir = ''file:/data'') \<lparr>bc_StorageType = ''sqlite'', bc_DSN = [], bc_SQLitePath = ''file:/data/audit.db'',
     bc_MaxOpenConns = 0, bc_MaxIdleConns = 0, bc_ConnMaxLifetime = 0, bc_ConnMaxIdleTime = 0\<rparr> =
   Inr ''file:/data/audit.db''"
  by code_simp

text \<open>SQLite is opened with one connection, so transactions of the program never interleave there.\<close>

lemma sqlite_single_connection:
  "pl_MaxOpen (applyPool DialectSQLite cfg p) = 1 \<and> pl_MaxIdle (applyPool DialectSQLite cfg p) = 1"
  by (simp add: applyPool_def SetMaxOpenConns_def SetMaxIdleConns_def Let_def)

end
