(* ===== verification/Upstream.thy ===== *)
theory Upstream
  imports GoMarshal Handlers Config
begin

text \<open>
  The clients of the upstream services: Turnstile siteverify (\<open>internal/turnstile\<close>), the Firebase App
  Check exchange (\<open>internal/firebaseappcheck\<close>), the service account (\<open>internal/auth\<close>) and the mocks
  of the end-to-end mode (\<open>internal/e2e\<close>).  What answers an HTTP request is a function from requests
  to responses; signing a token, reading its claims, decoding PEM blocks and parsing keys are
  third-party functions and therefore arguments.  Errors are their texts; the texts of library errors
  that the code wraps are left out.
\<close>

section \<open>HTTP\<close>

record http_request =
  hq_Method :: string
  hq_URL :: string
  hq_Headers :: headers
  hq_Body :: string

text \<open>A response body may end with an error instead of its end.\<close>

record http_response =
  hs_Status :: int
  hs_Body :: string
  hs_Broken :: bool

type_synonym http_client = "http_request \<Rightarrow> string + http_response"

text \<open>\<open>http.NewRequestWithContext\<close> for POST: the URL must parse.\<close>

definition new_post :: "string \<Rightarrow> string \<Rightarrow> string + http_request" where
  "new_post url body =
     (case url_parse url of
        None \<Rightarrow> Inl ''parse url''
      | Some u \<Rightarrow> Inr \<lparr>hq_Method = ''POST'', hq_URL = url, hq_Headers = [], hq_Body = body\<rparr>)"

definition set_header :: "string \<Rightarrow> string \<Rightarrow> http_request \<Rightarrow> http_request" where
  "set_header k v q = q\<lparr>hq_Headers := header_set k v (hq_Headers q)\<rparr>"

text \<open>\<open>io.ReadAll(io.LimitReader(body, 1<<20))\<close>: an error beyond the limit is not seen.\<close>

definition read_response :: "http_response \<Rightarrow> string option" where
  "read_response r =
     (if hs_Broken r \<and> int (length (hs_Body r)) < 1048576 then None
      else Some (limit_reader 1048576 (hs_Body r)))"

definition success_status :: "int \<Rightarrow> bool" where
  "success_status s \<longleftrightarrow> \<not> (s < 200 \<or> 299 < s)"

text \<open>Wrapping an error with a prefix.\<close>

definition wrap :: "string \<Rightarrow> string + 'a \<Rightarrow> string + 'a" where
  "wrap msg r = (case r of Inl e \<Rightarrow> Inl (msg @ '': '' @ e) | Inr v \<Rightarrow> Inr v)"

definition or_error :: "string \<Rightarrow> 'a option \<Rightarrow> string + 'a" where
  "or_error msg r = (case r of None \<Rightarrow> Inl msg | Some v \<Rightarrow> Inr v)"

lemma wrap_Inr [simp]: "wrap msg r = Inr v \<longleftrightarrow> r = Inr v"
  by (cases r) (simp_all add: wrap_def)

lemma or_error_Inr [simp]: "or_error msg r = Inr v \<longleftrightarrow> r = Some v"
  by (cases r) (simp_all add: or_error_def)

section \<open>Turnstile\<close>

record turnstile_client =
  tc_httpClient :: http_client
  tc_secretKey :: string
  tc_verifyURL :: string

definition turnstile_NewClient :: "http_client option \<Rightarrow> string \<Rightarrow> string \<Rightarrow> string + turnstile_client" where
  "turnstile_NewClient httpClient secretKey verifyURL =
     (case httpClient of
        None \<Rightarrow> Inl ''http client is required''
      | Some client \<Rightarrow>
          if trim_space secretKey = [] then Inl ''turnstile secret key is required''
          else if trim_space verifyURL = [] then Inl ''turnstile verify url is required''
          else Inr \<lparr>tc_httpClient = client, tc_secretKey = trim_space secretKey,
                    tc_verifyURL = trim_space verifyURL\<rparr>)"

text \<open>
  Decoding an array into a slice of strings stores the elements one by one over what the slice
  held; a null element leaves the old value.
\<close>

fun fill_strings :: "string list \<Rightarrow> json list \<Rightarrow> string list option" where
  "fill_strings old [] = Some old"
| "fill_strings old (v # vs) =
     (case v of
        JString s \<Rightarrow> map_option (\<lambda>r. s # r) (fill_strings (tl old) vs)
      | JNull \<Rightarrow> map_option (\<lambda>r. (if old = [] then [] else hd old) # r) (fill_strings (tl old) vs)
      | _ \<Rightarrow> None)"

text \<open>The struct with the memory behind the slice, of which the slice shows a part.\<close>

definition decode_verify_field ::
    "string \<Rightarrow> json \<Rightarrow> VerifyResponse \<times> string list \<Rightarrow> (VerifyResponse \<times> string list) option" where
  "decode_verify_field k v = (\<lambda>(r, mem).
     let text = (\<lambda>upd. case v of JString s \<Rightarrow> Some (upd s, mem) | JNull \<Rightarrow> Some (r, mem) | _ \<Rightarrow> None);
         name = fold_name k
     in if name = ''success'' then
          (case v of JBool b \<Rightarrow> Some (r\<lparr>vs_Success := b\<rparr>, mem) | JNull \<Rightarrow> Some (r, mem) | _ \<Rightarrow> None)
        else if name = ''challenge_ts'' then text (\<lambda>s. r\<lparr>vs_ChallengeTS := s\<rparr>)
        else if name = ''hostname'' then text (\<lambda>s. r\<lparr>vs_Hostname := s\<rparr>)
        else if name = ''error-codes'' then
          (case v of
             JArray vs \<Rightarrow>
               (if vs = [] then Some (r\<lparr>vs_ErrorCodes := []\<rparr>, [])
                else map_option (\<lambda>m. (r\<lparr>vs_ErrorCodes := take (length vs) m\<rparr>, m)) (fill_strings mem vs))
           | JNull \<Rightarrow> Some (r\<lparr>vs_ErrorCodes := []\<rparr>, [])
           | _ \<Rightarrow> None)
        else if name = ''action'' then text (\<lambda>s. r\<lparr>vs_Action := s\<rparr>)
        else if name = ''cdata'' then text (\<lambda>s. r\<lparr>vs_CData := s\<rparr>)
        else Some (r, mem))"

fun decode_verify_fields ::
    "(string \<times> json) list \<Rightarrow> VerifyResponse \<times> string list \<Rightarrow> (VerifyResponse \<times> string list) option" where
  "decode_verify_fields [] r = Some r"
| "decode_verify_fields ((k, v) # kvs) r = Option.bind (decode_verify_field k v r) (decode_verify_fields kvs)"

definition zero_verify_response :: VerifyResponse where
  "zero_verify_response = \<lparr>vs_Success = False, vs_ChallengeTS = [], vs_Hostname = [], vs_ErrorCodes = [],
     vs_Action = [], vs_CData = []\<rparr>"

definition decode_verify_response :: "string \<Rightarrow> VerifyResponse option" where
  "decode_verify_response body =
     (case parse_json body of
        Some (JObject kvs) \<Rightarrow> map_option fst (decode_verify_fields kvs (zero_verify_response, []))
      | Some JNull \<Rightarrow> Some zero_verify_response
      | _ \<Rightarrow> None)"

text \<open>The request that \<open>Verify\<close> sends, and what it makes of the answer.\<close>

definition verify_values :: "turnstile_client \<Rightarrow> VerifyRequest \<Rightarrow> form" where
  "verify_values c req =
     [(''secret'', tc_secretKey c), (''response'', vr_Token req)] @
     (if trim_space (vr_RemoteIP req) \<noteq> [] then [(''remoteip'', trim_space (vr_RemoteIP req))] else [])"

definition verify_http_request :: "turnstile_client \<Rightarrow> VerifyRequest \<Rightarrow> string + http_request" where
  "verify_http_request c req =
     rbind (wrap ''create request'' (new_post (tc_verifyURL c) (form_encode (verify_values c req))))
       (\<lambda>q. Inr (set_header ''Accept'' ''application/json''
                  (set_header ''Content-Type'' ''application/x-www-form-urlencoded'' q)))"

definition turnstile_Verify :: "turnstile_client \<Rightarrow> VerifyRequest \<Rightarrow> string + VerifyResponse" where
  "turnstile_Verify c req =
     (if trim_space (vr_Token req) = [] then Inl ''token is required''
      else rbind (verify_http_request c req) (\<lambda>q.
           rbind (wrap ''siteverify request failed'' (tc_httpClient c q)) (\<lambda>resp.
           rbind (or_error ''read siteverify response'' (read_response resp)) (\<lambda>body.
           rbind (or_error ''parse siteverify response'' (decode_verify_response body)) (\<lambda>parsed.
             if \<not> success_status (hs_Status resp)
             then Inl (''siteverify returned status '' @ show_int (hs_Status resp))
             else Inr parsed)))))"

section \<open>Durations as texts\<close>

text \<open>\<open>%09d\<close>.\<close>

definition pad9 :: "int \<Rightarrow> string" where
  "pad9 i = (let s = show_nat (nat i) in replicate (9 - length s) CHR ''0'' @ s)"

definition millisecondsToDurationString :: "int \<Rightarrow> string" where
  "millisecondsToDurationString milliseconds =
     (let seconds = quot64 milliseconds 1000;
          nanos = wrap64 ((milliseconds - seconds * 1000) * 1000000)
      in if nanos \<le> 0 then show_int seconds @ ''s''
         else show_int seconds @ ''.'' @ pad9 nanos @ ''s'')"

definition parseDurationToMillis :: "string \<Rightarrow> string + int" where
  "parseDurationToMillis duration =
     (case parse_duration duration of
        None \<Rightarrow> Inl ''invalid duration''
      | Some d \<Rightarrow> Inr (duration_millis d))"

section \<open>Firebase App Check\<close>

text \<open>The custom token: header and claims as \<open>BuildCustomToken\<close> sets them; signing is an argument.\<close>

record custom_claims =
  cc_Iss :: string
  cc_Sub :: string
  cc_AppID :: string
  cc_Aud :: string
  cc_Exp :: int
  cc_Iat :: int
  cc_TTL :: "string option"

record jwt_token =
  jt_Alg :: string
  jt_Typ :: string
  jt_Claims :: custom_claims

definition customTokenAudience :: string where
  "customTokenAudience =
     ''https://firebaseappcheck.googleapis.com/google.firebase.appcheck.v1.TokenExchangeService''"

record CustomTokenOptions =
  co_TTLMillis :: "int option"

definition custom_claims_of :: "string \<Rightarrow> string \<Rightarrow> time \<Rightarrow> CustomTokenOptions \<Rightarrow> custom_claims" where
  "custom_claims_of serviceAccountEmail appID now options =
     (let iat = time_unix now
      in \<lparr>cc_Iss = serviceAccountEmail, cc_Sub = serviceAccountEmail, cc_AppID = appID,
          cc_Aud = customTokenAudience, cc_Exp = wrap64 (iat + 5 * 60), cc_Iat = iat,
          cc_TTL = map_option millisecondsToDurationString (co_TTLMillis options)\<rparr>)"

definition BuildCustomToken ::
    "('k \<Rightarrow> jwt_token \<Rightarrow> string + string) \<Rightarrow> 'k option \<Rightarrow> string \<Rightarrow> string \<Rightarrow> time \<Rightarrow>
       CustomTokenOptions \<Rightarrow> string + string" where
  "BuildCustomToken sign privateKey serviceAccountEmail appID now options =
     (case privateKey of
        None \<Rightarrow> Inl ''private key is nil''
      | Some key \<Rightarrow>
          if serviceAccountEmail = [] then Inl ''service account email is required''
          else if appID = [] then Inl ''app id is required''
          else wrap ''failed to sign custom token''
                 (sign key \<lparr>jt_Alg = ''RS256'', jt_Typ = ''JWT'',
                            jt_Claims = custom_claims_of serviceAccountEmail appID now options\<rparr>))"

text \<open>The third-party functions that the client uses, and the client.\<close>

datatype claim = ClaimFloat float64 | ClaimNumber string | ClaimOther

record 'k jwt_library =
  jl_SignedString :: "'k \<Rightarrow> jwt_token \<Rightarrow> string + string"
  jl_ParseUnverified :: "string \<Rightarrow> string + (string \<Rightarrow> claim option)"

record 'k appcheck_client =
  fc_httpClient :: http_client
  fc_privateKey :: 'k
  fc_privateKeyEmail :: string
  fc_appResource :: string
  fc_appID :: string
  fc_customTokenOptions :: CustomTokenOptions

definition appcheck_NewClient ::
    "http_client option \<Rightarrow> bool \<Rightarrow> 'k option \<Rightarrow> string \<Rightarrow> string \<Rightarrow> string \<Rightarrow> CustomTokenOptions \<Rightarrow>
       string + 'k appcheck_client" where
  "appcheck_NewClient httpClient has_token_source privateKey serviceAccountEmail appResource appID options =
     (case httpClient of
        None \<Rightarrow> Inl ''http client is required''
      | Some client \<Rightarrow>
          if \<not> has_token_source then Inl ''token source is required''
          else case privateKey of
            None \<Rightarrow> Inl ''private key is required''
          | Some key \<Rightarrow>
              if trim_space serviceAccountEmail = [] then Inl ''service account email is required''
              else if trim_space appResource = [] then Inl ''app resource is required''
              else if trim_space appID = [] then Inl ''app id is required''
              else Inr \<lparr>fc_httpClient = client, fc_privateKey = key,
                        fc_privateKeyEmail = trim_space serviceAccountEmail,
                        fc_appResource = trim_space appResource, fc_appID = trim_space appID,
                        fc_customTokenOptions = options\<rparr>)"

text \<open>
  Go's conversion of a float64 to \<open>int64\<close> truncates; outside the range the result is left to the
  implementation, here the value of the amd64 instruction.
\<close>

definition float_to_int64 :: "float64 \<Rightarrow> int" where
  "float_to_int64 f =
     (case f of
        Fin r \<Rightarrow> let i = (if r < 0 then - \<lfloor>- r\<rfloor> else \<lfloor>r\<rfloor>) in if is_int64 i then i else min_int64
      | _ \<Rightarrow> min_int64)"

definition parseJWTExpireTimeMillis ::
    "(string \<Rightarrow> string + (string \<Rightarrow> claim option)) \<Rightarrow> string \<Rightarrow> string + int" where
  "parseJWTExpireTimeMillis parse_unverified token =
     rbind (wrap ''parse token'' (parse_unverified token)) (\<lambda>claims.
       case claims ''exp'' of
         None \<Rightarrow> Inl ''token missing exp claim''
       | Some (ClaimFloat v) \<Rightarrow> Inr (wrap64 (float_to_int64 v * 1000))
       | Some (ClaimNumber v) \<Rightarrow>
           (case atoi v of None \<Rightarrow> Inl ''invalid exp claim'' | Some i \<Rightarrow> Inr (wrap64 (i * 1000)))
       | Some ClaimOther \<Rightarrow> Inl ''unexpected exp claim type'')"

text \<open>The JSON structs of the exchange, encoded and decoded.\<close>

definition exchange_payload :: "string \<Rightarrow> bool \<Rightarrow> string" where
  "exchange_payload customToken limitedUse =
     json_object [(''customToken'', json_quote customToken), (''limitedUse'', json_bool limitedUse)]"

record exchangeResponse =
  er_Token :: string
  er_TTL :: string

definition decode_exchange_response :: "string \<Rightarrow> exchangeResponse option" where
  "decode_exchange_response body =
     (case parse_json body of
        Some (JObject kvs) \<Rightarrow>
          (case (string_member ''token'' kvs [], string_member ''ttl'' kvs []) of
             (Some t, Some d) \<Rightarrow> Some \<lparr>er_Token = t, er_TTL = d\<rparr>
           | _ \<Rightarrow> None)
      | Some JNull \<Rightarrow> Some \<lparr>er_Token = [], er_TTL = []\<rparr>
      | _ \<Rightarrow> None)"

fun error_member :: "(string \<times> json) list \<Rightarrow> string \<Rightarrow> string option" where
  "error_member [] m = Some m"
| "error_member ((k, v) # kvs) m =
     (if fold_name k \<noteq> ''error'' then error_member kvs m
      else case v of
        JObject inner \<Rightarrow> Option.bind (string_member ''message'' inner m) (error_member kvs)
      | JNull \<Rightarrow> error_member kvs m
      | _ \<Rightarrow> None)"

definition parseGoogleAPIError :: "string \<Rightarrow> string" where
  "parseGoogleAPIError body =
     (case parse_json body of
        Some (JObject kvs) \<Rightarrow>
          (case error_member kvs [] of Some m \<Rightarrow> trim_space m | None \<Rightarrow> trim_space body)
      | Some JNull \<Rightarrow> []
      | _ \<Rightarrow> trim_space body)"

definition appCheckExchangeEndpointPrefix :: string where
  "appCheckExchangeEndpointPrefix = ''https://firebaseappcheck.googleapis.com/v1/''"

definition exchange_http_request :: "'k appcheck_client \<Rightarrow> string \<Rightarrow> string \<Rightarrow> bool \<Rightarrow> string + http_request" where
  "exchange_http_request c access customToken limitedUse =
     rbind (wrap ''create exchange request''
              (new_post (appCheckExchangeEndpointPrefix @ fc_appResource c @ '':exchangeCustomToken'')
                 (exchange_payload customToken limitedUse)))
       (\<lambda>q. Inr (set_header ''Accept'' ''application/json''
                  (set_header ''Content-Type'' ''application/json''
                     (set_header ''Authorization'' (''Bearer '' @ access) q))))"

text \<open>What the client makes of the answer; \<open>now\<close> is the second reading of the clock.\<close>

definition exchange_answer ::
    "(string \<Rightarrow> string + (string \<Rightarrow> claim option)) \<Rightarrow> time \<Rightarrow> int \<Rightarrow> string \<Rightarrow> string + ExchangeResult" where
  "exchange_answer parse_unverified now status body =
     (if \<not> success_status status
      then Inl (''firebase exchange failed with status '' @ show_int status @ '': '' @
                (let apiMessage = parseGoogleAPIError body
                 in if apiMessage = [] then ''firebase exchange failed'' else apiMessage))
      else rbind (or_error ''parse exchange response'' (decode_exchange_response body)) (\<lambda>parsed.
        if trim_space (er_Token parsed) = [] then Inl ''exchange response missing token''
        else case parseDurationToMillis (er_TTL parsed) of
          Inl err \<Rightarrow>
            (case parseJWTExpireTimeMillis parse_unverified (er_Token parsed) of
               Inl expErr \<Rightarrow> Inl (''parse exchange ttl: '' @ err)
             | Inr expMillis \<Rightarrow>
                 Inr \<lparr>xr_Token = er_Token parsed, xr_ExpireTimeMillis = expMillis,
                      xr_TTLMillis = wrap64 (expMillis - time_unix_milli now)\<rparr>)
        | Inr ttlMillis \<Rightarrow>
            Inr \<lparr>xr_Token = er_Token parsed,
                 xr_ExpireTimeMillis = time_unix_milli (time_add now (wrap64 (ttlMillis * millisecond))),
                 xr_TTLMillis = ttlMillis\<rparr>))"

text \<open>
  \<open>Exchange\<close>: \<open>clock\<close> are the readings of \<open>c.now\<close>, \<open>access\<close> is what the token source answers.
\<close>

definition appcheck_Exchange ::
    "'k jwt_library \<Rightarrow> (nat \<Rightarrow> time) \<Rightarrow> string + string \<Rightarrow> 'k appcheck_client \<Rightarrow> bool \<Rightarrow> string + ExchangeResult" where
  "appcheck_Exchange jwt clock access c limitedUse =
     rbind (wrap ''build custom token''
              (BuildCustomToken (jl_SignedString jwt) (Some (fc_privateKey c)) (fc_privateKeyEmail c)
                 (fc_appID c) (clock 0) (fc_customTokenOptions c))) (\<lambda>customToken.
     rbind (wrap ''fetch oauth access token'' access) (\<lambda>tok.
     rbind (exchange_http_request c tok customToken limitedUse) (\<lambda>q.
     rbind (wrap ''exchange request failed'' (fc_httpClient c q)) (\<lambda>resp.
     rbind (or_error ''read exchange response'' (read_response resp)) (\<lambda>body.
       exchange_answer (jl_ParseUnverified jwt) (clock 1) (hs_Status resp) body)))))"

section \<open>Service account\<close>

record ServiceAccount =
  sa_Type :: string
  sa_ProjectID :: string
  sa_PrivateKeyID :: string
  sa_PrivateKey :: string
  sa_ClientEmail :: string
  sa_TokenURI :: string

text \<open>\<open>strings.ReplaceAll(s, "\\n", "\n")\<close>: the two bytes backslash and n become a newline.\<close>

fun replace_newlines :: "string \<Rightarrow> string" where
  "replace_newlines (a # b # s) =
     (if a = CHR 0x5C \<and> b = CHR ''n'' then CHR 0x0A # replace_newlines s
      else a # replace_newlines (b # s))"
| "replace_newlines s = s"

definition decode_service_account :: "string \<Rightarrow> ServiceAccount option" where
  "decode_service_account raw =
     (let fields = (\<lambda>kvs.
            Option.bind (string_member ''type'' kvs []) (\<lambda>ty.
            Option.bind (string_member ''project_id'' kvs []) (\<lambda>pid.
            Option.bind (string_member ''private_key_id'' kvs []) (\<lambda>kid.
            Option.bind (string_member ''private_key'' kvs []) (\<lambda>key.
            Option.bind (string_member ''client_email'' kvs []) (\<lambda>email.
            Option.bind (string_member ''token_uri'' kvs []) (\<lambda>uri.
              Some \<lparr>sa_Type = ty, sa_ProjectID = pid, sa_PrivateKeyID = kid, sa_PrivateKey = key,
                    sa_ClientEmail = email, sa_TokenURI = uri\<rparr>)))))))
      in case parse_json raw of
           Some (JObject kvs) \<Rightarrow> fields kvs
         | Some JNull \<Rightarrow> fields []
         | _ \<Rightarrow> None)"

definition ParseServiceAccountJSON :: "string \<Rightarrow> string + ServiceAccount" where
  "ParseServiceAccountJSON raw =
     rbind (or_error ''invalid service account json'' (decode_service_account raw)) (\<lambda>sa0.
       let sa = sa0\<lparr>sa_PrivateKey := replace_newlines (sa_PrivateKey sa0)\<rparr>
       in if trim_space (sa_ClientEmail sa) = [] then Inl ''service account missing client_email''
          else if trim_space (sa_PrivateKey sa) = [] then Inl ''service account missing private_key''
          else Inr sa)"

definition marshal_service_account :: "ServiceAccount \<Rightarrow> string" where
  "marshal_service_account sa =
     json_object
       [(''type'', json_quote (sa_Type sa)), (''project_id'', json_quote (sa_ProjectID sa)),
        (''private_key_id'', json_quote (sa_PrivateKeyID sa)), (''private_key'', json_quote (sa_PrivateKey sa)),
        (''client_email'', json_quote (sa_ClientEmail sa)), (''token_uri'', json_quote (sa_TokenURI sa))]"

definition NormalizeJSON :: "string \<Rightarrow> string + string \<times> ServiceAccount" where
  "NormalizeJSON raw = rbind (ParseServiceAccountJSON raw) (\<lambda>sa. Inr (marshal_service_account sa, sa))"

text \<open>\<open>NewTokenSource\<close>: the OAuth library reads the credentials and the scopes.\<close>

definition NewTokenSource ::
    "(string \<Rightarrow> string list \<Rightarrow> string + 't) \<Rightarrow> string \<Rightarrow> string list \<Rightarrow> string + 't" where
  "NewTokenSource jwt_config serviceAccountJSON scopes =
     wrap ''failed to create oauth config'' (jwt_config serviceAccountJSON scopes)"

text \<open>The key: \<open>pem.Decode\<close> yields the bytes of the first block; a PKCS8 key may be of another kind.\<close>

record 'k key_parsers =
  kp_Decode :: "string \<Rightarrow> string option"
  kp_PKCS1 :: "string \<Rightarrow> string + 'k"
  kp_PKCS8 :: "string \<Rightarrow> string + 'k option"

definition ParseRSAPrivateKey :: "'k key_parsers \<Rightarrow> ServiceAccount option \<Rightarrow> string + 'k" where
  "ParseRSAPrivateKey kp sa =
     (case sa of
        None \<Rightarrow> Inl ''service account is nil''
      | Some sa \<Rightarrow>
          (case kp_Decode kp (sa_PrivateKey sa) of
             None \<Rightarrow> Inl ''failed to decode private key PEM''
           | Some bytes \<Rightarrow>
               (case kp_PKCS1 kp bytes of
                  Inr key \<Rightarrow> Inr key
                | Inl e \<Rightarrow>
                    rbind (wrap ''failed to parse rsa private key'' (kp_PKCS8 kp bytes)) (\<lambda>key.
                      case key of None \<Rightarrow> Inl ''private key is not rsa'' | Some rsa \<Rightarrow> Inr rsa))))"

section \<open>Mocks\<close>

definition mock_Verify :: "E2EConfig \<Rightarrow> VerifyRequest \<Rightarrow> string + VerifyResponse" where
  "mock_Verify cfg req =
     (if vr_Token req = e2_TurnstilePassToken cfg then Inr (zero_verify_response\<lparr>vs_Success := True\<rparr>)
      else Inr (zero_verify_response\<lparr>vs_Success := False, vs_ErrorCodes :=
             (if vr_Token req = e2_TurnstileFailToken cfg then [''timeout-or-duplicate'']
              else [''invalid-input-response''])\<rparr>))"

definition mock_ttl :: "duration \<Rightarrow> duration" where
  "mock_ttl ttl = (if ttl \<le> 0 then 30 * minute else ttl)"

definition mock_Exchange :: "E2EConfig \<Rightarrow> duration \<Rightarrow> time \<Rightarrow> bool \<Rightarrow> string + ExchangeResult" where
  "mock_Exchange cfg ttl now limitedUse =
     Inr \<lparr>xr_Token = e2_AppCheckToken cfg,
          xr_ExpireTimeMillis = time_unix_milli (time_add now (mock_ttl ttl)),
          xr_TTLMillis = duration_millis (mock_ttl ttl)\<rparr>"

definition mock_VerifyToken :: "E2EConfig \<Rightarrow> string \<Rightarrow> string + string option" where
  "mock_VerifyToken cfg token =
     (if token \<noteq> e2_AppCheckToken cfg then Inl ''mock app check token is invalid''
      else Inr (Some (e2_AppCheckAppID cfg)))"

section \<open>Facts on durations\<close>

definition dec_from :: "nat \<Rightarrow> string \<Rightarrow> nat" where
  "dec_from x ds = foldl (\<lambda>x c. 10 * x + digit_val c) x ds"

lemma dec_from_simps [simp]:
  "dec_from x [] = x" "dec_from x (c # ds) = dec_from (10 * x + digit_val c) ds"
  by (simp_all add: dec_from_def)

lemma dec_from_zero: "dec_from 0 ds = dec_val ds"
  by (simp add: dec_from_def dec_val_def)

lemma dec_from_ge: "x \<le> dec_from x ds"
proof (induction ds arbitrary: x)
  case (Cons c ds)
  have "x \<le> 10 * x + digit_val c" by simp
  also have "\<dots> \<le> dec_from (10 * x + digit_val c) ds" by (rule Cons)
  finally show ?case by simp
qed simp

definition no_digit :: "string \<Rightarrow> bool" where
  "no_digit r \<longleftrightarrow> (case r of [] \<Rightarrow> True | c # cs \<Rightarrow> \<not> is_digit c)"

lemma leading_int_digits:
  "list_all is_digit ds \<Longrightarrow> no_digit r \<Longrightarrow> dec_from x ds \<le> 9223372036854775807 \<Longrightarrow>
     leading_int x (ds @ r) = Some (dec_from x ds, r)"
proof (induction ds arbitrary: x)
  case Nil
  then show ?case by (cases r) (simp_all add: no_digit_def)
next
  case (Cons c ds)
  have "10 * x + digit_val c \<le> 9223372036854775807"
    using dec_from_ge [of "10 * x + digit_val c" ds] Cons.prems(3) by simp
  with Cons show ?case by (simp add: Let_def)
qed

lemma leading_fraction_digits:
  "list_all is_digit ds \<Longrightarrow> no_digit r \<Longrightarrow> dec_from x ds \<le> 9223372036854775807 \<Longrightarrow>
     leading_fraction x sc False (ds @ r) = (dec_from x ds, sc * 10 ^ length ds, r)"
proof (induction ds arbitrary: x sc)
  case Nil
  then show ?case by (cases r) (simp_all add: no_digit_def)
next
  case (Cons c ds)
  have "10 * x + digit_val c \<le> 9223372036854775807"
    using dec_from_ge [of "10 * x + digit_val c" ds] Cons.prems(3) by simp
  with Cons.prems Cons.IH [of "10 * x + digit_val c" "10 * sc"]
  have "leading_fraction (10 * x + digit_val c) (10 * sc) False (ds @ r) =
      (dec_from (10 * x + digit_val c) ds, 10 * sc * 10 ^ length ds, r)" by simp
  moreover have "\<not> (2 ^ 63 - 1) div 10 < x" "\<not> 2 ^ 63 < 10 * x + digit_val c"
    using \<open>10 * x + digit_val c \<le> 9223372036854775807\<close> by simp_all
  moreover have "is_digit c" using Cons.prems by simp
  ultimately have "leading_fraction x sc False ((c # ds) @ r) =
      (dec_from (10 * x + digit_val c) ds, 10 * sc * 10 ^ length ds, r)"
    by (simp only: append_Cons leading_fraction.simps Let_def if_False if_True not_True_eq_False simp_thms)
  then show ?case by simp
qed

lemma length_show_nat: "n < 10 ^ k \<Longrightarrow> 0 < k \<Longrightarrow> length (show_nat n) \<le> k"
proof (induction n arbitrary: k rule: show_nat.induct)
  case (1 n)
  show ?case
  proof (cases "n < 10")
    case True
    with "1.prems" show ?thesis by (subst show_nat.simps) simp
  next
    case False
    with "1.prems" obtain j where k: "k = Suc j" by (cases k) auto
    with "1.prems" False have "0 < j" by (cases j) auto
    note k = k this
    with "1.prems" have "n div 10 < 10 ^ j" by (simp add: less_mult_imp_div_less)
    from "1.IH" [OF False this k(2)] False k(1) show ?thesis by (subst show_nat.simps) simp
  qed
qed

lemma pad9_digits:
  assumes "0 \<le> i" and "i < 1000000000"
  shows "list_all is_digit (pad9 i)" "length (pad9 i) = 9" "dec_from 0 (pad9 i) = nat i"
proof -
  have len: "length (show_nat (nat i)) \<le> 9" using length_show_nat [of "nat i" 9] assms by simp
  have zeros: "dec_from 0 (replicate k CHR ''0'' @ s) = dec_from 0 s" for k s
    by (induction k) (simp_all add: digit_val_def byte_def)
  show "list_all is_digit (pad9 i)"
    using show_nat_digits [of "nat i"]
    by (simp add: pad9_def Let_def all_digits_def) (simp add: list_all_iff is_digit_def byte_def)
  show "length (pad9 i) = 9" using len by (simp add: pad9_def Let_def)
  show "dec_from 0 (pad9 i) = nat i" by (simp add: pad9_def Let_def zeros) (simp add: dec_from_zero)
qed

lemma show_nat_front:
  assumes "n \<le> 9223372036854775807" and "no_digit r"
  shows "leading_int 0 (show_nat n @ r) = Some (n, r)" "is_digit (hd (show_nat n @ r))" "show_nat n \<noteq> []"
  using assms leading_int_digits [of "show_nat n" r 0] show_nat_digits [of n] hd_show_nat [of n]
  by (auto simp: all_digits_def dec_from_zero)

lemma seconds_unit:
  "takeWhile unit_char ''s'' = ''s''" "dropWhile unit_char ''s'' = []" "unit_map ''s'' = Some 1000000000"
  by (simp_all add: unit_char_def is_digit_def byte_def unit_map_def)

lemma duration_component_seconds:
  assumes "n * 1000000000 \<le> 9223372036854775807"
  shows "duration_component (show_nat n @ ''s'') = Some (n * 1000000000, [])"
proof -
  have "no_digit ''s''" by (simp add: no_digit_def is_digit_def byte_def)
  from show_nat_front [OF _ this, of n] assms show ?thesis
    by (simp add: duration_component_def seconds_unit del: takeWhile.simps dropWhile.simps)
qed

lemma duration_component_fraction:
  assumes "n * 1000000000 + nat i \<le> 9223372036854775807" and i: "0 \<le> i" "i < 1000000000"
  shows "duration_component (show_nat n @ ''.'' @ pad9 i @ ''s'') = Some (n * 1000000000 + nat i, [])"
proof -
  have nd: "no_digit (''.'' @ pad9 i @ ''s'')" "no_digit ''s''" by (simp_all add: no_digit_def is_digit_def byte_def)
  have "leading_fraction 0 1 False (pad9 i @ ''s'') = (nat i, 1000000000, ''s'')"
    using leading_fraction_digits [OF pad9_digits(1) [OF i] nd(2), of 0 1] pad9_digits [OF i] i by simp
  with show_nat_front [OF _ nd(1), of n] assms(1) pad9_digits(2) [OF i] show ?thesis
    by (simp add: duration_component_def seconds_unit del: takeWhile.simps dropWhile.simps)
qed

lemma parse_duration_front:
  assumes "duration_component s = Some (w, [])" and "is_digit (hd s)" and "s \<noteq> []" and "s \<noteq> ''0''"
    and "w \<le> 9223372036854775807"
  shows "parse_duration s = Some (int w)"
proof -
  obtain c cs where s: "s = c # cs" using assms(3) by (cases s) auto
  have "c \<noteq> CHR ''-''" "c \<noteq> CHR ''+''" using assms(2) s sign_not_digit by auto
  moreover have "duration_sum 0 s = Some w"
    using assms by (simp add: duration_sum.simps [of 0 s] duration_sum.simps [of w "[]"])
  ultimately show ?thesis using assms(4,5) by (auto simp: parse_duration_def s)
qed

text \<open>
  C40. The \<open>ttl\<close> text that the custom token carries means the configured number of milliseconds to the
  parser that reads \<open>ttl\<close> texts, for every duration from zero to the largest one.
\<close>

theorem ttl_text_roundtrip:
  assumes "0 \<le> ms" and "ms \<le> 9223372036854"
  shows "parseDurationToMillis (millisecondsToDurationString ms) = Inr ms"
proof -
  define sec where "sec = ms div 1000"
  define nanos where "nanos = (ms - sec * 1000) * 1000000"
  have q: "quot64 ms 1000 = sec" using assms by (simp add: quot64_nonneg sec_def)
  have m: "ms = sec * 1000 + ms mod 1000" "0 \<le> ms mod 1000" "ms mod 1000 < 1000" by (simp_all add: sec_def)
  then have nanos: "nanos = ms mod 1000 * 1000000" by (simp add: nanos_def)
  have sec: "0 \<le> sec" using assms by (simp add: sec_def)
  have n: "0 \<le> nanos" "nanos < 1000000000" using m by (simp_all add: nanos)
  have sum: "sec * 1000000000 + nanos = ms * 1000000" using m(1) unfolding nanos by linarith
  note sec = sec n sum
  have w: "wrap64 nanos = nanos" using sec by (intro wrap64_id) (simp add: is_int64_def min_int64_def max_int64_def)
  have max: "nat sec * 1000000000 + nat nanos \<le> 9223372036854775807"
    "int (nat sec * 1000000000 + nat nanos) = ms * 1000000"
    using sec assms(2) by linarith+
  have int: "show_int sec = show_nat (nat sec)" using sec by (simp add: show_int_def)
  have millis: "duration_millis (ms * 1000000) = ms"
    using assms by (simp add: duration_millis_def millisecond_def quot64_nonneg)
  have str: "millisecondsToDurationString ms = show_nat (nat sec) @ (if nanos \<le> 0 then ''s'' else ''.'' @ pad9 nanos @ ''s'')"
    unfolding millisecondsToDurationString_def Let_def q nanos_def [symmetric] w int by simp
  have "parse_duration (millisecondsToDurationString ms) = Some (ms * 1000000)"
  proof (cases "nanos \<le> 0")
    case True
    with sec have "nanos = 0" by simp
    have "parse_duration (show_nat (nat sec) @ ''s'') = Some (int (nat sec * 1000000000))"
      using max show_nat_front [of "nat sec" "''s''"] \<open>nanos = 0\<close>
      by (intro parse_duration_front duration_component_seconds) (auto simp: no_digit_def is_digit_def byte_def)
    with True \<open>nanos = 0\<close> max(2) show ?thesis unfolding str by simp
  next
    case False
    have "parse_duration (show_nat (nat sec) @ ''.'' @ pad9 nanos @ ''s'') = Some (int (nat sec * 1000000000 + nat nanos))"
      using max show_nat_front [of "nat sec" "''.'' @ pad9 nanos @ ''s''"] sec
      by (intro parse_duration_front duration_component_fraction) (auto simp: no_digit_def is_digit_def byte_def)
    with False max(2) show ?thesis unfolding str by simp
  qed
  then show ?thesis by (simp add: parseDurationToMillis_def millis)
qed

theorem ttl_text_roundtrip_witness:
  "parseDurationToMillis (millisecondsToDurationString 1800500) = Inr 1800500"
  by (rule ttl_text_roundtrip) simp_all

section \<open>The Turnstile client\<close>

lemma sort_values:
  "sort_keys (verify_values c req) =
     (if trim_space (vr_RemoteIP req) \<noteq> [] then [(''remoteip'', trim_space (vr_RemoteIP req))] else []) @
     [(''response'', vr_Token req), (''secret'', tc_secretKey c)]"
  by (simp add: verify_values_def sort_keys_def byte_def)

lemma new_post_Inr: "new_post url body = Inr q \<longleftrightarrow> url_parse url \<noteq> None \<and>
    q = \<lparr>hq_Method = ''POST'', hq_URL = url, hq_Headers = [], hq_Body = body\<rparr>"
  by (auto simp: new_post_def split: option.splits)

lemma set_header_simps [simp]:
  "hq_Method (set_header k v q) = hq_Method q" "hq_URL (set_header k v q) = hq_URL q"
  "hq_Body (set_header k v q) = hq_Body q" "hq_Headers (set_header k v q) = header_set k v (hq_Headers q)"
  by (simp_all add: set_header_def)

text \<open>
  \<open>Verify\<close> returns a verdict only where siteverify answered a POST at the configured URL with a
  2xx status and this verdict as its JSON body, and what the form body of that request says to a form
  parser is the configured secret, the token of the client byte for byte and, where it is known, the
  remote address: no token can add or replace a field.  A blank token is never sent.
\<close>

lemma turnstile_verify_sound:
  assumes "turnstile_Verify c req = Inr resp"
  shows "trim_space (vr_Token req) \<noteq> [] \<and>
    (\<exists>q answer body. hq_Method q = ''POST'' \<and> hq_URL q = tc_verifyURL c \<and>
       parse_query (hq_Body q) = Some
         ((if trim_space (vr_RemoteIP req) \<noteq> [] then [(''remoteip'', trim_space (vr_RemoteIP req))] else []) @
          [(''response'', vr_Token req), (''secret'', tc_secretKey c)]) \<and>
       tc_httpClient c q = Inr answer \<and> 200 \<le> hs_Status answer \<and> hs_Status answer \<le> 299 \<and>
       read_response answer = Some body \<and> decode_verify_response body = Some resp)"
proof -
  from assms obtain q answer body where tok: "trim_space (vr_Token req) \<noteq> []"
    and q: "verify_http_request c req = Inr q" and answer: "tc_httpClient c q = Inr answer"
    and body: "read_response answer = Some body" "decode_verify_response body = Some resp"
    and ok: "success_status (hs_Status answer)"
    by (auto simp: turnstile_Verify_def rbind_Inr_iff split: if_splits)
  from q have "hq_Method q = ''POST''" "hq_URL q = tc_verifyURL c" "hq_Body q = form_encode (verify_values c req)"
    by (auto simp: verify_http_request_def rbind_Inr_iff new_post_Inr)
  moreover have "parse_query (form_encode (verify_values c req)) = Some (sort_keys (verify_values c req))"
    by (rule parse_query_encode) (simp add: verify_values_def)
  ultimately show ?thesis
    using tok answer body ok unfolding sort_values success_status_def by (intro conjI exI) auto
qed

definition demo_siteverify :: http_client where
  "demo_siteverify q =
     (if parse_query (hq_Body q) = Some [(''response'', ''a&b''), (''secret'', ''key'')]
      then Inr \<lparr>hs_Status = 200, hs_Body = json_object [(''success'', json_bool True)], hs_Broken = False\<rparr>
      else Inl ''unexpected'')"

definition demo_turnstile :: turnstile_client where
  "demo_turnstile = \<lparr>tc_httpClient = demo_siteverify, tc_secretKey = ''key'', tc_verifyURL = ''https://ts.test/v''\<rparr>"

lemma demo_turnstile_verify:
  "turnstile_Verify demo_turnstile \<lparr>vr_Token = ''a&b'', vr_RemoteIP = []\<rparr> =
     Inr (zero_verify_response\<lparr>vs_Success := True\<rparr>)"
  by code_simp

section \<open>The App Check client\<close>

lemma canonical_names:
  "canonical_key ''Authorization'' = ''Authorization''" "canonical_key ''Content-Type'' = ''Content-Type''"
  "canonical_key ''Accept'' = ''Accept''"
  by code_simp+

lemma duration_millis_exact:
  assumes "is_int64 d"
  shows "is_int64 (duration_millis d * millisecond)"
proof -
  have le: "0 \<le> a div 1000000 * 1000000 \<and> a div 1000000 * 1000000 \<le> a" if "0 \<le> a" for a :: int
    using that div_mult_mod_eq [of a 1000000] pos_mod_sign [of 1000000 a] by (simp add: pos_imp_zdiv_nonneg_iff)
  show ?thesis
  proof (cases "0 \<le> d")
    case True
    then have "duration_millis d = d div 1000000"
      by (simp add: duration_millis_def millisecond_def quot64_nonneg)
    with le [OF True] assms show ?thesis
      unfolding is_int64_def min_int64_def max_int64_def millisecond_def by linarith
  next
    case False
    then have "duration_millis d = - ((- d) div 1000000)"
      by (simp add: duration_millis_def millisecond_def quot64_def)
    with le [of "- d"] False assms show ?thesis
      unfolding is_int64_def min_int64_def max_int64_def millisecond_def by linarith
  qed
qed

lemma parseDuration_exact: "parseDurationToMillis s = Inr ms \<Longrightarrow> wrap64 (ms * millisecond) = ms * millisecond"
  by (auto simp: parseDurationToMillis_def wrap64_id duration_millis_exact split: option.splits dest: parse_duration_range)

lemma exchange_payload_parse:
  "valid_utf8 t \<Longrightarrow> parse_json (exchange_payload t b) =
     Some (JObject [(''customToken'', JString t), (''limitedUse'', JBool b)])"
proof -
  assume t: "valid_utf8 t"
  have "valid_utf8 ''customToken''" "valid_utf8 ''limitedUse''" by code_simp+
  with t show ?thesis
    unfolding exchange_payload_def
    by (intro parse_json_object) (simp_all add: members_def denotes_quote denotes_bool)
qed

lemma exchange_answer_cases:
  assumes "exchange_answer parse_unverified now status body = Inr x"
  obtains parsed where "success_status status" "decode_exchange_response body = Some parsed"
    "xr_Token x = er_Token parsed" "trim_space (er_Token parsed) \<noteq> []"
    "\<And>ms. parseDurationToMillis (er_TTL parsed) = Inr ms \<Longrightarrow>
       xr_TTLMillis x = ms \<and> xr_ExpireTimeMillis x = time_unix_milli (now + ms * millisecond)"
    "\<And>e. parseDurationToMillis (er_TTL parsed) = Inl e \<Longrightarrow>
       parseJWTExpireTimeMillis parse_unverified (er_Token parsed) = Inr (xr_ExpireTimeMillis x)"
proof -
  from assms obtain parsed where p: "success_status status" "decode_exchange_response body = Some parsed"
    "trim_space (er_Token parsed) \<noteq> []"
    by (auto simp: exchange_answer_def rbind_Inr_iff split: if_splits)
  show thesis
  proof (cases "parseDurationToMillis (er_TTL parsed)")
    case (Inl e)
    with assms p have "xr_Token x = er_Token parsed"
      "parseJWTExpireTimeMillis parse_unverified (er_Token parsed) = Inr (xr_ExpireTimeMillis x)"
      by (auto simp: exchange_answer_def or_error_def split: sum.splits)
    with Inl p that show thesis by simp
  next
    case (Inr ms)
    with assms p have "x = \<lparr>xr_Token = er_Token parsed,
        xr_ExpireTimeMillis = time_unix_milli (time_add now (wrap64 (ms * millisecond))), xr_TTLMillis = ms\<rparr>"
      by (simp add: exchange_answer_def or_error_def)
    with Inr p that show thesis by (simp add: parseDuration_exact [OF Inr] time_add_def)
  qed
qed

text \<open>
  \<open>Exchange\<close> returns a token only where the custom token was signed over the configured identity with
  the reading of the clock, the token source gave an access token, and the App Check service answered
  the POST at the exchange endpoint of the configured app, carrying exactly this custom token, the
  \<open>limitedUse\<close> flag and the access token, with a 2xx status and a JSON body holding the returned,
  nonblank token.  Where the answer has a readable \<open>ttl\<close>, the token expires that long after the second
  reading of the clock.  The signer returns valid UTF-8 (a compact JWS is base64url).
\<close>

lemma exchange_client_sound:
  assumes run: "appcheck_Exchange jwt clock access c limitedUse = Inr x"
    and signer: "\<forall>k t s. jl_SignedString jwt k t = Inr s \<longrightarrow> valid_utf8 s"
  shows "\<exists>custom tok q answer body parsed.
    jl_SignedString jwt (fc_privateKey c) \<lparr>jt_Alg = ''RS256'', jt_Typ = ''JWT'', jt_Claims =
       custom_claims_of (fc_privateKeyEmail c) (fc_appID c) (clock 0) (fc_customTokenOptions c)\<rparr> = Inr custom \<and>
    access = Inr tok \<and> hq_Method q = ''POST'' \<and>
    hq_URL q = appCheckExchangeEndpointPrefix @ fc_appResource c @ '':exchangeCustomToken'' \<and>
    header_get (hq_Headers q) ''Authorization'' = ''Bearer '' @ tok \<and>
    parse_json (hq_Body q) = Some (JObject [(''customToken'', JString custom), (''limitedUse'', JBool limitedUse)]) \<and>
    fc_httpClient c q = Inr answer \<and> 200 \<le> hs_Status answer \<and> hs_Status answer \<le> 299 \<and>
    read_response answer = Some body \<and> decode_exchange_response body = Some parsed \<and>
    xr_Token x = er_Token parsed \<and> trim_space (xr_Token x) \<noteq> [] \<and>
    (\<forall>ms. parseDurationToMillis (er_TTL parsed) = Inr ms \<longrightarrow>
       xr_TTLMillis x = ms \<and> xr_ExpireTimeMillis x = time_unix_milli (clock 1 + ms * millisecond))"
proof -
  from run obtain custom tok q answer body where
    custom: "BuildCustomToken (jl_SignedString jwt) (Some (fc_privateKey c)) (fc_privateKeyEmail c)
        (fc_appID c) (clock 0) (fc_customTokenOptions c) = Inr custom"
    and tok: "access = Inr tok" and q: "exchange_http_request c tok custom limitedUse = Inr q"
    and answer: "fc_httpClient c q = Inr answer" "read_response answer = Some body"
    and x: "exchange_answer (jl_ParseUnverified jwt) (clock 1) (hs_Status answer) body = Inr x"
    by (auto simp: appcheck_Exchange_def rbind_Inr_iff)
  from custom have sign: "jl_SignedString jwt (fc_privateKey c) \<lparr>jt_Alg = ''RS256'', jt_Typ = ''JWT'', jt_Claims =
       custom_claims_of (fc_privateKeyEmail c) (fc_appID c) (clock 0) (fc_customTokenOptions c)\<rparr> = Inr custom"
    by (auto simp: BuildCustomToken_def split: if_splits)
  from q have "hq_Method q = ''POST''" "hq_Body q = exchange_payload custom limitedUse"
    "hq_URL q = appCheckExchangeEndpointPrefix @ fc_appResource c @ '':exchangeCustomToken''"
    "header_get (hq_Headers q) ''Authorization'' = ''Bearer '' @ tok"
    by (auto simp: exchange_http_request_def rbind_Inr_iff new_post_Inr header_get_set canonical_names)
  with sign tok answer exchange_payload_parse [OF signer [rule_format, OF sign]] show ?thesis
    by (cases rule: exchange_answer_cases [OF x]) (auto simp: success_status_def)
qed

definition demo_jwt :: "unit jwt_library" where
  "demo_jwt = \<lparr>jl_SignedString = \<lambda>k t. Inr ''a.b.c'',
     jl_ParseUnverified = \<lambda>t. Inr (\<lambda>k. Some (ClaimNumber ''1800''))\<rparr>"

definition demo_answer :: http_response where
  "demo_answer = \<lparr>hs_Status = 200,
     hs_Body = json_object [(''token'', json_quote ''appcheck''), (''ttl'', json_quote ''1800s'')], hs_Broken = False\<rparr>"

definition demo_appcheck :: "unit appcheck_client" where
  "demo_appcheck =
     \<lparr>fc_httpClient = \<lambda>q. Inr demo_answer,
      fc_privateKey = (), fc_privateKeyEmail = ''sa@p.test'', fc_appResource = ''projects/p/apps/a'', fc_appID = ''a'',
      fc_customTokenOptions = \<lparr>co_TTLMillis = Some 1800000\<rparr>\<rparr>"

lemma demo_exchange: "\<exists>x. appcheck_Exchange demo_jwt (\<lambda>n. 0) (Inr ''oauth'') demo_appcheck True = Inr x"
proof -
  have sign: "BuildCustomToken (jl_SignedString demo_jwt) (Some ())
      (fc_privateKeyEmail demo_appcheck) (fc_appID demo_appcheck) 0 (fc_customTokenOptions demo_appcheck) = Inr ''a.b.c''"
    by (simp add: BuildCustomToken_def demo_jwt_def demo_appcheck_def)
  have url: "url_parse (appCheckExchangeEndpointPrefix @ fc_appResource demo_appcheck @ '':exchangeCustomToken'') \<noteq> None"
    by code_simp
  have answer: "fc_httpClient demo_appcheck q = Inr demo_answer" for q by (simp add: demo_appcheck_def)
  have read: "read_response demo_answer = Some (hs_Body demo_answer)" by code_simp
  have dec: "decode_exchange_response (hs_Body demo_answer) = Some \<lparr>er_Token = ''appcheck'', er_TTL = ''1800s''\<rparr>"
    by code_simp
  have jwt: "parseJWTExpireTimeMillis (jl_ParseUnverified demo_jwt) ''appcheck'' = Inr 1800000" by code_simp
  have tok: "trim_space ''appcheck'' \<noteq> []" by code_simp
  have "\<exists>x. exchange_answer (jl_ParseUnverified demo_jwt) 0 200 (hs_Body demo_answer) = Inr x"
    by (simp add: exchange_answer_def success_status_def dec or_error_def tok jwt split: sum.split)
  moreover have "hs_Status demo_answer = 200" by (simp add: demo_answer_def)
  ultimately show ?thesis
    using url by (auto simp: appcheck_Exchange_def sign wrap_def exchange_http_request_def new_post_def answer
        read or_error_def)
qed

section \<open>The service account\<close>

definition no_escape :: "string \<Rightarrow> bool" where
  "no_escape s \<longleftrightarrow> \<not> contains s [CHR 0x5C, CHR ''n'']"

lemma replace_newlines_head: "b \<noteq> CHR ''n'' \<Longrightarrow> replace_newlines (b # s) \<noteq> CHR ''n'' # t"
  by (cases s) auto

lemma replace_newlines_idem: "replace_newlines (replace_newlines s) = replace_newlines s"
proof (induction s rule: replace_newlines.induct)
  case (1 a b s)
  show ?case
  proof (cases "a = CHR 0x5C \<and> b = CHR ''n''")
    case True
    with 1 show ?thesis by (cases "replace_newlines s") auto
  next
    case False
    with 1 have IH: "replace_newlines (replace_newlines (b # s)) = replace_newlines (b # s)" by blast
    have "\<not> (a = CHR 0x5C \<and> c = CHR ''n'')" if "replace_newlines (b # s) = c # t" for c t
      using False that replace_newlines_head [of b s t] by auto
    with False IH show ?thesis by (cases "replace_newlines (b # s)") auto
  qed
qed simp_all

lemma replace_newlines_high:
  "\<forall>c \<in> set w. 128 \<le> byte c \<Longrightarrow> replace_newlines (w @ t) = w @ replace_newlines t"
proof (induction w)
  case (Cons c w)
  then have "c \<noteq> CHR 0x5C" by (auto simp: byte_def)
  with Cons show ?case by (cases "w @ t") auto
qed simp

lemma valid_utf8_ascii: "byte c < 128 \<Longrightarrow> valid_utf8 (c # s) \<longleftrightarrow> valid_utf8 s"
  by (subst valid_utf8.simps) (simp add: rune_len_simps)

lemma replace_newlines_valid: "valid_utf8 s \<Longrightarrow> valid_utf8 (replace_newlines s)"
proof (induction "length s" arbitrary: s rule: less_induct)
  case less
  show ?case
  proof (cases s)
    case s: (Cons a s1)
    from less.prems obtain n where n: "rune_len s = Some n" "valid_utf8 (drop n s)"
      by (subst (asm) valid_utf8.simps) (auto simp: s split: option.splits)
    show ?thesis
    proof (cases "byte a < 128")
      case True
      with less.prems s have v: "valid_utf8 s1" by (simp add: valid_utf8_ascii)
      show ?thesis
      proof (cases s1)
        case (Cons b s2)
        have "byte CHR ''n'' < 128" "byte (CHR 0x0A) < 128" by (simp_all add: byte_def)
        with v Cons s True show ?thesis
          using less.hyps [of s1] less.hyps [of s2] by (auto simp: valid_utf8_ascii)
      qed (use less.prems s in simp)
    next
      case False
      have n2: "2 \<le> n" using rune_len_bounds [OF n(1)] rune_len_one [of a s1] n(1) s False by (cases "n = 1") auto
      have "replace_newlines (take n s @ drop n s) = take n s @ replace_newlines (drop n s)"
        by (rule replace_newlines_high [OF rune_len_high [OF n(1) n2]])
      moreover have "valid_utf8 (replace_newlines (drop n s))" using less.hyps [OF _ n(2)] n2 s by simp
      moreover have "valid_utf8 (take n s)"
        using rune_len_cut [OF n(1), of "[]"] by (subst valid_utf8.simps) simp
      ultimately show ?thesis by (simp add: valid_utf8_append)
    qed
  qed simp
qed

definition account_valid :: "ServiceAccount \<Rightarrow> bool" where
  "account_valid sa \<longleftrightarrow> list_all valid_utf8
     [sa_Type sa, sa_ProjectID sa, sa_PrivateKeyID sa, sa_PrivateKey sa, sa_ClientEmail sa, sa_TokenURI sa]"

lemma decode_account_valid: "decode_service_account raw = Some sa \<Longrightarrow> account_valid sa"
  by (auto simp: decode_service_account_def account_valid_def split: option.splits json.splits bind_splits
      dest!: parse_json_valid intro: string_member_valid [OF _ _ valid_utf8_Nil])

lemma account_names:
  "fold_name ''type'' = ''type''" "fold_name ''project_id'' = ''project_id''"
  "fold_name ''private_key_id'' = ''private_key_id''" "fold_name ''private_key'' = ''private_key''"
  "fold_name ''client_email'' = ''client_email''" "fold_name ''token_uri'' = ''token_uri''"
  by code_simp+

lemma account_names_valid:
  "valid_utf8 ''type''" "valid_utf8 ''project_id''" "valid_utf8 ''private_key_id''"
  "valid_utf8 ''private_key''" "valid_utf8 ''client_email''" "valid_utf8 ''token_uri''"
  by code_simp+

lemma string_members:
  "list_all (\<lambda>(k, s). valid_utf8 k \<and> valid_utf8 s) kss \<Longrightarrow>
     members (map (\<lambda>(k, s). (k, json_quote s)) kss) (map (\<lambda>(k, s). (k, JString s)) kss)"
  by (induction kss) (auto simp: members_def denotes_quote)

definition account_pairs :: "ServiceAccount \<Rightarrow> (string \<times> string) list" where
  "account_pairs sa =
     [(''type'', sa_Type sa), (''project_id'', sa_ProjectID sa), (''private_key_id'', sa_PrivateKeyID sa),
      (''private_key'', sa_PrivateKey sa), (''client_email'', sa_ClientEmail sa), (''token_uri'', sa_TokenURI sa)]"

lemma decode_marshal: "account_valid sa \<Longrightarrow> decode_service_account (marshal_service_account sa) = Some sa"
proof -
  assume sa: "account_valid sa"
  have "list_all (\<lambda>(k, s). valid_utf8 k \<and> valid_utf8 s) (account_pairs sa)"
    using sa by (simp add: account_valid_def account_pairs_def account_names_valid)
  moreover have "marshal_service_account sa = json_object (map (\<lambda>(k, s). (k, json_quote s)) (account_pairs sa))"
    by (simp add: marshal_service_account_def account_pairs_def)
  moreover have "account_pairs sa \<noteq> []" by (simp add: account_pairs_def)
  ultimately have "parse_json (marshal_service_account sa) =
      Some (JObject (map (\<lambda>(k, s). (k, JString s)) (account_pairs sa)))"
    using parse_json_object [OF string_members] by simp
  then show ?thesis by (simp add: decode_service_account_def account_pairs_def account_names del: fold_name.simps)
qed

text \<open>
  C39. What \<open>NormalizeJSON\<close> writes reads back as the very account it returns, and normalising it again
  changes nothing: the SDKs that receive the normalised text see the credentials that the gateway signs
  with, including the line breaks of the private key.
\<close>

theorem normalize_json_roundtrip:
  assumes "NormalizeJSON raw = Inr (out, sa)"
  shows "decode_service_account out = Some sa \<and> NormalizeJSON out = Inr (out, sa)"
proof -
  from assms obtain sa0 where sa0: "decode_service_account raw = Some sa0"
    and sa: "sa = sa0\<lparr>sa_PrivateKey := replace_newlines (sa_PrivateKey sa0)\<rparr>"
    and ok: "trim_space (sa_ClientEmail sa) \<noteq> []" "trim_space (sa_PrivateKey sa) \<noteq> []"
    and out: "out = marshal_service_account sa"
    by (auto simp: NormalizeJSON_def ParseServiceAccountJSON_def rbind_Inr_iff Let_def split: if_splits)
  have "account_valid sa"
    using decode_account_valid [OF sa0] by (simp add: sa account_valid_def replace_newlines_valid)
  then have dec: "decode_service_account out = Some sa" unfolding out by (rule decode_marshal)
  have "sa\<lparr>sa_PrivateKey := replace_newlines (sa_PrivateKey sa)\<rparr> = sa" by (simp add: sa replace_newlines_idem)
  with dec ok show ?thesis
    by (simp add: NormalizeJSON_def ParseServiceAccountJSON_def or_error_def Let_def out)
qed

definition demo_key :: string where
  "demo_key = ''-----a'' @ CHR 0x5C # ''nb''"

definition demo_account :: string where
  "demo_account = json_object [(''client_email'', json_quote ''sa@p''), (''private_key'', json_quote demo_key)]"

lemma demo_account_normalized: "\<exists>out sa. NormalizeJSON demo_account = Inr (out, sa) \<and> sa_PrivateKey sa = ''-----a'' @ CHR 0x0A # ''b''"
proof -
  have "map_option (\<lambda>sa. (sa_ClientEmail sa, sa_PrivateKey sa)) (decode_service_account demo_account) =
      Some (''sa@p'', demo_key)" by code_simp
  then obtain sa where sa: "decode_service_account demo_account = Some sa" "sa_ClientEmail sa = ''sa@p''" "sa_PrivateKey sa = demo_key"
    by auto
  have "replace_newlines demo_key = ''-----a'' @ CHR 0x0A # ''b''"
    "trim_space ''sa@p'' \<noteq> []" "trim_space (''-----a'' @ CHR 0x0A # ''b'') \<noteq> []" by code_simp+
  with sa show ?thesis by (simp add: NormalizeJSON_def ParseServiceAccountJSON_def or_error_def Let_def)
qed

theorem normalize_json_roundtrip_witness:
  "\<exists>out sa. NormalizeJSON demo_account = Inr (out, sa) \<and> NormalizeJSON out = Inr (out, sa)"
proof -
  from demo_account_normalized obtain out sa where "NormalizeJSON demo_account = Inr (out, sa)" by blast
  with normalize_json_roundtrip [OF this] show ?thesis by blast
qed

end
