(* ===== verification/Service.thy ===== *)
theory Service
  imports Upstream HandlerProps Admin AuditStore AuditAsync
begin

text \<open>
  The service put together: the small packages (\<open>internal/httpserver/path.go\<close>, \<open>internal/health\<close>,
  \<open>internal/logging\<close>), the router (\<open>internal/httpserver/server.go\<close>) and start-up and shutdown
  (\<open>cmd/turnstile-appcheck-gateway/main.go\<close>).  \<open>run\<close> yields the trace of what it does to the world
  around it and its error; what the world answers is the record \<open>main_env\<close>.
\<close>

section \<open>Small packages\<close>

definition JoinSubpath :: "string \<Rightarrow> string \<Rightarrow> string" where
  "JoinSubpath subpath tail =
     (let c0 = trim_space subpath;
          c1 = (if c0 = [] then ''/'' else c0);
          c2 = (if \<not> has_prefix c1 ''/'' then CHR ''/'' # c1 else c1);
          c3 = trim_suffix c2 ''/'';
          cleanSubpath = (if c3 = [] then ''/'' else c3);
          s0 = trim_space tail;
          s1 = (if s0 = [] then ''/'' else s0);
          cleanSuffix = (if \<not> has_prefix s1 ''/'' then CHR ''/'' # s1 else s1)
      in if cleanSubpath = ''/'' then cleanSuffix else cleanSubpath @ cleanSuffix)"

text \<open>Status and body of the probes.\<close>

definition Healthz :: "int \<times> string" where "Healthz = (200, ''ok'')"
definition Readyz :: "int \<times> string" where "Readyz = (200, ''ready'')"

datatype log_level = LevelDebug | LevelInfo | LevelWarn | LevelError

definition logging_New :: "string \<Rightarrow> log_level" where
  "logging_New level =
     (let l = to_lower (trim_space level)
      in if l = ''debug'' then LevelDebug
         else if l = ''warn'' \<or> l = ''warning'' then LevelWarn
         else if l = ''error'' then LevelError
         else LevelInfo)"

section \<open>Router\<close>

text \<open>
  What gin does with paths and routes: joining a group path with a route path, registering routes
  (\<open>ge_accepts\<close> is false where gin panics) and parsing the trusted proxies.
\<close>

record gin_engine =
  ge_join :: "string \<Rightarrow> string \<Rightarrow> string"
  ge_accepts :: "(string \<times> string) list \<Rightarrow> bool"
  ge_SetTrustedProxies :: "string list \<Rightarrow> string option"

datatype route_handler =
    Route_Healthz
  | Route_Readyz
  | Route_Preflight
  | Route_Exchange
  | Route_Verify
  | Route_Admin admin_route
  | Route_UI bool

type_synonym route = "string \<times> string \<times> route_handler"

definition any_methods :: "string list" where
  "any_methods = [''GET'', ''POST'', ''PUT'', ''PATCH'', ''HEAD'', ''OPTIONS'', ''DELETE'', ''CONNECT'', ''TRACE'']"

definition admin_routes :: "gin_engine \<Rightarrow> string \<Rightarrow> Config \<Rightarrow> route list" where
  "admin_routes g base cfg =
     (if \<not> da_Enabled (ad_Dashboard (cf_Admin cfg)) then []
      else
        let api = ge_join g base ''/_admin/api/v1'';
            ui = ge_join g base (ui_base (da_BasePath (ad_Dashboard (cf_Admin cfg))))
        in [(''GET'', ge_join g api ''/me'', Route_Admin RMe),
            (''GET'', ge_join g api ''/request-metrics'', Route_Admin RMetrics),
            (''GET'', ge_join g api ''/audit-options'', Route_Admin ROptions),
            (''GET'', ge_join g api ''/audit-events'', Route_Admin REvents),
            (''GET'', ge_join g api ''/audit-events/:id'', Route_Admin REvent),
            (''POST'', ge_join g api ''/audit-events/reset'', Route_Admin RReset),
            (''GET'', ge_join g ui [], Route_UI True),
            (''GET'', ge_join g ui ''/*filepath'', Route_UI False)])"

definition router_routes :: "gin_engine \<Rightarrow> Config \<Rightarrow> route list" where
  "router_routes g cfg =
     (let api = ge_join g ''/'' (cf_AppCheckSubpath cfg);
          exchange = ge_join g api ''/api/v1/exchange'';
          public = ge_join g api []
      in [(''GET'', ge_join g ''/'' (cf_HealthPath cfg), Route_Healthz),
          (''GET'', ge_join g ''/'' (cf_ReadyPath cfg), Route_Readyz),
          (''OPTIONS'', ge_join g exchange [], Route_Preflight),
          (''POST'', ge_join g exchange [], Route_Exchange)] @
         map (\<lambda>m. (m, ge_join g public ''/api/v1/verify'', Route_Verify)) any_methods @
         admin_routes g api cfg)"

record router =
  ro_TrustedProxies :: "string list"
  ro_Routes :: "route list"
  ro_Recorder :: bool

datatype router_result = RouterError string | RouterPanic | RouterOK router

definition NewRouter ::
    "gin_engine \<Rightarrow> Config option \<Rightarrow> bool \<Rightarrow> ExchangeHandler option \<Rightarrow> VerifyHandler option \<Rightarrow> bool \<Rightarrow>
       bool list \<Rightarrow> router_result" where
  "NewRouter g cfg logger exchangeHandler verifyHandler healthHandler recorders =
     (case cfg of
        None \<Rightarrow> RouterError ''config is required''
      | Some cfg \<Rightarrow>
          if \<not> logger then RouterError ''logger is required''
          else if exchangeHandler = None \<or> verifyHandler = None \<or> \<not> healthHandler
          then RouterError ''handlers are required''
          else
            let proxies = (if cf_TrustProxyHeaders cfg then [''0.0.0.0/0'', ''::/0''] else [])
            in case ge_SetTrustedProxies g proxies of
                 Some e \<Rightarrow> RouterError ((if cf_TrustProxyHeaders cfg then ''set trusted proxies: '' else ''disable trusted proxies: '') @ e)
               | None \<Rightarrow>
                   if \<not> ge_accepts g (map (\<lambda>(m, p, h). (m, p)) (router_routes g cfg)) then RouterPanic
                   else RouterOK \<lparr>ro_TrustedProxies = proxies, ro_Routes = router_routes g cfg,
                                 ro_Recorder = (recorders \<noteq> [] \<and> hd recorders)\<rparr>)"

section \<open>Start-up\<close>

definition store_config :: "AuditConfig \<Rightarrow> bun_Config" where
  "store_config a =
     \<lparr>bc_StorageType = au_StorageType a, bc_DSN = au_DSN a, bc_SQLitePath = au_SQLitePath a,
      bc_MaxOpenConns = au_DBMaxOpenConns a, bc_MaxIdleConns = au_DBMaxIdleConns a,
      bc_ConnMaxLifetime = au_DBConnMaxLifetime a, bc_ConnMaxIdleTime = au_DBConnMaxIdleTime a\<rparr>"

definition policy_config :: "AuditConfig \<Rightarrow> PolicyConfig" where
  "policy_config a =
     \<lparr>pc_PublicMode = au_PublicMode a, pc_VerifySuccessSampleRate = au_VerifySuccessSample a,
      pc_VerifyFailureSampleRate = au_VerifyFailureSample a,
      pc_ExchangeSuccessSampleRate = au_ExchangeSuccessSample a,
      pc_ExchangeFailureSampleRate = au_ExchangeFailureSample a\<rparr>"

definition async_config :: "AuditConfig \<Rightarrow> AsyncConfig" where
  "async_config a =
     \<lparr>ac_ChannelSize = au_ChannelSize a, ac_BatchSize = au_BatchSize a, ac_FlushInterval = au_FlushInterval a,
      ac_ShutdownFlushTimeout = au_ShutdownFlushTimeout a, ac_DropOnFull = au_DropOnFull a,
      ac_EnqueueTimeout = au_EnqueueTimeout a, ac_CriticalEnqueueTimeout = au_CriticalEnqueueTimeout a,
      ac_RetryMaxAttempts = au_RetryMaxAttempts a, ac_RetryInitialBackoff = au_RetryInitialBackoff a,
      ac_RetryMaxBackoff = au_RetryMaxBackoff a\<rparr>"

definition startup_event :: event where
  "startup_event = zero_event\<lparr>ev_Actor := ''system'', ev_ActorSource := ''system'', ev_Action := ''system.startup'',
     ev_Result := ResultSuccess, ev_Message := ''Application startup''\<rparr>"

text \<open>
  The world around \<open>run\<close>.  \<open>me_Store\<close>, \<open>me_Database\<close>, \<open>me_Zone\<close> and \<open>me_Outcomes\<close> are what opening the audit store,
  its database, its session's zone and its transactions answer, \<open>me_Now\<close> is the time at start-up; \<open>me_clock\<close> are the clock readings of one request, and \<open>me_OAuth\<close> yields what
  the token source answers to it; \<open>me_NewApp\<close> is the Firebase app with its App Check verifier, which has
  an error of its own.
\<close>

datatype server_end = Signalled | ServeEnded "string option"

record 'k main_env =
  me_Store :: store_env
  me_Database :: "db_target \<Rightarrow> audit_db"
  me_Zone :: session_zone
  me_Outcomes :: "nat \<Rightarrow> tx_outcome"
  me_Now :: time
  me_HTTP :: http_client
  me_JWT :: "'k jwt_library"
  me_Keys :: "'k key_parsers"
  me_OAuth :: "string \<Rightarrow> string list \<Rightarrow> string + (string + string)"
  me_NewApp :: "string \<Rightarrow> string \<Rightarrow> string + (string + (string \<Rightarrow> string + string option))"
  me_clock :: "nat \<Rightarrow> time"
  me_gin :: gin_engine
  me_Serve :: server_end
  me_Shutdown :: "string option"
  me_Close :: "string option"

record upstreams =
  up_Verifier :: "VerifyRequest \<Rightarrow> string + VerifyResponse"
  up_Exchanger :: "bool \<Rightarrow> string + ExchangeResult"
  up_VerifyToken :: "string \<Rightarrow> string + string option"

definition oauth_scopes :: "string list" where
  "oauth_scopes = [''https://www.googleapis.com/auth/firebase'', ''https://www.googleapis.com/auth/cloud-platform'']"

definition real_upstreams :: "'k main_env \<Rightarrow> Config \<Rightarrow> string + upstreams" where
  "real_upstreams w cfg =
     rbind (wrap ''normalize service account json'' (NormalizeJSON (cf_ServiceAccountJSON cfg))) (\<lambda>(creds, serviceAccount).
     rbind (wrap ''parse service account key'' (ParseRSAPrivateKey (me_Keys w) (Some serviceAccount))) (\<lambda>privateKey.
     rbind (wrap ''create oauth token source'' (NewTokenSource (me_OAuth w) creds oauth_scopes)) (\<lambda>tokenSource.
     rbind (wrap ''create turnstile client''
              (turnstile_NewClient (Some (me_HTTP w)) (cf_TurnstileSecretKey cfg) (cf_TurnstileSiteVerifyURL cfg))) (\<lambda>turnstile.
     rbind (wrap ''create firebase appcheck exchanger''
              (appcheck_NewClient (Some (me_HTTP w)) True (Some privateKey) (sa_ClientEmail serviceAccount)
                 (cf_FirebaseAppResource cfg) (cf_FirebaseAppID cfg)
                 \<lparr>co_TTLMillis = Some (duration_millis (cf_AppCheckTokenTTL cfg))\<rparr>)) (\<lambda>exchanger.
     rbind (wrap ''initialize firebase admin app'' (me_NewApp w (cf_FirebaseProjectID cfg) creds)) (\<lambda>app.
     rbind (wrap ''initialize firebase app check verifier'' app) (\<lambda>verifier.
       Inr \<lparr>up_Verifier = turnstile_Verify turnstile,
            up_Exchanger = appcheck_Exchange (me_JWT w) (me_clock w) tokenSource exchanger,
            up_VerifyToken = verifier\<rparr>)))))))"

definition mock_upstreams :: "'k main_env \<Rightarrow> Config \<Rightarrow> upstreams" where
  "mock_upstreams w cfg =
     \<lparr>up_Verifier = mock_Verify (cf_E2E cfg),
      up_Exchanger = mock_Exchange (cf_E2E cfg) (cf_AppCheckTokenTTL cfg) (me_clock w 0),
      up_VerifyToken = mock_VerifyToken (cf_E2E cfg)\<rparr>"

definition build_upstreams :: "'k main_env \<Rightarrow> Config \<Rightarrow> string + upstreams" where
  "build_upstreams w cfg =
     (if IsMockUpstreamMode cfg then Inr (mock_upstreams w cfg) else real_upstreams w cfg)"

text \<open>The handlers; a \<open>NoopRecorder\<close> is a recorder, too, so the handlers always have one.\<close>

definition exchange_handler :: "Config \<Rightarrow> upstreams \<Rightarrow> ExchangeHandler" where
  "exchange_handler cfg up =
     \<lparr>eh_TurnstileVerifier = up_Verifier up, eh_Exchanger = up_Exchanger up,
      eh_TrustProxyHeaders = cf_TrustProxyHeaders cfg,
      eh_OriginAllowed = Some (IsExchangeOriginAllowed cfg), eh_Audit = True\<rparr>"

definition verify_handler :: "Config \<Rightarrow> upstreams \<Rightarrow> VerifyHandler" where
  "verify_handler cfg up =
     \<lparr>vh_Verifier = up_VerifyToken up, vh_HeaderName = cf_VerifyHeaderName cfg,
      vh_SuccessStatus = cf_VerifySuccessStatus cfg, vh_FailureStatus = cf_VerifyFailureStatus cfg, vh_Audit = True\<rparr>"

section \<open>Run\<close>

text \<open>How \<open>run\<close> ends; a panic of gin passes through it.  \<open>LoadError\<close> is \<open>load config: ...\<close>.\<close>

datatype run_result = RunDone | LoadError config_error | RunError string | RunPanic

datatype main_action =
    OpenStore bun_Config
  | PruneStore int
  | StartAsyncRecorder PolicyConfig AsyncConfig
  | StartSyncRecorder PolicyConfig
  | StartPruner int duration
  | RecordEvent event
  | Listen string
  | ShutdownHTTP
  | StopPruner
  | CloseRecorder duration
  | CloseStore

text \<open>
  The audit store and the recorder: the repository over the tables that the migration left, which is
  there when the deferred \<open>Close\<close> of the store is due.
\<close>

definition opened_repository :: "'k main_env \<Rightarrow> open_store \<times> audit_db \<Rightarrow> repository" where
  "opened_repository w st =
     \<lparr>rp_dialect = os_dialect (fst st), rp_zone = me_Zone w, rp_tables = db_Tables (snd st), rp_outcomes = me_Outcomes w, rp_tx = 0\<rparr>"

definition start_audit :: "'k main_env \<Rightarrow> AuditConfig \<Rightarrow> main_action list \<times> repository option \<times> string option" where
  "start_audit w a =
     (if \<not> au_Enabled a then ([], None, None)
      else case Open (me_Store w) (me_Database w) (store_config a) of
        Inl e \<Rightarrow> ([OpenStore (store_config a)], None, Some (''open audit store: '' @ e))
      | Inr st \<Rightarrow>
          (case PruneRetention (me_Now w) (au_RetentionDays a) (opened_repository w st) of
             (Some e, r) \<Rightarrow> ([OpenStore (store_config a), PruneStore (au_RetentionDays a)], Some r,
                        Some ''prune audit retention'')
           | (None, r) \<Rightarrow>
               ([OpenStore (store_config a), PruneStore (au_RetentionDays a),
                 if au_AsyncEnabled a then StartAsyncRecorder (policy_config a) (async_config a)
                 else StartSyncRecorder (policy_config a)] @
                (if 0 < au_PruneInterval a then [StartPruner (au_RetentionDays a) (au_PruneInterval a)] else []) @
                [RecordEvent startup_event], Some r, None)))"

definition serve_http :: "'k main_env \<Rightarrow> Config \<Rightarrow> main_action list \<times> run_result" where
  "serve_http w cfg =
     (case me_Serve w of
        ServeEnded (Some e) \<Rightarrow> ([Listen (cf_HTTPAddr cfg)], RunError (''http server failed: '' @ e))
      | ServeEnded None \<Rightarrow> ([Listen (cf_HTTPAddr cfg)], RunDone)
      | Signalled \<Rightarrow>
          (case me_Shutdown w of
             Some e \<Rightarrow> ([Listen (cf_HTTPAddr cfg), ShutdownHTTP], RunError (''http shutdown failed: '' @ e))
           | None \<Rightarrow>
               ([Listen (cf_HTTPAddr cfg), ShutdownHTTP] @
                (if au_Enabled (cf_Audit cfg) \<and> 0 < au_PruneInterval (cf_Audit cfg) then [StopPruner] else []) @
                [CloseRecorder (au_ShutdownFlushTimeout (cf_Audit cfg))],
                case me_Close w of Some e \<Rightarrow> RunError (''audit recorder shutdown failed: '' @ e) | None \<Rightarrow> RunDone)))"

definition start_server :: "'k main_env \<Rightarrow> Config \<Rightarrow> main_action list \<times> run_result" where
  "start_server w cfg =
     (case build_upstreams w cfg of
        Inl e \<Rightarrow> ([], RunError e)
      | Inr up \<Rightarrow>
          (case NewRouter (me_gin w) (Some cfg) True (Some (exchange_handler cfg up)) (Some (verify_handler cfg up)) True [True] of
             RouterError e \<Rightarrow> ([], RunError (''create router: '' @ e))
           | RouterPanic \<Rightarrow> ([], RunPanic)
           | RouterOK r \<Rightarrow> serve_http w cfg))"

definition run :: "'k main_env \<Rightarrow> env \<Rightarrow> main_action list \<times> run_result" where
  "run w env =
     (case loadFromMap env of
        Inl e \<Rightarrow> ([], LoadError e)
      | Inr cfg \<Rightarrow>
          (let (as1, opened, err) = start_audit w (cf_Audit cfg);
               (as2, res) = (case err of Some e \<Rightarrow> ([], RunError e) | None \<Rightarrow> start_server w cfg)
           in (as1 @ as2 @ (if opened \<noteq> None then [CloseStore] else []), res)))"

text \<open>The exit status of the process; that of a panic is 2.\<close>

definition main_exit :: "'k main_env \<Rightarrow> env \<Rightarrow> int" where
  "main_exit w env = (case snd (run w env) of RunDone \<Rightarrow> 0 | LoadError e \<Rightarrow> 1 | RunError e \<Rightarrow> 1 | RunPanic \<Rightarrow> 2)"

text \<open>
  The retention loop in the background, by what its select statement sees: a tick of the timer, at the time
  that \<open>PruneRetention\<close> reads, or the end of its context.  The flag tells whether the loop has returned.
\<close>

datatype prune_signal = Ticked time | Cancelled

fun runAuditPruner :: "int \<Rightarrow> prune_signal list \<Rightarrow> repository \<Rightarrow> bool \<times> repository" where
  "runAuditPruner days [] r = (False, r)"
| "runAuditPruner days (Ticked now # signals) r = runAuditPruner days signals (snd (PruneRetention now days r))"
| "runAuditPruner days (Cancelled # signals) r = (True, r)"

section \<open>Start-up and shutdown\<close>

text \<open>The phases of a run, in the order in which they may happen.\<close>

fun phase :: "main_action \<Rightarrow> nat" where
  "phase (OpenStore c) = 0"
| "phase (PruneStore n) = 1"
| "phase (StartAsyncRecorder p c) = 2"
| "phase (StartSyncRecorder p) = 2"
| "phase (StartPruner n d) = 3"
| "phase (RecordEvent e) = 4"
| "phase (Listen a) = 5"
| "phase ShutdownHTTP = 6"
| "phase StopPruner = 7"
| "phase (CloseRecorder d) = 8"
| "phase CloseStore = 9"

definition phases :: "main_action list \<Rightarrow> nat list" where
  "phases acts = map phase acts"

lemma phases_simps [simp]:
  "phases [] = []" "phases (a # as) = phase a # phases as" "phases (as @ bs) = phases as @ phases bs"
  by (simp_all add: phases_def)

text \<open>The store part of a run: what it did, by how far it came.\<close>

lemma start_audit_cases:
  obtains (disabled) "\<not> au_Enabled a" "start_audit w a = ([], None, None)"
  | (unopened) e where "au_Enabled a" "Open (me_Store w) (me_Database w) (store_config a) = Inl e"
      "start_audit w a = ([OpenStore (store_config a)], None, Some (''open audit store: '' @ e))"
  | (unpruned) st e r where "au_Enabled a" "Open (me_Store w) (me_Database w) (store_config a) = Inr st"
      "PruneRetention (me_Now w) (au_RetentionDays a) (opened_repository w st) = (Some e, r)"
      "start_audit w a = ([OpenStore (store_config a), PruneStore (au_RetentionDays a)], Some r,
         Some ''prune audit retention'')"
  | (started) st r rec pr where "au_Enabled a" "Open (me_Store w) (me_Database w) (store_config a) = Inr st"
      "PruneRetention (me_Now w) (au_RetentionDays a) (opened_repository w st) = (None, r)"
      "start_audit w a = ([OpenStore (store_config a), PruneStore (au_RetentionDays a), rec] @ pr @ [RecordEvent startup_event], Some r, None)"
      "phase rec = 2" "pr = [] \<or> (\<exists>n d. pr = [StartPruner n d])"
proof (cases "au_Enabled a")
  case False
  then show ?thesis using disabled by (simp add: start_audit_def)
next
  case en: True
  show ?thesis
  proof (cases "Open (me_Store w) (me_Database w) (store_config a)")
    case (Inl e)
    then show ?thesis using en unopened by (simp add: start_audit_def)
  next
    case op: (Inr st)
    obtain err r where p: "PruneRetention (me_Now w) (au_RetentionDays a) (opened_repository w st) = (err, r)"
      by fastforce
    show ?thesis
    proof (cases err)
      case (Some e)
      then show ?thesis using en op p unpruned by (simp add: start_audit_def)
    next
      case None
      show ?thesis
        by (rule started [OF en op p [unfolded None], of "if au_AsyncEnabled a then StartAsyncRecorder (policy_config a) (async_config a)
              else StartSyncRecorder (policy_config a)"
              "if 0 < au_PruneInterval a then [StartPruner (au_RetentionDays a) (au_PruneInterval a)] else []"])
          (use en op p None in \<open>auto simp: start_audit_def\<close>)
    qed
  qed
qed

lemma start_server_cases:
  obtains (failed) r where "start_server w cfg = ([], r)" "r \<noteq> RunDone"
  | (ended) r where "start_server w cfg = ([Listen (cf_HTTPAddr cfg)], r)" "me_Serve w \<noteq> Signalled"
  | (stuck) e where "me_Serve w = Signalled" "me_Shutdown w = Some e"
      "start_server w cfg = ([Listen (cf_HTTPAddr cfg), ShutdownHTTP], RunError (''http shutdown failed: '' @ e))"
  | (closed) st r where "me_Serve w = Signalled" "me_Shutdown w = None"
      "start_server w cfg = ([Listen (cf_HTTPAddr cfg), ShutdownHTTP] @ st @
         [CloseRecorder (au_ShutdownFlushTimeout (cf_Audit cfg))], r)"
      "st = [] \<or> st = [StopPruner]" "r = RunDone \<longleftrightarrow> me_Close w = None"
proof (cases "\<exists>r. start_server w cfg = ([], r) \<and> r \<noteq> RunDone")
  case True
  then show ?thesis using failed by blast
next
  case False
  then have s: "start_server w cfg = serve_http w cfg"
    by (auto simp: start_server_def split: sum.splits router_result.splits)
  show ?thesis
  proof (cases "me_Serve w")
    case (ServeEnded e)
    then show ?thesis using s ended by (cases e) (simp_all add: serve_http_def)
  next
    case sig: Signalled
    show ?thesis
    proof (cases "me_Shutdown w")
      case (Some e)
      then show ?thesis using sig s stuck by (simp add: serve_http_def)
    next
      case None
      show ?thesis
        by (rule closed [OF sig None, of "if au_Enabled (cf_Audit cfg) \<and> 0 < au_PruneInterval (cf_Audit cfg) then [StopPruner] else []"
            "case me_Close w of Some e \<Rightarrow> RunError (''audit recorder shutdown failed: '' @ e) | None \<Rightarrow> RunDone"])
          (use sig None s in \<open>auto simp: serve_http_def split: option.split\<close>)
    qed
  qed
qed

definition lifecycle :: "'k main_env \<Rightarrow> main_action list \<Rightarrow> run_result \<Rightarrow> bool" where
  "lifecycle w acts res \<longleftrightarrow>
     sorted_wrt (<) (phases acts) \<and>
     (CloseStore \<in> set acts \<longleftrightarrow> (\<exists>b. OpenStore b \<in> set acts \<and> \<not> isl (Open (me_Store w) (me_Database w) b))) \<and>
     ((\<exists>d. CloseRecorder d \<in> set acts) \<longleftrightarrow> ShutdownHTTP \<in> set acts \<and> me_Shutdown w = None) \<and>
     (ShutdownHTTP \<in> set acts \<longrightarrow> me_Serve w = Signalled) \<and>
     (res = RunDone \<longrightarrow> (\<exists>a. Listen a \<in> set acts) \<and>
        (me_Serve w = Signalled \<longrightarrow> (\<exists>d. CloseRecorder d \<in> set acts) \<and> me_Close w = None))"

lemma lifecycle_run: "lifecycle w (fst (run w env)) (snd (run w env))"
proof (cases "loadFromMap env")
  case (Inl e)
  then show ?thesis by (simp add: run_def lifecycle_def)
next
  case (Inr cfg)
  show ?thesis
  proof (cases rule: start_audit_cases [of "cf_Audit cfg" w])
    case disabled
    then show ?thesis
      by (cases rule: start_server_cases [of w cfg]) (auto simp: run_def Inr lifecycle_def)
  next
    case (unopened e)
    then show ?thesis by (simp add: run_def Inr lifecycle_def)
  next
    case (unpruned st e r)
    then show ?thesis by (simp add: run_def Inr lifecycle_def)
  next
    case (started st r rec pr)
    then have "fst (run w env) = [OpenStore (store_config (cf_Audit cfg)), PruneStore (au_RetentionDays (cf_Audit cfg)), rec] @ pr @
        [RecordEvent startup_event] @ fst (start_server w cfg) @ [CloseStore]"
      "snd (run w env) = snd (start_server w cfg)"
      by (simp_all add: run_def Inr split_beta)
    moreover have "rec \<noteq> CloseStore" "rec \<noteq> ShutdownHTTP" "CloseRecorder d \<noteq> rec" "rec \<noteq> OpenStore b" for d b
      using started(5) by auto
    ultimately show ?thesis
      using started(2,5,6)
      by (cases rule: start_server_cases [of w cfg]) (auto simp: lifecycle_def)
  qed
qed

text \<open>
  C10. The order of start-up and shutdown: whatever the world answers, each action happens at most once
  and in the order store, retention, recorder, pruner, start-up event, listening, HTTP shutdown, end of
  the pruner, closing of the recorder, closing of the store.  The store is closed exactly in the runs that
  opened it, the recorder is closed exactly when the HTTP server has shut down cleanly, so that no handler
  records into a closed recorder and no recorder writes to a closed store, and a run that was ended by a
  signal reports success only if the recorder closed without error.  A configuration that does not load
  leads to no action at all.
\<close>

theorem run_lifecycle:
  "lifecycle w (fst (run w env)) (snd (run w env)) \<and>
   ((\<exists>e. loadFromMap env = Inl e) \<longrightarrow> fst (run w env) = [] \<and> main_exit w env = 1)"
  by (auto simp: lifecycle_run) (auto simp: run_def main_exit_def)

theorem run_lifecycle_witness:
  "\<forall>w :: unit main_env. fst (run w Map.empty) = [] \<and> main_exit w Map.empty = 1"
proof
  fix w :: "unit main_env"
  have "isl (loadFromMap Map.empty)" by code_simp
  then have "\<exists>e. loadFromMap Map.empty = Inl e" by (auto simp: isl_def)
  with run_lifecycle [of w Map.empty] show "fst (run w Map.empty) = [] \<and> main_exit w Map.empty = 1" by blast
qed

text \<open>
  Where the HTTP server does not shut down in time, the recorder is never closed: what is still queued
  for the audit log at that moment is not flushed, although the store is open and is closed right after.
\<close>

lemma failed_shutdown_skips_flush:
  assumes "me_Serve w = Signalled" and "me_Shutdown w = Some e" and "ShutdownHTTP \<in> set (fst (run w env))"
  shows "\<not> (\<exists>d. CloseRecorder d \<in> set (fst (run w env)))"
  using lifecycle_run [of w env] assms by (simp add: lifecycle_def)

section \<open>The retention loop\<close>

definition stored_events :: "repository \<Rightarrow> event_row set" where
  "stored_events r = set (tb_events (rp_tables r))"

lemma prune_step:
  fixes r :: repository and now :: time and days :: int
  defines "r' \<equiv> snd (PruneRetention now days r)"
  shows "stored_events r' \<subseteq> stored_events r"
    and "m \<in> stored_events r \<Longrightarrow> add_days now (- days) \<le> er_Timestamp m \<Longrightarrow> m \<in> stored_events r'"
    and "0 < days \<Longrightarrow> rp_outcomes r (rp_tx r) = Commit \<Longrightarrow> m \<in> stored_events r' \<Longrightarrow>
      add_days now (- days) \<le> er_Timestamp m"
    and "rp_outcomes r' = rp_outcomes r"
  by (auto simp: r'_def stored_events_def PruneRetention_def runInTx_def Let_def split: tx_outcome.splits)

lemma pruner_returns: "fst (runAuditPruner days signals r) \<longleftrightarrow> Cancelled \<in> set signals"
  by (induction days signals r rule: runAuditPruner.induct) simp_all

lemma pruner_shrinks: "stored_events (snd (runAuditPruner days signals r)) \<subseteq> stored_events r"
  using prune_step(1) by (induction days signals r rule: runAuditPruner.induct) (simp_all, blast)

lemma pruner_keeps:
  "m \<in> stored_events r \<Longrightarrow> \<forall>now. Ticked now \<in> set signals \<longrightarrow> add_days now (- days) \<le> er_Timestamp m \<Longrightarrow>
     m \<in> stored_events (snd (runAuditPruner days signals r))"
  by (induction days signals r rule: runAuditPruner.induct) (simp_all add: prune_step(2))

lemma pruner_cuts:
  "Cancelled \<notin> set before \<Longrightarrow> 0 < days \<Longrightarrow> \<forall>n. rp_outcomes r n = Commit \<Longrightarrow>
     m \<in> stored_events (snd (runAuditPruner days (before @ Ticked now # after) r)) \<Longrightarrow>
     add_days now (- days) \<le> er_Timestamp m"
proof (induction days before r rule: runAuditPruner.induct)
  case (1 days r)
  then show ?case using prune_step(3) pruner_shrinks by fastforce
next
  case (2 days now' signals r)
  then show ?case by (simp add: prune_step(4))
qed simp

text \<open>
  C23. The retention loop: it returns as soon as, and only when, its context ends; it never adds an event
  and never removes one that is inside the retention at all ticks it has seen; and where the database
  commits, after each tick no event older than the retention at that tick is left.
\<close>

theorem pruner_retention:
  "(fst (runAuditPruner days signals r) \<longleftrightarrow> Cancelled \<in> set signals) \<and>
   stored_events (snd (runAuditPruner days signals r)) \<subseteq> stored_events r \<and>
   (\<forall>m \<in> stored_events r. (\<forall>now. Ticked now \<in> set signals \<longrightarrow> add_days now (- days) \<le> er_Timestamp m) \<longrightarrow>
      m \<in> stored_events (snd (runAuditPruner days signals r))) \<and>
   (\<forall>before now after. signals = before @ Ticked now # after \<and> Cancelled \<notin> set before \<and>
        0 < days \<and> (\<forall>n. rp_outcomes r n = Commit) \<longrightarrow>
      (\<forall>m \<in> stored_events (snd (runAuditPruner days signals r)). add_days now (- days) \<le> er_Timestamp m))"
  using pruner_returns pruner_shrinks pruner_keeps pruner_cuts by (intro conjI) blast+

text \<open>
  The audit store at start-up: where it opens on a database of this program, the recorder gets a repository
  on the schema it needs, with the rows that the database had, less those outside the retention.
\<close>

lemma startup_store:
  assumes st: "start_audit w a = (acts, Some r, None)" and known: "\<And>t. known (me_Database w t)"
    and current: "\<And>t. current_events (me_Database w t)"
  obtains target db where "Open (me_Store w) (me_Database w) (store_config a) =
      Inr (\<lparr>os_dialect = rp_dialect r, os_target = target, os_pool = applyPool (rp_dialect r) (store_config a) initial_pool\<rparr>, db)"
    "ready (rp_dialect r) db" "stored_events r \<subseteq> set (tb_events (db_Tables (me_Database w target)))"
    "\<And>m. m \<in> set (tb_events (db_Tables (me_Database w target))) \<Longrightarrow>
       add_days (me_Now w) (- au_RetentionDays a) \<le> er_Timestamp m \<Longrightarrow> m \<in> stored_events r"
    "\<And>m. 0 < au_RetentionDays a \<Longrightarrow> m \<in> stored_events r \<Longrightarrow> add_days (me_Now w) (- au_RetentionDays a) \<le> er_Timestamp m"
proof (cases rule: start_audit_cases [of a w])
  case (started st r' rec pr)
  then have r: "PruneRetention (me_Now w) (au_RetentionDays a) (opened_repository w st) = (None, r)"
    using st by simp
  obtain name target db where o: "Migrate name (me_Database w target) = (None, db)"
    "st = (\<lparr>os_dialect = name, os_target = target, os_pool = applyPool name (store_config a) initial_pool\<rparr>, db)"
    by (rule OpenE [OF started(2)])
  have tables: "db_Tables db = db_Tables (me_Database w target)"
    using migrate_keeps [OF known [of target] current [of target], of name] by (simp add: o(1))
  have ready: "ready name db" by (rule migrate_ready [OF known o(1)])
  have "rp_dialect r = name"
    using r o(2) by (auto simp: PruneRetention_def opened_repository_def runInTx_def Let_def split: if_splits tx_outcome.splits)
  moreover have "0 < au_RetentionDays a \<Longrightarrow> m \<in> stored_events r \<Longrightarrow>
      add_days (me_Now w) (- au_RetentionDays a) \<le> er_Timestamp m" for m
    using r by (auto simp: stored_events_def PruneRetention_def runInTx_def Let_def split: tx_outcome.splits)
  moreover note prune_step(1,2) [where now = "me_Now w" and days = "au_RetentionDays a" and r = "opened_repository w st", unfolded r snd_conv]
  ultimately show ?thesis
    using that [of target db] started(2) ready
    by (simp add: o(2) stored_events_def opened_repository_def tables)
qed (use st in simp_all)

definition demo_signals :: "prune_signal list" where
  "demo_signals = [Ticked (24 * hour + 60), Cancelled]"

theorem pruner_retention_witness:
  "list_all (\<lambda>m. 60 \<le> er_Timestamp m) (tb_events (rp_tables (snd (runAuditPruner 1 demo_signals demo_query_repo))))"
proof -
  have "demo_signals = [] @ Ticked (24 * hour + 60) # [Cancelled] \<and> Cancelled \<notin> set [] \<and> 0 < (1 :: int) \<and>
      (\<forall>n. rp_outcomes demo_query_repo n = Commit)"
    by (simp add: demo_signals_def demo_query_repo_def)
  with pruner_retention [of 1 demo_signals demo_query_repo, THEN conjunct2, THEN conjunct2, THEN conjunct2]
  have "\<forall>m \<in> stored_events (snd (runAuditPruner 1 demo_signals demo_query_repo)).
      add_days (24 * hour + 60) (- 1) \<le> er_Timestamp m" by (elim allE) (rule mp)
  then show ?thesis by (simp add: add_days_def stored_events_def list_all_iff)
qed

section \<open>The wired handlers\<close>

lemma exchange_admitted:
  fixes h c
  defines "d \<equiv> c\<lparr>cx_Ticks := Suc (cx_Ticks c)\<rparr>"
  assumes "exchange_admissible h (cx_Request c) req"
  shows "cx_Body (exchange_Handle h c) = cx_Body (exchange_upstream h (cx_Clock c (cx_Ticks c)) req d)"
    "cx_Status (exchange_Handle h c) = cx_Status (exchange_upstream h (cx_Clock c (cx_Ticks c)) req d)"
  using assms(2) exchange_body_admissible [of h d req "cx_Clock c (cx_Ticks c)"]
  by (simp_all add: exchange_Handle_simps d_def)

text \<open>What the handler answers to an admissible request, by the answers of the upstream services.\<close>

lemma exchange_answers:
  assumes "exchange_admissible h (cx_Request c) req"
    and "eh_TurnstileVerifier h (turnstile_request h (cx_Request c) req) = Inr resp"
  shows "\<not> vs_Success resp \<Longrightarrow> cx_Status (exchange_Handle h c) = 400"
    and "vs_Success resp \<Longrightarrow> eh_Exchanger h (xq_LimitedUse req) = Inr x \<Longrightarrow>
      cx_Status (exchange_Handle h c) = 200 \<and>
      cx_Body (exchange_Handle h c) = Some (ExchangeResponse (xr_Token x) (xr_ExpireTimeMillis x))"
  using assms(2) unfolding exchange_admitted [OF assms(1)]
  by (simp_all add: exchange_upstream_def turnstile_request_def record_step_eq Let_def body_allowed_def)

lemma verify_answers:
  assumes "GetHeader c (vh_HeaderName h) = token"
  shows "token \<noteq> [] \<Longrightarrow> vh_Verifier h token = Inr app \<Longrightarrow> cx_Status (verify_Handle h c) = vh_SuccessStatus h"
    and "token = [] \<or> vh_Verifier h token = Inl e \<Longrightarrow> cx_Status (verify_Handle h c) = vh_FailureStatus h"
  using assms
  by (auto simp: verify_Handle_eq verify_body_def verify_denied_def recordVerifyStep_def record_step_eq
      GetHeader_def Let_def)

lemma handler_simps [simp]:
  "eh_TurnstileVerifier (exchange_handler cfg up) = up_Verifier up"
  "eh_Exchanger (exchange_handler cfg up) = up_Exchanger up"
  "eh_OriginAllowed (exchange_handler cfg up) = Some (IsExchangeOriginAllowed cfg)"
  "eh_TrustProxyHeaders (exchange_handler cfg up) = cf_TrustProxyHeaders cfg"
  "vh_Verifier (verify_handler cfg up) = up_VerifyToken up"
  "vh_HeaderName (verify_handler cfg up) = cf_VerifyHeaderName cfg"
  "vh_SuccessStatus (verify_handler cfg up) = cf_VerifySuccessStatus cfg"
  "vh_FailureStatus (verify_handler cfg up) = cf_VerifyFailureStatus cfg"
  by (simp_all add: exchange_handler_def verify_handler_def)

text \<open>
  C24. In the end-to-end mode the two endpoints work together as in production: with a configuration
  that has loaded, exchanging the configured pass token yields the configured App Check token, valid for
  the configured lifetime from the reading of the clock on; presenting that token to the verify endpoint
  answers with the success status, which is 2xx; any other Turnstile token is refused with 400, and
  without the App Check token the verify endpoint answers with the failure status, which is not 2xx.
\<close>

theorem mock_flow:
  assumes load: "loadFromMap env = Inr cfg" and mock: "IsMockUpstreamMode cfg" and up: "build_upstreams w cfg = Inr up"
    and adm: "exchange_admissible (exchange_handler cfg up) (cx_Request c) req"
  shows "(xq_TurnstileToken req = e2_TurnstilePassToken (cf_E2E cfg) \<longrightarrow>
       cx_Status (exchange_Handle (exchange_handler cfg up) c) = 200 \<and>
       cx_Body (exchange_Handle (exchange_handler cfg up) c) = Some (ExchangeResponse (e2_AppCheckToken (cf_E2E cfg))
         (time_unix_milli (me_clock w 0 + cf_AppCheckTokenTTL cfg)))) \<and>
     (xq_TurnstileToken req \<noteq> e2_TurnstilePassToken (cf_E2E cfg) \<longrightarrow>
       cx_Status (exchange_Handle (exchange_handler cfg up) c) = 400) \<and>
     (GetHeader d (cf_VerifyHeaderName cfg) = e2_AppCheckToken (cf_E2E cfg) \<longrightarrow>
       cx_Status (verify_Handle (verify_handler cfg up) d) = cf_VerifySuccessStatus cfg) \<and>
     (GetHeader d (cf_VerifyHeaderName cfg) \<noteq> e2_AppCheckToken (cf_E2E cfg) \<longrightarrow>
       cx_Status (verify_Handle (verify_handler cfg up) d) = cf_VerifyFailureStatus cfg) \<and>
     cf_VerifySuccessStatus cfg div 100 = 2 \<and> cf_VerifyFailureStatus cfg div 100 \<noteq> 2"
proof -
  note ok = loaded_config_ok [OF load]
  from up mock have up: "up = mock_upstreams w cfg" by (simp add: build_upstreams_def)
  have V: "up_Verifier up = mock_Verify (cf_E2E cfg)" "up_VerifyToken up = mock_VerifyToken (cf_E2E cfg)"
    "up_Exchanger up = mock_Exchange (cf_E2E cfg) (cf_AppCheckTokenTTL cfg) (me_clock w 0)"
    by (simp_all add: up mock_upstreams_def)
  have tok: "e2_AppCheckToken (cf_E2E cfg) \<noteq> []" using ok mock by (simp add: config_ok_def upstream_ok_def)
  have "0 < cf_AppCheckTokenTTL cfg"
    using ok by (simp add: config_ok_def timing_ok_def minAppCheckTokenTTL_def duration_units)
  then have ttl: "mock_ttl (cf_AppCheckTokenTTL cfg) = cf_AppCheckTokenTTL cfg" by (simp add: mock_ttl_def)
  have status: "cf_VerifySuccessStatus cfg div 100 = 2" "cf_VerifyFailureStatus cfg div 100 \<noteq> 2"
    using ok unfolding config_ok_def status_ok_def by linarith+
  note exchange = exchange_answers [OF adm]
  note verify = verify_answers [of d "verify_handler cfg up", OF refl]
  show ?thesis
  proof (intro conjI impI status)
    assume "xq_TurnstileToken req = e2_TurnstilePassToken (cf_E2E cfg)"
    then have "up_Verifier up (turnstile_request (exchange_handler cfg up) (cx_Request c) req) =
        Inr (zero_verify_response\<lparr>vs_Success := True\<rparr>)"
      by (simp add: V mock_Verify_def turnstile_request_def)
    with exchange(2) [of "zero_verify_response\<lparr>vs_Success := True\<rparr>"]
    show "cx_Status (exchange_Handle (exchange_handler cfg up) c) = 200"
      "cx_Body (exchange_Handle (exchange_handler cfg up) c) = Some (ExchangeResponse (e2_AppCheckToken (cf_E2E cfg))
         (time_unix_milli (me_clock w 0 + cf_AppCheckTokenTTL cfg)))"
      by (simp_all add: V mock_Exchange_def ttl time_add_def)
  next
    assume "xq_TurnstileToken req \<noteq> e2_TurnstilePassToken (cf_E2E cfg)"
    then obtain resp where "up_Verifier up (turnstile_request (exchange_handler cfg up) (cx_Request c) req) = Inr resp"
      "\<not> vs_Success resp"
      by (auto simp: V mock_Verify_def turnstile_request_def zero_verify_response_def)
    then show "cx_Status (exchange_Handle (exchange_handler cfg up) c) = 400" using exchange(1) by simp
  next
    assume "GetHeader d (cf_VerifyHeaderName cfg) = e2_AppCheckToken (cf_E2E cfg)"
    then show "cx_Status (verify_Handle (verify_handler cfg up) d) = cf_VerifySuccessStatus cfg"
      using verify(1) tok by (simp add: V mock_VerifyToken_def)
  next
    assume "GetHeader d (cf_VerifyHeaderName cfg) \<noteq> e2_AppCheckToken (cf_E2E cfg)"
    then show "cx_Status (verify_Handle (verify_handler cfg up) d) = cf_VerifyFailureStatus cfg"
      using verify(2) [of "''mock app check token is invalid''"] by (simp add: V mock_VerifyToken_def)
  qed
qed


definition demo_mock_env :: env where
  "demo_mock_env = map_of [(''E2E_UPSTREAM_MODE'', '' Mock ''), (''E2E_TURNSTILE_PASS_TOKEN'', ''pass'')]"

definition demo_mock :: Config where
  "demo_mock = projr (loadFromMap demo_mock_env)"

theorem mock_flow_witness:
  "\<forall>w :: unit main_env.
     cx_Status (exchange_Handle (exchange_handler demo_mock (mock_upstreams w demo_mock))
       (new_context (demo_request ''pass'') int)) = 200"
proof
  fix w :: "unit main_env"
  let ?c = "new_context (demo_request ''pass'') int"
  let ?req = "\<lparr>xq_TurnstileToken = ''pass'', xq_LimitedUse = False\<rparr>"
  have "\<not> isl (loadFromMap demo_mock_env)" by code_simp
  then have load: "loadFromMap demo_mock_env = Inr demo_mock" by (simp add: demo_mock_def)
  have mock: "IsMockUpstreamMode demo_mock" by code_simp
  have up: "build_upstreams w demo_mock = Inr (mock_upstreams w demo_mock)" using mock by (simp add: build_upstreams_def)
  have "hasJSONContentType (demo_request ''pass'')" "decodeJSONStrict (rq_Body (demo_request ''pass'')) = Some ?req"
    "IsExchangeOriginAllowed demo_mock (header_get (rq_Headers (demo_request ''pass'')) ''Origin'')"
    "e2_TurnstilePassToken (cf_E2E demo_mock) = ''pass''" by code_simp+
  moreover from this have adm: "exchange_admissible (exchange_handler demo_mock (mock_upstreams w demo_mock)) (cx_Request ?c) ?req"
    by (simp add: exchange_admissible_def new_context_def)
  ultimately show "cx_Status (exchange_Handle (exchange_handler demo_mock (mock_upstreams w demo_mock)) ?c) = 200"
    using mock_flow [OF load mock up adm] by simp
qed

section \<open>A token from end to end\<close>

text \<open>Siteverify was asked about this token of this client, for the configured secret, and accepted it.\<close>

definition siteverify_accepts :: "'k main_env \<Rightarrow> Config \<Rightarrow> VerifyRequest \<Rightarrow> bool" where
  "siteverify_accepts w cfg req \<longleftrightarrow>
     (\<exists>q answer body verdict. hq_Method q = ''POST'' \<and> hq_URL q = trim_space (cf_TurnstileSiteVerifyURL cfg) \<and>
        parse_query (hq_Body q) = Some
          ((if trim_space (vr_RemoteIP req) \<noteq> [] then [(''remoteip'', trim_space (vr_RemoteIP req))] else []) @
           [(''response'', vr_Token req), (''secret'', trim_space (cf_TurnstileSecretKey cfg))]) \<and>
        me_HTTP w q = Inr answer \<and> success_status (hs_Status answer) \<and>
        read_response answer = Some body \<and> decode_verify_response body = Some verdict \<and> vs_Success verdict)"

text \<open>
  The App Check service was asked for a token of the configured app with a custom token that the
  configured service account signed for it, and answered with this token.
\<close>

definition appcheck_issues :: "'k main_env \<Rightarrow> Config \<Rightarrow> bool \<Rightarrow> string \<Rightarrow> bool" where
  "appcheck_issues w cfg limitedUse token \<longleftrightarrow>
     (\<exists>creds sa key custom q answer body parsed.
        NormalizeJSON (cf_ServiceAccountJSON cfg) = Inr (creds, sa) \<and>
        ParseRSAPrivateKey (me_Keys w) (Some sa) = Inr key \<and>
        jl_SignedString (me_JWT w) key \<lparr>jt_Alg = ''RS256'', jt_Typ = ''JWT'', jt_Claims =
          custom_claims_of (trim_space (sa_ClientEmail sa)) (trim_space (cf_FirebaseAppID cfg)) (me_clock w 0)
            \<lparr>co_TTLMillis = Some (duration_millis (cf_AppCheckTokenTTL cfg))\<rparr>\<rparr> = Inr custom \<and>
        hq_Method q = ''POST'' \<and>
        hq_URL q = appCheckExchangeEndpointPrefix @ trim_space (cf_FirebaseAppResource cfg) @ '':exchangeCustomToken'' \<and>
        parse_json (hq_Body q) = Some (JObject [(''customToken'', JString custom), (''limitedUse'', JBool limitedUse)]) \<and>
        me_HTTP w q = Inr answer \<and> success_status (hs_Status answer) \<and>
        read_response answer = Some body \<and> decode_exchange_response body = Some parsed \<and>
        token = er_Token parsed \<and> trim_space token \<noteq> [])"

lemma success_statusI: "200 \<le> s \<Longrightarrow> s \<le> 299 \<Longrightarrow> success_status s"
  by (simp add: success_status_def)

text \<open>The wired upstreams are the clients over the configuration.\<close>

lemma real_upstreamsE:
  assumes "real_upstreams w cfg = Inr up"
  obtains creds sa key access where "NormalizeJSON (cf_ServiceAccountJSON cfg) = Inr (creds, sa)"
    "ParseRSAPrivateKey (me_Keys w) (Some sa) = Inr key"
    "up_Verifier up = turnstile_Verify \<lparr>tc_httpClient = me_HTTP w, tc_secretKey = trim_space (cf_TurnstileSecretKey cfg),
       tc_verifyURL = trim_space (cf_TurnstileSiteVerifyURL cfg)\<rparr>"
    "up_Exchanger up = appcheck_Exchange (me_JWT w) (me_clock w) access
       \<lparr>fc_httpClient = me_HTTP w, fc_privateKey = key, fc_privateKeyEmail = trim_space (sa_ClientEmail sa),
        fc_appResource = trim_space (cf_FirebaseAppResource cfg), fc_appID = trim_space (cf_FirebaseAppID cfg),
        fc_customTokenOptions = \<lparr>co_TTLMillis = Some (duration_millis (cf_AppCheckTokenTTL cfg))\<rparr>\<rparr>"
  using assms that
  by (auto simp: real_upstreams_def rbind_Inr_iff turnstile_NewClient_def appcheck_NewClient_def split: if_splits prod.splits)

text \<open>
  C1. No token without both services: with the real upstream clients wired in, a token that the exchange
  endpoint answers was issued by the App Check service for the configured app, over a custom token that
  the configured service account signed, and before that the siteverify service had accepted, for the
  configured secret, exactly the Turnstile token that the request carried; these two calls, in this order, are all
  that was asked upstream.  The signer returns valid UTF-8 (a compact JWS is base64url).
\<close>

theorem issued_token_sound:
  assumes up: "real_upstreams w cfg = Inr up"
    and signer: "\<forall>k t s. jl_SignedString (me_JWT w) k t = Inr s \<longrightarrow> valid_utf8 s"
    and fresh: "cx_Body c = None"
    and answer: "cx_Body (exchange_Handle (exchange_handler cfg up) c) = Some (ExchangeResponse token millis)"
  shows "\<exists>req. exchange_admissible (exchange_handler cfg up) (cx_Request c) req \<and>
    siteverify_accepts w cfg (turnstile_request (exchange_handler cfg up) (cx_Request c) req) \<and>
    appcheck_issues w cfg (xq_LimitedUse req) token \<and>
    cx_Calls (exchange_Handle (exchange_handler cfg up) c) = cx_Calls c @
      [CallTurnstile (turnstile_request (exchange_handler cfg up) (cx_Request c) req), CallExchange (xq_LimitedUse req)]"
proof -
  from up obtain creds sa key access where U: "NormalizeJSON (cf_ServiceAccountJSON cfg) = Inr (creds, sa)"
    "ParseRSAPrivateKey (me_Keys w) (Some sa) = Inr key"
    "up_Verifier up = turnstile_Verify \<lparr>tc_httpClient = me_HTTP w, tc_secretKey = trim_space (cf_TurnstileSecretKey cfg),
       tc_verifyURL = trim_space (cf_TurnstileSiteVerifyURL cfg)\<rparr>"
    "up_Exchanger up = appcheck_Exchange (me_JWT w) (me_clock w) access
       \<lparr>fc_httpClient = me_HTTP w, fc_privateKey = key, fc_privateKeyEmail = trim_space (sa_ClientEmail sa),
        fc_appResource = trim_space (cf_FirebaseAppResource cfg), fc_appID = trim_space (cf_FirebaseAppID cfg),
        fc_customTokenOptions = \<lparr>co_TTLMillis = Some (duration_millis (cf_AppCheckTokenTTL cfg))\<rparr>\<rparr>"
    by (rule real_upstreamsE)
  from exchange_issuesE [OF fresh answer] obtain req resp x where R:
    "exchange_admissible (exchange_handler cfg up) (cx_Request c) req"
    "up_Verifier up (turnstile_request (exchange_handler cfg up) (cx_Request c) req) = Inr resp" "vs_Success resp"
    "up_Exchanger up (xq_LimitedUse req) = Inr x" "token = xr_Token x"
    "cx_Calls (exchange_Handle (exchange_handler cfg up) c) = cx_Calls c @
       [CallTurnstile (turnstile_request (exchange_handler cfg up) (cx_Request c) req), CallExchange (xq_LimitedUse req)]"
    by (rule exchange_issuesE [OF fresh answer, unfolded handler_simps])
  have "siteverify_accepts w cfg (turnstile_request (exchange_handler cfg up) (cx_Request c) req)"
    using turnstile_verify_sound [OF R(2) [unfolded U(3)]] R(3)
    by (auto simp: siteverify_accepts_def success_status_def)
  moreover have "appcheck_issues w cfg (xq_LimitedUse req) token"
    using exchange_client_sound [OF R(4) [unfolded U(4)] signer] U(1,2)
    unfolding appcheck_issues_def R(5) appcheck_client.simps
    by (elim exE conjE) (intro exI conjI success_statusI, assumption+)
  ultimately show ?thesis using R(1,6) by blast
qed


definition demo_service :: Config where
  "demo_service = (initial_config Map.empty)
     \<lparr>cf_TurnstileSecretKey := ''key'', cf_ServiceAccountJSON := demo_account, cf_FirebaseProjectID := ''p'',
      cf_FirebaseAppID := ''a'', cf_FirebaseAppResource := ''projects/p/apps/a''\<rparr>"

definition demo_world :: "unit main_env" where
  "demo_world =
     \<lparr>me_Store = \<lparr>se_MkdirAll = (\<lambda>d. True), se_ParseMySQL = (\<lambda>d. None), se_Open = (\<lambda>t. True)\<rparr>,
      me_Database = (\<lambda>t. demo_db), me_Zone = fixed_zone 0, me_Outcomes = (\<lambda>n. Commit), me_Now = 0,
      me_HTTP = (\<lambda>q. if hq_URL q = cf_TurnstileSiteVerifyURL demo_service
        then Inr \<lparr>hs_Status = 200, hs_Body = json_object [(''success'', json_bool True)], hs_Broken = False\<rparr>
        else Inr \<lparr>hs_Status = 200, hs_Body = json_object [(''token'', json_quote ''appcheck'')], hs_Broken = False\<rparr>),
      me_JWT = demo_jwt,
      me_Keys = \<lparr>kp_Decode = Some, kp_PKCS1 = (\<lambda>b. Inr ()), kp_PKCS8 = (\<lambda>b. Inl [])\<rparr>,
      me_OAuth = (\<lambda>j s. Inr (Inr ''oauth'')), me_NewApp = (\<lambda>p j. Inr (Inr (\<lambda>t. Inr None))),
      me_clock = int, me_gin = \<lparr>ge_join = (@), ge_accepts = (\<lambda>rs. True), ge_SetTrustedProxies = (\<lambda>ps. None)\<rparr>,
      me_Serve = Signalled, me_Shutdown = None, me_Close = None\<rparr>"

text \<open>The parts of the run, each evaluated on its own.\<close>

lemma demo_account_email: "case NormalizeJSON demo_account of Inl e \<Rightarrow> False | Inr (out, sa) \<Rightarrow> sa_ClientEmail sa = ''sa@p''"
  by code_simp

lemma demo_fields:
  "trim_space ''key'' = ''key''" "trim_space ''a'' = ''a''" "trim_space ''projects/p/apps/a'' = ''projects/p/apps/a''"
  "trim_space ''sa@p'' = ''sa@p''" "trim_space (cf_TurnstileSiteVerifyURL demo_service) = cf_TurnstileSiteVerifyURL demo_service"
  "cf_TurnstileSiteVerifyURL demo_service \<noteq> []" "duration_millis (cf_AppCheckTokenTTL demo_service) = 1800000"
  by code_simp+

definition demo_upstreams :: upstreams where
  "demo_upstreams =
     \<lparr>up_Verifier = turnstile_Verify \<lparr>tc_httpClient = me_HTTP demo_world, tc_secretKey = ''key'',
        tc_verifyURL = cf_TurnstileSiteVerifyURL demo_service\<rparr>,
      up_Exchanger = appcheck_Exchange (me_JWT demo_world) (me_clock demo_world) (Inr ''oauth'')
        \<lparr>fc_httpClient = me_HTTP demo_world, fc_privateKey = (), fc_privateKeyEmail = ''sa@p'',
         fc_appResource = ''projects/p/apps/a'', fc_appID = ''a'',
         fc_customTokenOptions = \<lparr>co_TTLMillis = Some 1800000\<rparr>\<rparr>,
      up_VerifyToken = (\<lambda>t. Inr None)\<rparr>"

lemma demo_wired: "real_upstreams demo_world demo_service = Inr demo_upstreams"
proof -
  obtain out sa where sa: "NormalizeJSON demo_account = Inr (out, sa)" "sa_ClientEmail sa = ''sa@p''"
    using demo_account_email by (auto split: sum.splits)
  have cfg: "cf_TurnstileSecretKey demo_service = ''key''" "cf_ServiceAccountJSON demo_service = demo_account"
    "cf_FirebaseAppID demo_service = ''a''" "cf_FirebaseAppResource demo_service = ''projects/p/apps/a''"
    by (simp_all add: demo_service_def)
  have w: "me_Keys demo_world = \<lparr>kp_Decode = Some, kp_PKCS1 = (\<lambda>b. Inr ()), kp_PKCS8 = (\<lambda>b. Inl [])\<rparr>"
    "me_OAuth demo_world = (\<lambda>j s. Inr (Inr ''oauth''))" "me_NewApp demo_world = (\<lambda>p j. Inr (Inr (\<lambda>t. Inr None)))"
    by (simp_all add: demo_world_def)
  show ?thesis
    by (simp add: real_upstreams_def cfg w sa wrap_def ParseRSAPrivateKey_def NewTokenSource_def
        turnstile_NewClient_def appcheck_NewClient_def demo_fields demo_upstreams_def)
qed

lemma demo_sent:
  "up_Verifier demo_upstreams \<lparr>vr_Token = ''pass'', vr_RemoteIP = ''10.0.0.1''\<rparr> =
     Inr (zero_verify_response\<lparr>vs_Success := True\<rparr>)"
  unfolding demo_upstreams_def upstreams.simps by code_simp

lemma demo_issued:
  "up_Exchanger demo_upstreams False =
     Inr \<lparr>xr_Token = ''appcheck'', xr_ExpireTimeMillis = 1800000, xr_TTLMillis = 62135598600000\<rparr>"
  unfolding demo_upstreams_def upstreams.simps by code_simp

lemma demo_admissible:
  "hasJSONContentType (demo_request ''pass'')"
  "decodeJSONStrict (rq_Body (demo_request ''pass'')) = Some \<lparr>xq_TurnstileToken = ''pass'', xq_LimitedUse = False\<rparr>"
  "extractRemoteIP (demo_request ''pass'') False = ''10.0.0.1''"
  "IsExchangeOriginAllowed demo_service (header_get (rq_Headers (demo_request ''pass'')) ''Origin'')"
  "\<not> cf_TrustProxyHeaders demo_service"
  by code_simp+

theorem issued_token_sound_witness:
  "\<exists>req :: ExchangeRequest. appcheck_issues demo_world demo_service (xq_LimitedUse req) ''appcheck''"
proof -
  let ?c = "new_context (demo_request ''pass'') int"
  let ?h = "exchange_handler demo_service demo_upstreams"
  let ?req = "\<lparr>xq_TurnstileToken = ''pass'', xq_LimitedUse = False\<rparr>"
  have "valid_utf8 ''a.b.c''" by code_simp
  then have signer: "\<forall>k t s. jl_SignedString (me_JWT demo_world) k t = Inr s \<longrightarrow> valid_utf8 s"
    by (simp add: demo_world_def demo_jwt_def)
  have fresh: "cx_Body ?c = None" "cx_Request ?c = demo_request ''pass''" by (simp_all add: new_context_def)
  have adm: "exchange_admissible ?h (cx_Request ?c) ?req"
    using demo_admissible by (simp add: exchange_admissible_def fresh)
  have "eh_TurnstileVerifier ?h (turnstile_request ?h (cx_Request ?c) ?req) = Inr (zero_verify_response\<lparr>vs_Success := True\<rparr>)"
    using demo_admissible demo_sent by (simp add: turnstile_request_def fresh)
  from exchange_answers(2) [OF adm this] demo_issued
  have answer: "cx_Body (exchange_Handle ?h ?c) = Some (ExchangeResponse ''appcheck'' 1800000)" by simp
  from issued_token_sound [OF demo_wired signer fresh(1) answer] show ?thesis by blast
qed

end
