(* ===== verification/Spec2Isabelle.thy ===== *)
theory Spec2Isabelle
  imports AuditAsync HandlerProps Admin AuditStore Service
begin

text \<open>
  A verification library for the Turnstile / Firebase App Check gateway, a Go service with two public
  endpoints.  \<open>POST .../api/v1/exchange\<close> takes a Cloudflare Turnstile token, has it verified by the
  siteverify service and, on success, obtains a Firebase App Check token for the client;
  \<open>.../api/v1/verify\<close> is a forwardAuth endpoint that verifies an App Check token.  Around them are CORS,
  a rate limiter, an audit log in a SQL database with a synchronous and an asynchronous writer, an
  administration API with a dashboard, the configuration from environment variables, and start-up and
  shutdown.

  Conventions.  Strings are byte strings (\<open>char list\<close>).  A Go \<open>int\<close>, \<open>int64\<close> or \<open>time.Duration\<close> is an
  \<open>int\<close> in the 64-bit range, with the wrap-around written out (\<open>wrap64\<close>, \<open>quot64\<close>) where it can happen;
  a time is the number of nanoseconds from the zero time of Go.  Errors are values of sums
  or options, in the order of the checks of the code.  What the code does not contain (the database
  transaction outcomes, clocks, random numbers, HTTP peers, signing, key parsing, the OS, gin's tree of
  routes) is an argument: a function, an oracle or a list of answers.  A claim about such an argument is a
  hypothesis of the theorem, and each theorem with hypotheses has a witness on concrete values.

  The theories, with the files they model:

    \<^item> \<open>Prelude\<close>: the result monad, list and fold lemmas, the fact collections.
    \<^item> \<open>GoStrings\<close>, \<open>GoTime\<close>, \<open>GoStrconv\<close>, \<open>GoNet\<close>, \<open>GoJson\<close>, \<open>GoUrl\<close>, \<open>GoBind\<close>, \<open>GoMarshal\<close>: what
      the code uses of the Go library, with the semantics of that library: trimming, splitting and path
      cleaning, durations and their parser, integer, boolean and float parsing, IP addresses, the JSON scanner and
      decoder, URLs, gin's binding, and JSON and form encoding.  \<open>GoMarshal\<close> has the locale \<open>codec\<close> (what is
      encoded is decoded), interpreted on query escaping and on JSON strings; its lemmas say what an encoded object
      or form means to a parser.
    \<^item> \<open>RateLimit\<close> (\<open>internal/middleware/rate_limit.go\<close>): the fixed window limiter and its bounds.
    \<^item> \<open>AuditEvent\<close>, \<open>AuditPolicy\<close> (\<open>internal/audit/event.go\<close>, \<open>policy.go\<close>): preparation, redaction and the
      decision what is persisted and counted.
    \<^item> \<open>AuditRepo\<close>, \<open>AuditQuery\<close>, \<open>AuditStore\<close> (\<open>internal/audit/storage/bunrepo\<close>, \<open>cursor.go\<close>): the tables
      and every operation on them under an oracle of transaction outcomes (committed, rolled back,
      committed without an acknowledgement), with event metadata as their JSON text carries them; listing with cursors, summaries and chart points, where MySQL computes in the time zone of its session; driver, DSN, pool and
      migration, over a model of the schema in which any statement may fail.
    \<^item> \<open>AuditRecorder\<close>, \<open>AuditAsync\<close> (\<open>internal/audit/recorder.go\<close>): the locale of a batch store that retries
      may replay, interpreted on the repository; retries with backoff; the asynchronous recorder as a step relation
      over its channel, its writer and the calls of its clients, in any interleaving; that it stops is
      shown of every infinite run in which the writer keeps getting its turn.
    \<^item> \<open>AuditReader\<close> (the same file, as \<open>auditReader\<close> of \<open>internal/admin/handler.go\<close>): whole calls of the two
      recorders, recording, reading and resetting one repository, each shown to be a run of the step relation.
    \<^item> \<open>Config\<close> (\<open>internal/config/config.go\<close>): every default, parser and step of \<open>loadFromMap\<close>.
    \<^item> \<open>Handlers\<close>, \<open>HandlerProps\<close> (\<open>internal/handlers\<close>, \<open>internal/errors\<close>, \<open>internal/model\<close>): the two
      public handlers on a gin context that collects response, upstream calls and audit events.
    \<^item> \<open>Middleware\<close> (\<open>internal/middleware\<close>, the routes of \<open>internal/httpserver/server.go\<close>): recovery, CORS,
      rate limiting and the two routes composed.
    \<^item> \<open>Admin\<close> (\<open>internal/admin\<close>, \<open>internal/adminui\<close>, \<open>internal/version\<close>): authentication, all handlers and the
      dashboard; what they record goes into the tables that they read and reset.
    \<^item> \<open>Upstream\<close> (\<open>internal/turnstile\<close>, \<open>internal/firebaseappcheck\<close>, \<open>internal/auth\<close>, \<open>internal/e2e\<close>): the HTTP
      clients with the requests they send and the answers they accept, the service account, the mocks.
    \<^item> \<open>Service\<close> (\<open>cmd/turnstile-appcheck-gateway/main.go\<close>, \<open>internal/httpserver\<close>, \<open>internal/health\<close>,
      \<open>internal/logging\<close>): the router, the wiring of all parts, the trace of actions of a run and the retention loop.

  What the properties show, from the outside in.  \<open>Service\<close>: a token that is answered was issued by
  the App Check service for the configured app after siteverify had accepted the submitted token; start-up and
  shutdown keep their order and close what they opened; the repository that start-up hands to the
  recorder has the schema it needs and the rows inside the retention; the mock mode works end to end; the retention
  loop ends when told to and respects the retention.  \<open>HandlerProps\<close>, \<open>Middleware\<close>, \<open>Admin\<close>: both handlers admit
  and refuse what they should, record every request, never record the token; cross-origin headers name
  only allowed origins; the number of upstream calls per client and window is bounded; no administration handler runs
  for a request that is not entitled, and no administration call but a confirmed reset removes a row of the log.  The
  bounds of the limiter speak of requests in the order in which they take its mutex; as the clock is read before
  that, they say how late a reading may be.  \<open>AuditAsync\<close>, \<open>AuditRecorder\<close>, \<open>AuditRepo\<close>, \<open>AuditQuery\<close>, \<open>AuditStore\<close>: accepted
  items are in exactly one place, a graceful shutdown stores them all, batches are atomic and replayable,
  keys stay unique, pages follow each other without gap or repetition, migration keeps current data.
  \<open>Config\<close>: a configuration that loads is well formed and no malformed variable is ignored.  Some theorems and lemmas
  state behaviour that is not what the code is meant to do (an oversized event that stops the log, a
  spoofed address, an overflow that disables the limiter, late clock readings that exceed its bound, charts that are
  empty in some session zones, events lost when the HTTP shutdown times out); they
  say so in their text.

  Bounds and fuel.  Loops are structural recursions over what the code consumes (bytes, rows, attempts,
  ticks, actions), or have a proof of termination by a measure (\<open>valid_utf8\<close>, \<open>quote_bytes\<close>, the scanners,
  \<open>points_loop\<close>).  The only fuel is the number of requests that a client of \<open>List\<close> makes; that one more than the
  number of matching events is enough for it to reach the last page is part of the theorem.

  Not modelled: log lines and the request logger, which only writes one; contexts, HTTP timeouts and
  cancellation of handlers; column types and the text of SQL statements, of which the model has the effect; the mime types
  of embedded assets and the JavaScript of the dashboard; what gin does inside its router; the
  third-party libraries (JWT signing, PEM and key parsing, OAuth, the Firebase SDK, database drivers), which
  are parameters; the texts of library errors that the code wraps; Unicode case mappings (\<open>to_lower\<close>, \<open>to_upper\<close> and
  \<open>equal_fold\<close> act on the letters of ASCII); the treatment of texts that are not UTF-8 or hold a NUL byte by a
  database driver; session zones with daylight saving time, which the properties of the charts leave out; and the
  steps of other requests inside one administration call, which are the subject of \<open>AuditAsync\<close>.
\<close>

end
